theory Spec2Isabelle
  imports Complex_Main "HOL-Library.Word" "HOL-Library.Sublist"
begin

section \<open>JavaScript strings\<close>

text \<open>
  A JavaScript string is a sequence of UTF-16 code units; \<open>length\<close>, \<open>substring\<close>,
  \<open>trim\<close> and the regular expressions of the sources all work on code units.
  \<open>js\<close> writes an ASCII literal as such a sequence.
\<close>

type_synonym jschar = "16 word"
type_synonym jsstring = "jschar list"

definition js :: "string \<Rightarrow> jsstring" where
  "js s = map (\<lambda>c. of_nat (of_char c)) s"

text \<open>
  The code units that \<open>String.prototype.trim\<close> strips and that \<open>\s\<close> matches:
  ECMAScript's WhiteSpace and LineTerminator (tab, LF, VT, FF, CR, space, NBSP,
  U+1680, U+2000..U+200A, U+2028, U+2029, U+202F, U+205F, U+3000, U+FEFF).
\<close>

definition isWhiteSpace :: "jschar \<Rightarrow> bool" where
  "isWhiteSpace c \<longleftrightarrow>
     c = 0x9 \<or> c = 0xA \<or> c = 0xB \<or> c = 0xC \<or> c = 0xD \<or> c = 0x20 \<or> c = 0xA0
     \<or> c = 0x1680 \<or> (0x2000 \<le> c \<and> c \<le> 0x200A) \<or> c = 0x2028 \<or> c = 0x2029
     \<or> c = 0x202F \<or> c = 0x205F \<or> c = 0x3000 \<or> c = 0xFEFF"

text \<open>The class \<open>\d\<close> of a regular expression without the unicode flag: \<open>0\<close>..\<open>9\<close>.\<close>

definition isDigit :: "jschar \<Rightarrow> bool" where
  "isDigit c \<longleftrightarrow> 0x30 \<le> c \<and> c \<le> 0x39"

definition trimStart :: "jsstring \<Rightarrow> jsstring" where
  "trimStart s = dropWhile isWhiteSpace s"

definition trimEnd :: "jsstring \<Rightarrow> jsstring" where
  "trimEnd s = rev (dropWhile isWhiteSpace (rev s))"

definition trim :: "jsstring \<Rightarrow> jsstring" where
  "trim s = trimEnd (trimStart s)"

text \<open>\<open>s.substring(0, n)\<close>: a negative end is clamped to 0, one past the end to the length.\<close>

definition substring0 :: "jsstring \<Rightarrow> int \<Rightarrow> jsstring" where
  "substring0 s n = take (nat n) s"

text \<open>\<open>s.includes(t)\<close>: \<open>t\<close> occurs in \<open>s\<close> as a contiguous run of code units.\<close>

fun js_includes :: "jsstring \<Rightarrow> jsstring \<Rightarrow> bool" where
  "js_includes [] t = (t = [])"
| "js_includes (c # s) t = (prefix t (c # s) \<or> js_includes s t)"

section \<open>FileParser (src/fileParser.js)\<close>

text \<open>The character class \<open>[<>'"&]\<close> of \<open>sanitizeStringValue\<close>.\<close>

definition isMarkupChar :: "jschar \<Rightarrow> bool" where
  "isMarkupChar c \<longleftrightarrow> c = 0x3C \<or> c = 0x3E \<or> c = 0x27 \<or> c = 0x22 \<or> c = 0x26"

text \<open>
  \<^verbatim>\<open>
  return value
    .replace(/[<>'"&]/g, '')
    .replace(/\x00/g, '')
    .trim()
    .substring(0, 1000);
  \<close>
  The argument is a string at every call site (\<open>String(item)\<close> is applied first where
  it is not), so the conversion at the head of the function is the identity.
\<close>

definition sanitizeStringValue :: "jsstring \<Rightarrow> jsstring" where
  "sanitizeStringValue v =
     substring0 (trim (filter (\<lambda>c. c \<noteq> 0) (filter (\<lambda>c. \<not> isMarkupChar c) v))) 1000"

section \<open>JavaScript numbers\<close>

text \<open>
  A Number is NaN, an infinity or a finite value. \<open>num_less\<close> is JavaScript's \<open><\<close>
  on numbers: every comparison with NaN is false.
\<close>

datatype jsnum = NaN | PosInf | NegInf | Finite rat

fun num_less :: "jsnum \<Rightarrow> jsnum \<Rightarrow> bool" where
  "num_less NaN _ = False"
| "num_less _ NaN = False"
| "num_less (Finite a) (Finite b) = (a < b)"
| "num_less (Finite a) PosInf = True"
| "num_less (Finite a) NegInf = False"
| "num_less NegInf NegInf = False"
| "num_less NegInf _ = True"
| "num_less PosInf _ = False"

definition isNaN :: "jsnum \<Rightarrow> bool" where
  "isNaN n \<longleftrightarrow> n = NaN"

section \<open>The document: controls and the console\<close>

text \<open>
  What the engine reads and writes of one control. \<open>el_type\<close> is the \<open>type\<close>
  property (the state of an input's type attribute, \<open>textarea\<close> for a textarea);
  \<open>el_value\<close> is what the \<open>value\<close> property reads; \<open>el_maxLength\<close> is the DOM property
  (\<open>-1\<close> when no maximum is declared); \<open>el_min\<close> and \<open>el_max\<close> are the attribute
  strings (empty when absent); \<open>el_attached\<close> is \<open>document.contains(element)\<close>;
  \<open>el_width\<close> and \<open>el_height\<close> are the bounding rectangle; \<open>el_display\<close>,
  \<open>el_visibility\<close> and \<open>el_opacity\<close> are the computed style; \<open>el_focusable\<close> says
  that after \<open>element.focus()\<close> the control is the document's active element;
  \<open>el_filling\<close> is membership of the class \<open>autofill-filling\<close>.
\<close>

record element =
  el_type :: jsstring
  el_value :: jsstring
  el_maxLength :: int
  el_min :: jsstring
  el_max :: jsstring
  el_disabled :: bool
  el_readOnly :: bool
  el_attached :: bool
  el_width :: rat
  el_height :: rat
  el_display :: jsstring
  el_visibility :: jsstring
  el_opacity :: jsstring
  el_hasOffsetParent :: bool
  el_focusable :: bool
  el_filling :: bool

text \<open>The \<open>console.warn\<close> calls of the fill path, kept as structured entries.\<close>

datatype console_msg =
    WarnDisabled jsstring
  | WarnReadOnly jsstring
  | WarnNotVisible jsstring
  | WarnErrorFilling jsstring jsstring
  | WarnTruncated int
  | WarnTextareaTruncated int
  | WarnInvalidEmail jsstring
  | WarnInvalidNumeric jsstring
  | WarnBelowMinimum jsnum jsstring
  | WarnAboveMaximum jsnum jsstring

text \<open>
  What one fill strategy does: it returns a boolean or throws an \<open>Error\<close> (\<open>Inl\<close> its
  message), leaves the control in a new state and has written some console entries.
\<close>

type_synonym outcome = "(jsstring + bool) \<times> element \<times> console_msg list"

section \<open>Field descriptors and alias tables\<close>

text \<open>The object built by \<open>extractFieldMetadata\<close>; \<open>f_element\<close> addresses the control.\<close>

record field =
  f_id :: jsstring
  f_element :: nat
  f_type :: jsstring
  f_name :: jsstring
  f_htmlId :: jsstring
  f_placeholder :: jsstring
  f_label :: jsstring
  f_value :: jsstring
  f_required :: bool
  f_maxLength :: "int option"
  f_ariaLabel :: jsstring
  f_title :: jsstring
  f_dataName :: jsstring
  f_identifier :: jsstring

record mapping =
  aliases :: "jsstring list"
  priority :: int

text \<open>
  An alias table is a JavaScript object; the list gives its keys in the order of
  \<open>Object.keys\<close>, and \<open>map_of\<close> is property lookup. User data is the flat record of
  string values that the file parser produces, read the same way. A key is found only
  if the object has it as its own property: what \<open>Object.prototype\<close> would add to a
  lookup is outside the model.
\<close>

type_synonym mappings = "(jsstring \<times> mapping) list"
type_synonym userdata = "(jsstring \<times> jsstring) list"

section \<open>Host built-ins\<close>

text \<open>
  Built-ins of the JavaScript engine and of the DOM that the sources call and do not
  define. They are parameters of the model: \<open>String.prototype.toLowerCase\<close>, the
  global \<open>parseFloat\<close>, \<open>Number.prototype.toString\<close>, the setter of a control's
  \<open>value\<close> property (\<open>valueSanitization H e s\<close> is what \<open>e.value\<close> reads after
  \<open>e.value = s\<close>: the DOM runs the value sanitization algorithm of the control's type
  on the assigned text, so a single-line input drops line breaks and a number input
  keeps nothing of a text that is not a number), the five fill strategies that
  act on the structure of the document (\<open>fillSelectField\<close>, \<open>fillDivTextbox\<close>,
  \<open>fillCombobox\<close>, \<open>fillListbox\<close>, \<open>fillRadioGroup\<close>, chosen by the field type), and
  the metadata that \<open>extractFieldMetadata\<close> reads off a scanned control (\<open>None\<close> when
  it catches an error and returns \<open>null\<close>).
\<close>

record host =
  toLowerCase :: "jsstring \<Rightarrow> jsstring"
  parseFloat :: "jsstring \<Rightarrow> jsnum"
  numberToString :: "jsnum \<Rightarrow> jsstring"
  valueSanitization :: "element \<Rightarrow> jsstring \<Rightarrow> jsstring"
  widgetFill :: "jsstring \<Rightarrow> element \<Rightarrow> jsstring \<Rightarrow> outcome"
  extractFieldMetadata :: "nat \<Rightarrow> element \<Rightarrow> nat \<Rightarrow> field option"

section \<open>FieldMapper (src/content.js)\<close>

text \<open>The table of \<open>initializeDefaultMappings\<close>, in the order in which it is written.\<close>

definition defaultMappings :: mappings where
  "defaultMappings =
    [(js ''firstName'', \<lparr>aliases = map js [''firstname'', ''first_name'', ''fname'', ''given_name'',
        ''first-name'', ''first name'', ''name first''], priority = 10\<rparr>),
     (js ''lastName'', \<lparr>aliases = map js [''lastname'', ''last_name'', ''lname'', ''surname'',
        ''last-name'', ''last name'', ''family name''], priority = 10\<rparr>),
     (js ''email'', \<lparr>aliases = map js [''email'', ''email_address'', ''e_mail'', ''e-mail'', ''mail'',
        ''email address''], priority = 10\<rparr>),
     (js ''phone'', \<lparr>aliases = map js [''phone'', ''telephone'', ''tel'', ''phone_number'', ''mobile'',
        ''cell'', ''phone number''], priority = 9\<rparr>),
     (js ''street'', \<lparr>aliases = map js [''street'', ''address'', ''address1'', ''street_address'',
        ''addr1'', ''street address''], priority = 9\<rparr>),
     (js ''city'', \<lparr>aliases = map js [''city'', ''town'', ''locality''], priority = 9\<rparr>),
     (js ''state'', \<lparr>aliases = map js [''state'', ''province'', ''region''], priority = 9\<rparr>),
     (js ''zipCode'', \<lparr>aliases = map js [''zip'', ''zipcode'', ''zip_code'', ''postal'', ''postal_code'',
        ''postcode'', ''zip code''], priority = 9\<rparr>),
     (js ''country'', \<lparr>aliases = map js [''country'', ''nation''], priority = 8\<rparr>),
     (js ''fullName'', \<lparr>aliases = map js [''full name'', ''fullname'', ''full_name'', ''name'',
        ''your name'', ''complete name''], priority = 10\<rparr>),
     (js ''dateOfBirth'', \<lparr>aliases = map js [''date of birth'', ''birth date'', ''birthday'', ''dob'',
        ''birthdate'', ''date birth''], priority = 9\<rparr>),
     (js ''gender'', \<lparr>aliases = map js [''gender'', ''sex''], priority = 8\<rparr>),
     (js ''mobile'', \<lparr>aliases = map js [''mobile'', ''mobile_number'', ''mobile number'', ''cell'',
        ''cellular''], priority = 9\<rparr>),
     (js ''linkedIn'', \<lparr>aliases = map js [''linkedin'', ''linkedin_profile'', ''linkedin profile''],
        priority = 7\<rparr>)]"

text \<open>
  \<open>updateMappings\<close>: the stored format (key, alias list) becomes the internal one; the
  priority is the default table's for a key it has, 8 otherwise.
\<close>

definition updateMappings :: "host \<Rightarrow> (jsstring \<times> jsstring list) list \<Rightarrow> mappings" where
  "updateMappings H fieldMappings =
     map (\<lambda>(fieldType, als).
            (fieldType,
             \<lparr>aliases = map (toLowerCase H) als,
              priority = (case map_of defaultMappings fieldType of
                            Some d \<Rightarrow> priority d | None \<Rightarrow> 8)\<rparr>))
         fieldMappings"

text \<open>\<open>getActiveMappings\<close>: the custom table when it has a key, the default one otherwise.\<close>

definition getActiveMappings :: "mappings \<Rightarrow> mappings" where
  "getActiveMappings currentMappings =
     (if length currentMappings > 0 then currentMappings else defaultMappings)"

text \<open>
  \<open>text.split(/\s+/)\<close>: the pieces between maximal runs of whitespace; a string that
  starts (ends) with whitespace has an empty first (last) piece. \<open>cur\<close> is the piece
  being read, \<open>inws\<close> says that the last code unit read was whitespace.
\<close>

fun split_ws_from :: "bool \<Rightarrow> jsstring \<Rightarrow> jsstring \<Rightarrow> jsstring list" where
  "split_ws_from inws cur [] = [cur]"
| "split_ws_from inws cur (c # cs) =
     (if isWhiteSpace c then
        (if inws then split_ws_from True cur cs else cur # split_ws_from True [] cs)
      else split_ws_from False (cur @ [c]) cs)"

definition split_ws :: "jsstring \<Rightarrow> jsstring list" where
  "split_ws s = split_ws_from False [] s"

text \<open>
  \<^verbatim>\<open>
  hasWordMatch(text, searchTerm) {
    if (!text || !searchTerm) return false;
    const textWords = text.toLowerCase().split(/\s+/);
    const searchWords = searchTerm.toLowerCase().split(/\s+/);
    return searchWords.every(searchWord =>
      textWords.some(textWord =>
        textWord.includes(searchWord) || searchWord.includes(textWord)));
  }
  \<close>
\<close>

definition hasWordMatch :: "host \<Rightarrow> jsstring \<Rightarrow> jsstring \<Rightarrow> bool" where
  "hasWordMatch H txt searchTerm =
     (if txt = [] \<or> searchTerm = [] then False
      else
        let textWords = split_ws (toLowerCase H txt);
            searchWords = split_ws (toLowerCase H searchTerm)
        in list_all (\<lambda>searchWord.
             list_ex (\<lambda>textWord. js_includes textWord searchWord \<or> js_includes searchWord textWord)
               textWords) searchWords)"

text \<open>
  \<open>calculateSmartMatchScore\<close>: the \<open>switch\<close> on the data key; a key without a case,
  or whose keywords do not occur, scores 0.
\<close>

definition calculateSmartMatchScore :: "host \<Rightarrow> field \<Rightarrow> jsstring \<Rightarrow> mapping \<Rightarrow> int" where
  "calculateSmartMatchScore H fld dataKey mp =
     (let label = toLowerCase H (f_label fld);
          identifier = toLowerCase H (f_identifier fld);
          lab = (\<lambda>w. js_includes label (js w));
          idn = (\<lambda>w. js_includes identifier (js w))
      in
      if dataKey = js ''fullName'' then
        (if lab ''full name'' \<or> lab ''name'' \<or> idn ''full name'' \<or> idn ''name''
         then priority mp * 9 else 0)
      else if dataKey = js ''firstName'' then
        (if lab ''first name'' \<or> lab ''first'' \<or> idn ''first name'' \<or> idn ''first''
         then priority mp * 9 else 0)
      else if dataKey = js ''lastName'' then
        (if lab ''last name'' \<or> lab ''last'' \<or> idn ''last name'' \<or> idn ''last''
         then priority mp * 9 else 0)
      else if dataKey = js ''email'' then
        (if lab ''email'' \<or> idn ''email'' then priority mp * 9 else 0)
      else if dataKey = js ''phone'' then
        (if lab ''phone'' \<or> lab ''mobile'' \<or> lab ''number'' \<or> idn ''phone'' \<or> idn ''mobile''
         then priority mp * 9 else 0)
      else if dataKey = js ''dateOfBirth'' then
        (if lab ''birth'' \<or> lab ''date'' \<or> idn ''birth'' \<or> idn ''date''
         then priority mp * 9 else 0)
      else if dataKey = js ''gender'' then
        (if lab ''gender'' \<or> lab ''male'' \<or> lab ''female'' \<or> idn ''gender'' \<or> idn ''choose''
         then priority mp * 9 else 0)
      else if dataKey = js ''mobile'' then
        (if lab ''mobile'' \<or> lab ''cell'' \<or> idn ''mobile'' \<or> idn ''cell''
         then priority mp * 9 else 0)
      else if dataKey = js ''linkedIn'' then
        (if lab ''linkedin'' \<or> lab ''profile'' \<or> idn ''linkedin'' \<or> idn ''profile''
         then priority mp * 9 else 0)
      else 0)"

text \<open>
  The four tests of the alias loop of \<open>calculateMatchScore\<close>, on the lower-cased
  texts: equality with the name, id, label or ariaLabel; the alias inside the
  identifier; the alias inside the label or ariaLabel; the word match.
\<close>

definition isExactMatch :: "host \<Rightarrow> field \<Rightarrow> jsstring \<Rightarrow> bool" where
  "isExactMatch H fld alias \<longleftrightarrow>
     (let aliasLower = toLowerCase H alias in
        toLowerCase H (f_name fld) = aliasLower \<or> toLowerCase H (f_htmlId fld) = aliasLower
        \<or> toLowerCase H (f_label fld) = aliasLower \<or> toLowerCase H (f_ariaLabel fld) = aliasLower)"

definition inIdentifier :: "host \<Rightarrow> field \<Rightarrow> jsstring \<Rightarrow> bool" where
  "inIdentifier H fld alias \<longleftrightarrow>
     js_includes (toLowerCase H (f_identifier fld)) (toLowerCase H alias)"

definition inLabel :: "host \<Rightarrow> field \<Rightarrow> jsstring \<Rightarrow> bool" where
  "inLabel H fld alias \<longleftrightarrow>
     js_includes (toLowerCase H (f_label fld)) (toLowerCase H alias)
     \<or> js_includes (toLowerCase H (f_ariaLabel fld)) (toLowerCase H alias)"

definition wordMatch :: "host \<Rightarrow> field \<Rightarrow> jsstring \<Rightarrow> bool" where
  "wordMatch H fld alias \<longleftrightarrow>
     hasWordMatch H (toLowerCase H (f_label fld)) (toLowerCase H alias)
     \<or> hasWordMatch H (toLowerCase H (f_ariaLabel fld)) (toLowerCase H alias)"

text \<open>One round of \<open>mapping.aliases.forEach\<close>: the \<open>if\<close>/\<open>else if\<close> chain on one alias.\<close>

definition aliasRound :: "host \<Rightarrow> field \<Rightarrow> int \<Rightarrow> int \<Rightarrow> jsstring \<Rightarrow> int" where
  "aliasRound H fld p score alias =
     (if isExactMatch H fld alias then max score (p * 10)
      else if inIdentifier H fld alias then max score (p * 8)
      else if inLabel H fld alias then max score (p * 6)
      else if wordMatch H fld alias then max score (p * 7)
      else score)"

text \<open>
  \<open>calculateMatchScore(field, dataKey, mappings)\<close>. Both callers pass the table, so
  the default \<open>mappings || this.getActiveMappings()\<close> is never taken. A key without
  a mapping scores 0; otherwise the score starts at the smart score (when positive) and
  the alias loop raises it.
\<close>

definition calculateMatchScore :: "host \<Rightarrow> field \<Rightarrow> jsstring \<Rightarrow> mappings \<Rightarrow> int" where
  "calculateMatchScore H fld dataKey activeMappings =
     (case map_of activeMappings dataKey of
        None \<Rightarrow> 0
      | Some mp \<Rightarrow>
          let smartScore = calculateSmartMatchScore H fld dataKey mp;
              score = (if smartScore > 0 then max 0 smartScore else 0)
          in foldl (aliasRound H fld (priority mp)) score (aliases mp))"

record bestMatch =
  bm_key :: jsstring
  bm_value :: jsstring
  bm_confidence :: int

text \<open>\<open>userData[dataKey]\<close> as a condition: the property exists and is not the empty string.\<close>

definition truthy :: "userdata \<Rightarrow> jsstring \<Rightarrow> bool" where
  "truthy userData dataKey \<longleftrightarrow>
     (case map_of userData dataKey of None \<Rightarrow> False | Some v \<Rightarrow> v \<noteq> [])"

text \<open>
  One round of \<open>Object.keys(activeMappings).forEach\<close> in \<open>findBestMatch\<close>; the state is
  \<open>(bestMatch, highestScore)\<close>.
\<close>

definition bestRound ::
  "host \<Rightarrow> field \<Rightarrow> userdata \<Rightarrow> mappings \<Rightarrow> bestMatch option \<times> int \<Rightarrow> jsstring
     \<Rightarrow> bestMatch option \<times> int" where
  "bestRound H fld userData activeMappings st dataKey =
     (case map_of userData dataKey of
        None \<Rightarrow> st
      | Some v \<Rightarrow>
          if v = [] then st
          else
            let score = calculateMatchScore H fld dataKey activeMappings in
            if score > snd st
            then (Some \<lparr>bm_key = dataKey, bm_value = v, bm_confidence = score\<rparr>, score)
            else st)"

definition findBestMatch :: "host \<Rightarrow> field \<Rightarrow> userdata \<Rightarrow> mappings \<Rightarrow> bestMatch option" where
  "findBestMatch H fld userData activeMappings =
     fst (foldl (bestRound H fld userData activeMappings) (None, 0) (map fst activeMappings))"

record mappedField =
  m_field :: field
  m_dataField :: jsstring
  m_value :: jsstring
  m_confidence :: int

text \<open>
  \<open>mapFieldsToData\<close>: one candidate per field that has a best match, then
  \<open>sort((a, b) => b.confidence - a.confidence)\<close>, a stable sort by falling confidence.
\<close>

definition mapFieldsToData :: "host \<Rightarrow> field list \<Rightarrow> userdata \<Rightarrow> mappings \<Rightarrow> mappedField list" where
  "mapFieldsToData H detectedFields userData activeMappings =
     sort_key (\<lambda>m. - m_confidence m)
       (concat (map (\<lambda>fld.
          case findBestMatch H fld userData activeMappings of
            None \<Rightarrow> []
          | Some dataField \<Rightarrow>
              [\<lparr>m_field = fld, m_dataField = bm_key dataField, m_value = bm_value dataField,
                m_confidence = bm_confidence dataField\<rparr>])
          detectedFields))"

section \<open>AutoFiller (src/content.js)\<close>

text \<open>
  \<open>focusElement\<close> calls \<open>element.focus()\<close> and reports whether the control is then the
  active element (a \<open>div\<close> without that method is clicked and reported as focused; a
  failure inside is caught and reported as \<open>false\<close>). \<open>el_focusable\<close> is that report.
\<close>

definition focusElement :: "element \<Rightarrow> bool" where
  "focusElement e = el_focusable e"

text \<open>\<open>catch (error) { throw new Error(prefix + error.message) }\<close> around a strategy.\<close>

definition rethrow :: "jsstring \<Rightarrow> outcome \<Rightarrow> outcome" where
  "rethrow pre out =
     (case out of
        (Inl msg, e, c) \<Rightarrow> (Inl (pre @ msg), e, c)
      | (Inr b, e, c) \<Rightarrow> (Inr b, e, c))"

text \<open>The assignment \<open>element.value = s\<close>, through the setter of the control.\<close>

definition assignValue :: "host \<Rightarrow> element \<Rightarrow> jsstring \<Rightarrow> element" where
  "assignValue H e s = e\<lparr>el_value := valueSanitization H e s\<rparr>"

text \<open>
  \<^verbatim>\<open>
  fillTextField(element, value) {
    try {
      if (!this.focusElement(element)) throw new Error('Could not focus on text field');
      const stringValue = String(value).trim();
      if (element.maxLength > 0 && stringValue.length > element.maxLength) {
        console.warn(`Value truncated to fit maxLength constraint: ${element.maxLength}`);
        element.value = stringValue.substring(0, element.maxLength);
      } else {
        element.value = stringValue;
      }
      return true;
    } catch (error) { throw new Error(`Text field fill failed: ${error.message}`); }
  }
  \<close>
\<close>

definition fillTextField :: "host \<Rightarrow> element \<Rightarrow> jsstring \<Rightarrow> outcome" where
  "fillTextField H e v =
     rethrow (js ''Text field fill failed: '')
       (if \<not> focusElement e then (Inl (js ''Could not focus on text field''), e, [])
        else
          let stringValue = trim v in
          if el_maxLength e > 0 \<and> int (length stringValue) > el_maxLength e
          then (Inr True, assignValue H e (substring0 stringValue (el_maxLength e)),
                [WarnTruncated (el_maxLength e)])
          else (Inr True, assignValue H e stringValue, []))"

text \<open>\<open>fillTextareaField\<close>: the same steps with its own messages.\<close>

definition fillTextareaField :: "host \<Rightarrow> element \<Rightarrow> jsstring \<Rightarrow> outcome" where
  "fillTextareaField H e v =
     rethrow (js ''Textarea field fill failed: '')
       (if \<not> focusElement e then (Inl (js ''Could not focus on textarea field''), e, [])
        else
          let stringValue = trim v in
          if el_maxLength e > 0 \<and> int (length stringValue) > el_maxLength e
          then (Inr True, assignValue H e (substring0 stringValue (el_maxLength e)),
                [WarnTextareaTruncated (el_maxLength e)])
          else (Inr True, assignValue H e stringValue, []))"

text \<open>
  The test \<open>/^[^\s@]+@[^\s@]+\.[^\s@]+$/\<close>: a non-empty part before the first \<open>@\<close>,
  and after it a part with a dot that is neither its first nor its last code unit;
  no whitespace and no second \<open>@\<close> anywhere.
\<close>

definition emailRegexTest :: "jsstring \<Rightarrow> bool" where
  "emailRegexTest s =
     (let loc = takeWhile (\<lambda>c. c \<noteq> 0x40) s;
          rest = dropWhile (\<lambda>c. c \<noteq> 0x40) s
      in loc \<noteq> [] \<and> list_all (\<lambda>c. \<not> isWhiteSpace c) loc \<and> rest \<noteq> []
         \<and> list_all (\<lambda>c. c \<noteq> 0x40 \<and> \<not> isWhiteSpace c) (tl rest)
         \<and> 0x2E \<in> set (butlast (tl (tl rest))))"

text \<open>\<open>fillEmailField\<close>: trim, warn on a value that fails the test, fill all the same.\<close>

definition fillEmailField :: "host \<Rightarrow> element \<Rightarrow> jsstring \<Rightarrow> outcome" where
  "fillEmailField H e v =
     rethrow (js ''Email field fill failed: '')
       (let stringValue = trim v;
            warned = (if \<not> emailRegexTest stringValue then [WarnInvalidEmail stringValue] else [])
        in case fillTextField H e stringValue of (r, e', c) \<Rightarrow> (r, e', warned @ c))"

text \<open>The code units that \<open>replace(/[^\d+\-\s()]/g, '')\<close> keeps.\<close>

definition isPhoneChar :: "jschar \<Rightarrow> bool" where
  "isPhoneChar c \<longleftrightarrow>
     isDigit c \<or> c = 0x2B \<or> c = 0x2D \<or> isWhiteSpace c \<or> c = 0x28 \<or> c = 0x29"

text \<open>
  \<^verbatim>\<open>
  fillPhoneField(element, value) {
    try {
      let stringValue = String(value).trim();
      stringValue = stringValue.replace(/[^\d+\-\s()]/g, '');
      return this.fillTextField(element, stringValue);
    } catch (error) { throw new Error(`Phone field fill failed: ${error.message}`); }
  }
  \<close>
\<close>

definition fillPhoneField :: "host \<Rightarrow> element \<Rightarrow> jsstring \<Rightarrow> outcome" where
  "fillPhoneField H e v =
     rethrow (js ''Phone field fill failed: '')
       (fillTextField H e (filter isPhoneChar (trim v)))"

text \<open>
  \<^verbatim>\<open>
  fillNumberField(element, value) {
    try {
      const numericValue = parseFloat(value);
      if (isNaN(numericValue)) { console.warn(...); return false; }
      if (element.min && numericValue < parseFloat(element.min)) { console.warn(...); return false; }
      if (element.max && numericValue > parseFloat(element.max)) { console.warn(...); return false; }
      return this.fillTextField(element, numericValue.toString());
    } catch (error) { throw new Error(`Number field fill failed: ${error.message}`); }
  }
  \<close>
\<close>

definition fillNumberField :: "host \<Rightarrow> element \<Rightarrow> jsstring \<Rightarrow> outcome" where
  "fillNumberField H e v =
     rethrow (js ''Number field fill failed: '')
       (let numericValue = parseFloat H v in
        if isNaN numericValue then (Inr False, e, [WarnInvalidNumeric v])
        else if el_min e \<noteq> [] \<and> num_less numericValue (parseFloat H (el_min e))
        then (Inr False, e, [WarnBelowMinimum numericValue (el_min e)])
        else if el_max e \<noteq> [] \<and> num_less (parseFloat H (el_max e)) numericValue
        then (Inr False, e, [WarnAboveMaximum numericValue (el_max e)])
        else fillTextField H e (numberToString H numericValue))"

text \<open>
  \<^verbatim>\<open>
  fillUrlField(element, value) {
    try {
      let stringValue = String(value).trim();
      if (stringValue && !stringValue.match(/^https?:\/\//)) {
        stringValue = 'https://' + stringValue;
      }
      return this.fillTextField(element, stringValue);
    } catch (error) { throw new Error(`URL field fill failed: ${error.message}`); }
  }
  \<close>
\<close>

definition hasScheme :: "jsstring \<Rightarrow> bool" where
  "hasScheme s \<longleftrightarrow> prefix (js ''http://'') s \<or> prefix (js ''https://'') s"

definition fillUrlField :: "host \<Rightarrow> element \<Rightarrow> jsstring \<Rightarrow> outcome" where
  "fillUrlField H e v =
     rethrow (js ''URL field fill failed: '')
       (let stringValue = trim v;
            stringValue' = (if stringValue \<noteq> [] \<and> \<not> hasScheme stringValue
                            then js ''https://'' @ stringValue else stringValue)
        in fillTextField H e stringValue')"

text \<open>
  \<open>setFieldValue\<close>: the \<open>switch\<close> on the field type, and its \<open>catch\<close> that wraps the
  message. The five structural strategies are the host's.
\<close>

definition setFieldValue :: "host \<Rightarrow> element \<Rightarrow> jsstring \<Rightarrow> jsstring \<Rightarrow> outcome" where
  "setFieldValue H e v fieldType =
     rethrow (js ''Failed to set '' @ fieldType @ js '' field value: '')
       (if fieldType = js ''select'' then widgetFill H fieldType e v
        else if fieldType = js ''textarea'' then fillTextareaField H e v
        else if fieldType = js ''email'' then fillEmailField H e v
        else if fieldType = js ''tel'' \<or> fieldType = js ''phone'' then fillPhoneField H e v
        else if fieldType = js ''number'' then fillNumberField H e v
        else if fieldType = js ''url'' then fillUrlField H e v
        else if fieldType = js ''textbox'' \<or> fieldType = js ''combobox''
                \<or> fieldType = js ''listbox'' \<or> fieldType = js ''radiogroup''
        then widgetFill H fieldType e v
        else fillTextField H e v)"

text \<open>
  \<open>setFieldValueSafely\<close> races \<open>setFieldValue\<close> against a 3 s timer. Every strategy
  returns or throws before the race is set up, so the timer never wins; what remains is
  the \<open>catch\<close>, which replaces the message \<open>Field operation timeout\<close>.
\<close>

definition setFieldValueSafely :: "host \<Rightarrow> element \<Rightarrow> jsstring \<Rightarrow> jsstring \<Rightarrow> outcome" where
  "setFieldValueSafely H e v fieldType =
     (case setFieldValue H e v fieldType of
        (Inl msg, e', c) \<Rightarrow>
          if msg = js ''Field operation timeout''
          then (Inl (js ''Field took too long to respond''), e', c)
          else (Inl msg, e', c)
      | (Inr b, e', c) \<Rightarrow> (Inr b, e', c))"

text \<open>
  The page: its controls by address (an address past the end is a \<open>null\<close> element
  reference), the addresses that the detector's \<open>querySelectorAll\<close> returns, in document
  order, and the console.
\<close>

record page =
  p_elements :: "element list"
  p_scanned :: "nat list"
  p_console :: "console_msg list"

definition storeElement :: "page \<Rightarrow> nat \<Rightarrow> element \<Rightarrow> console_msg list \<Rightarrow> page" where
  "storeElement pg r e c =
     pg\<lparr>p_elements := (p_elements pg)[r := e], p_console := p_console pg @ c\<rparr>"

text \<open>
  \<open>fillSingleField\<close>. The value of a candidate is a string of the data record, so the
  test for \<open>null\<close> or \<open>undefined\<close> never fires. Dispatching the \<open>input\<close> and \<open>change\<close>
  events (inside its own \<open>try\<close>) runs the page's handlers, which are not part of this
  model. The class \<open>autofill-filling\<close> is set before the value is written and removed
  at once when the write throws; otherwise a timer removes it later.
\<close>

definition fillSingleField :: "host \<Rightarrow> mappedField \<Rightarrow> page \<Rightarrow> (jsstring + bool) \<times> page" where
  "fillSingleField H m pg =
     (let fld = m_field m; r = f_element fld in
      if r \<ge> length (p_elements pg) then (Inl (js ''Field element is null or undefined''), pg)
      else
        let e = p_elements pg ! r in
        if \<not> el_attached e then (Inl (js ''Field element no longer exists in the page''), pg)
        else if el_disabled e
        then (Inr False, pg\<lparr>p_console := p_console pg @ [WarnDisabled (f_identifier fld)]\<rparr>)
        else if el_readOnly e
        then (Inr False, pg\<lparr>p_console := p_console pg @ [WarnReadOnly (f_identifier fld)]\<rparr>)
        else if el_width e = 0 \<or> el_height e = 0
        then (Inr False, pg\<lparr>p_console := p_console pg @ [WarnNotVisible (f_identifier fld)]\<rparr>)
        else
          (case setFieldValueSafely H (e\<lparr>el_filling := True\<rparr>) (m_value m) (f_type fld) of
             (Inr success, e', c) \<Rightarrow> (Inr success, storeElement pg r e' c)
           | (Inl msg, e', c) \<Rightarrow>
               (Inl (js ''Failed to fill field '' @ f_identifier fld @ js '': '' @ msg),
                storeElement pg r (e'\<lparr>el_filling := False\<rparr>)
                  (c @ [WarnErrorFilling (f_identifier fld) msg]))))"

section \<open>FormFieldDetector and ContentScriptController (src/content.js)\<close>

definition isFieldVisible :: "element \<Rightarrow> bool" where
  "isFieldVisible e \<longleftrightarrow>
     el_display e \<noteq> js ''none'' \<and> el_visibility e \<noteq> js ''hidden'' \<and> el_opacity e \<noteq> js ''0''
     \<and> el_width e > 0 \<and> el_height e > 0 \<and> el_hasOffsetParent e"

text \<open>
  \<open>detectFields(true)\<close>, as \<open>performAutoFill\<close> calls it: the cache is cleared and every
  scanned control that is visible, enabled and writable contributes the descriptor
  that \<open>extractFieldMetadata\<close> builds for it, if it builds one.
\<close>

definition detectOne :: "host \<Rightarrow> page \<Rightarrow> nat \<times> nat \<Rightarrow> field list" where
  "detectOne H pg ir =
     (let index = fst ir; r = snd ir in
      if r \<ge> length (p_elements pg) then []
      else
        let e = p_elements pg ! r in
        if isFieldVisible e \<and> \<not> el_disabled e \<and> \<not> el_readOnly e then
          (case extractFieldMetadata H r e index of
             Some fieldData \<Rightarrow> [fieldData\<lparr>f_element := r\<rparr>]
           | None \<Rightarrow> [])
        else [])"

definition detectFields :: "host \<Rightarrow> page \<Rightarrow> field list" where
  "detectFields H pg = concat (map (detectOne H pg) (enumerate 0 (p_scanned pg)))"

record fillResults =
  fieldsDetected :: nat
  fieldsFilled :: nat
  fieldsSkipped :: nat
  errors :: "(jsstring \<times> jsstring) list"
  warnings :: "jsstring list"

text \<open>
  What the promise of \<open>fillSingleField\<close> has done when the race with the 5 s timer of
  \<open>performAutoFill\<close> is decided: it has resolved, it has rejected, or it is still
  pending and the timer rejects with \<open>Field fill timeout\<close>.
\<close>

datatype attempt = Resolves bool | Rejects jsstring | Pending

type_synonym filler = "mappedField \<Rightarrow> page \<Rightarrow> attempt \<times> page"

definition raceFieldTimeout :: "attempt \<Rightarrow> jsstring + bool" where
  "raceFieldTimeout a =
     (case a of
        Resolves b \<Rightarrow> Inr b
      | Rejects msg \<Rightarrow> Inl msg
      | Pending \<Rightarrow> Inl (js ''Field fill timeout''))"

text \<open>
  The filler of the program: \<open>autoFiller.fillSingleField\<close>. Its promise is settled as
  soon as the call returns, so the race never sees it pending.
\<close>

definition autoFiller :: "host \<Rightarrow> filler" where
  "autoFiller H m pg =
     (case fillSingleField H m pg of
        (Inr b, pg') \<Rightarrow> (Resolves b, pg')
      | (Inl msg, pg') \<Rightarrow> (Rejects msg, pg'))"

record runState =
  rs_page :: page
  rs_results :: fillResults

definition documentContains :: "page \<Rightarrow> nat \<Rightarrow> bool" where
  "documentContains pg r \<longleftrightarrow> r < length (p_elements pg) \<and> el_attached (p_elements pg ! r)"

text \<open>
  The body of the \<open>for\<close> loop of \<open>performAutoFill\<close> after the check of the budget:
  the \<open>try\<close> block with its \<open>continue\<close>, and the \<open>catch\<close> block. The calls that
  draw the progress overlay are left out.
  \<^verbatim>\<open>
  try {
    if (!document.contains(mappedField.field.element)) {
      results.errors.push({ field: mappedField.field.identifier,
                            error: 'Field no longer exists in page' });
      results.fieldsSkipped++;
      continue;
    }
    const success = await Promise.race([autoFiller.fillSingleField(mappedField), <5 s timer>]);
    if (success) { results.fieldsFilled++; }
    else {
      results.fieldsSkipped++;
      results.warnings.push(`Could not fill field: ${mappedField.field.identifier}`);
    }
    await new Promise(resolve => setTimeout(resolve, 100));
  } catch (error) {
    console.warn(...);
    results.errors.push({ field: mappedField.field.identifier,
      error: error.message.includes('timeout') ? 'Field fill timeout' : error.message });
    results.fieldsSkipped++;
  }
  \<close>
\<close>

definition recordedError :: "jsstring \<Rightarrow> jsstring" where
  "recordedError msg = (if js_includes msg (js ''timeout'') then js ''Field fill timeout'' else msg)"

definition attemptField :: "filler \<Rightarrow> mappedField \<Rightarrow> runState \<Rightarrow> runState" where
  "attemptField F m st =
     (let ident = f_identifier (m_field m); pg = rs_page st; res = rs_results st in
      if \<not> documentContains pg (f_element (m_field m)) then
        st\<lparr>rs_results := res\<lparr>errors := errors res @ [(ident, js ''Field no longer exists in page'')],
                                fieldsSkipped := fieldsSkipped res + 1\<rparr>\<rparr>
      else
        (case F m pg of
           (a, pg') \<Rightarrow>
             (case raceFieldTimeout a of
                Inr success \<Rightarrow>
                  if success
                  then \<lparr>rs_page = pg', rs_results = res\<lparr>fieldsFilled := fieldsFilled res + 1\<rparr>\<rparr>
                  else \<lparr>rs_page = pg',
                        rs_results = res\<lparr>fieldsSkipped := fieldsSkipped res + 1,
                          warnings := warnings res @ [js ''Could not fill field: '' @ ident]\<rparr>\<rparr>
              | Inl msg \<Rightarrow>
                  \<lparr>rs_page = pg'\<lparr>p_console := p_console pg' @ [WarnErrorFilling ident msg]\<rparr>,
                   rs_results = res\<lparr>errors := errors res @ [(ident, recordedError msg)],
                     fieldsSkipped := fieldsSkipped res + 1\<rparr>\<rparr>)))"

definition fillTimeout :: int where
  "fillTimeout = 30000"

definition timedOutWarning :: jsstring where
  "timedOutWarning = js ''Auto-fill timed out - some fields may not have been filled''"

text \<open>
  The loop. \<open>now 0\<close> is the reading of \<open>Date.now()\<close> that gives \<open>startTime\<close>, and
  \<open>now (Suc i)\<close> is the reading at the head of round \<open>i\<close>.
  \<^verbatim>\<open>
  for (let i = 0; i < mappedFields.length; i++) {
    if (Date.now() - startTime > fillTimeout) {
      results.warnings.push('Auto-fill timed out - some fields may not have been filled');
      break;
    }
    ...
  }
  \<close>
\<close>

fun fillLoop :: "filler \<Rightarrow> (nat \<Rightarrow> int) \<Rightarrow> nat \<Rightarrow> mappedField list \<Rightarrow> runState \<Rightarrow> runState" where
  "fillLoop F now i [] st = st"
| "fillLoop F now i (m # ms) st =
     (if now (Suc i) - now 0 > fillTimeout
      then st\<lparr>rs_results := (rs_results st)\<lparr>warnings := warnings (rs_results st) @ [timedOutWarning]\<rparr>\<rparr>
      else fillLoop F now (Suc i) ms (attemptField F m st))"

text \<open>
  \<open>performAutoFill\<close>, with the filler and the clock as parameters. It throws (\<open>Inl\<close>)
  when no field is detected or no field is matched, before any result object exists.
  Detection and mapping do not throw in this model, so the two \<open>catch\<close> blocks that
  would wrap their errors are not reached.
\<close>

definition performAutoFillWith ::
  "host \<Rightarrow> filler \<Rightarrow> (nat \<Rightarrow> int) \<Rightarrow> mappings \<Rightarrow> userdata \<Rightarrow> page
     \<Rightarrow> (jsstring + fillResults) \<times> page" where
  "performAutoFillWith H F now currentMappings userData pg =
     (let flds = detectFields H pg in
      if length flds = 0 then (Inl (js ''No fillable fields detected on this page''), pg)
      else
        let mappedFields = mapFieldsToData H flds userData (getActiveMappings currentMappings) in
        if length mappedFields = 0
        then (Inl (js ''No matching fields found for available data. Try customizing field mappings in settings.''), pg)
        else
          let st = fillLoop F now 0 mappedFields
                     \<lparr>rs_page = pg,
                      rs_results = \<lparr>fieldsDetected = length flds, fieldsFilled = 0,
                        fieldsSkipped = 0, errors = [], warnings = []\<rparr>\<rparr>
          in (Inr (rs_results st), rs_page st))"

definition performAutoFill ::
  "host \<Rightarrow> (nat \<Rightarrow> int) \<Rightarrow> mappings \<Rightarrow> userdata \<Rightarrow> page \<Rightarrow> (jsstring + fillResults) \<times> page" where
  "performAutoFill H = performAutoFillWith H (autoFiller H)"

text \<open>\<open>performAutoFillWithErrorHandling\<close>: three kinds of message are replaced.\<close>

definition performAutoFillWithErrorHandling ::
  "host \<Rightarrow> (nat \<Rightarrow> int) \<Rightarrow> mappings \<Rightarrow> userdata \<Rightarrow> page \<Rightarrow> (jsstring + fillResults) \<times> page" where
  "performAutoFillWithErrorHandling H now currentMappings userData pg =
     (case performAutoFill H now currentMappings userData pg of
        (Inl msg, pg') \<Rightarrow>
          if js_includes msg (js ''DOM'')
          then (Inl (js ''Page structure changed during auto-fill. Please refresh and try again.''), pg')
          else if js_includes msg (js ''timeout'')
          then (Inl (js ''Auto-fill process timed out. The page may be slow to respond.''), pg')
          else if js_includes msg (js ''permission'')
          then (Inl (js ''Cannot access form fields due to page restrictions.''), pg')
          else (Inl msg, pg')
      | (Inr res, pg') \<Rightarrow> (Inr res, pg'))"

text \<open>
  The request of \<open>handlePerformAutoFill\<close> (its \<open>settings\<close> only tune the animation) and
  the object passed to \<open>sendResponse\<close>; a property that the object does not have is
  \<open>None\<close>.
\<close>

record request =
  rq_userData :: "userdata option"
  rq_fieldMappings :: "(jsstring \<times> jsstring list) list option"

record response =
  rsp_success :: bool
  rsp_error :: "jsstring option"
  rsp_errorType :: "jsstring option"
  rsp_fieldsCount :: "nat option"
  rsp_results :: "fillResults option"

text \<open>The \<open>catch\<close> block of \<open>handlePerformAutoFill\<close>.\<close>

definition failureResponse :: "jsstring \<Rightarrow> response" where
  "failureResponse msg =
     (if js_includes msg (js ''loading'')
      then \<lparr>rsp_success = False,
            rsp_error = Some (js ''Page is still loading. Please wait and try again.''),
            rsp_errorType = Some (js ''PAGE_NOT_READY''), rsp_fieldsCount = None, rsp_results = None\<rparr>
      else if js_includes msg (js ''No fillable fields'')
      then \<lparr>rsp_success = False,
            rsp_error = Some (js ''No fillable form fields found on this page.''),
            rsp_errorType = Some (js ''NO_FIELDS''), rsp_fieldsCount = None, rsp_results = None\<rparr>
      else if js_includes msg (js ''No matching fields'')
      then \<lparr>rsp_success = False,
            rsp_error = Some (js ''No form fields match your data. Try customizing field mappings.''),
            rsp_errorType = Some (js ''NO_MATCHES''), rsp_fieldsCount = None, rsp_results = None\<rparr>
      else \<lparr>rsp_success = False, rsp_error = Some msg,
            rsp_errorType = Some (js ''AUTOFILL_ERROR''), rsp_fieldsCount = None, rsp_results = None\<rparr>)"

text \<open>
  \<open>handlePerformAutoFill\<close>: the request is validated, custom mappings replace the
  mapper's table, the run is made, and the response is sent. \<open>readyState\<close> is
  \<open>document.readyState\<close>; \<open>currentMappings\<close> is the mapper's table before the call.
  The calls that clear highlights and show the summary or a notification are left out.
\<close>

definition handlePerformAutoFill ::
  "host \<Rightarrow> (nat \<Rightarrow> int) \<Rightarrow> jsstring \<Rightarrow> mappings \<Rightarrow> request \<Rightarrow> page \<Rightarrow> response \<times> page" where
  "handlePerformAutoFill H now readyState currentMappings rq pg =
     (case rq_userData rq of
        None \<Rightarrow> (failureResponse (js ''No valid user data provided''), pg)
      | Some userData \<Rightarrow>
          if length userData = 0 then (failureResponse (js ''User data is empty''), pg)
          else if readyState \<noteq> js ''complete''
          then (failureResponse (js ''Page is still loading. Please wait and try again.''), pg)
          else
            let table = (case rq_fieldMappings rq of
                           Some fieldMappings \<Rightarrow> updateMappings H fieldMappings
                         | None \<Rightarrow> currentMappings)
            in (case performAutoFillWithErrorHandling H now table userData pg of
                  (Inl msg, pg') \<Rightarrow> (failureResponse msg, pg')
                | (Inr res, pg') \<Rightarrow>
                    (\<lparr>rsp_success = True, rsp_error = None, rsp_errorType = None,
                      rsp_fieldsCount = Some (fieldsFilled res), rsp_results = Some res\<rparr>, pg')))"

section \<open>Value sanitization of the HTML standard\<close>

text \<open>
  What the setter of \<open>value\<close> does in a browser, by the control's type: \<open>text\<close>,
  \<open>search\<close>, \<open>tel\<close> and \<open>password\<close> strip line breaks (LF and CR); \<open>url\<close> and
  \<open>email\<close> strip line breaks and then leading and trailing ASCII whitespace (tab, LF,
  FF, CR, space); \<open>number\<close> keeps a valid floating-point number (an optional \<open>-\<close>,
  digits with an optional fraction or a fraction alone, an optional exponent) and
  empties every other text; a \<open>textarea\<close> reads back CR LF and a lone CR as LF. An
  email input with the \<open>multiple\<close> attribute and the types with dates, times, colours
  and ranges are not covered (their text is kept as it is here); no example uses them.
\<close>

definition stripNewlines :: "jsstring \<Rightarrow> jsstring" where
  "stripNewlines s = filter (\<lambda>c. c \<noteq> 0xA \<and> c \<noteq> 0xD) s"

definition isAsciiWhitespace :: "jschar \<Rightarrow> bool" where
  "isAsciiWhitespace c \<longleftrightarrow> c = 0x9 \<or> c = 0xA \<or> c = 0xC \<or> c = 0xD \<or> c = 0x20"

definition stripAsciiWhitespace :: "jsstring \<Rightarrow> jsstring" where
  "stripAsciiWhitespace s =
     rev (dropWhile isAsciiWhitespace (rev (dropWhile isAsciiWhitespace s)))"

definition validFloatingPointNumber :: "jsstring \<Rightarrow> bool" where
  "validFloatingPointNumber s =
     (let u = (if s \<noteq> [] \<and> hd s = 0x2D then tl s else s);
          ip = takeWhile isDigit u;
          r1 = dropWhile isDigit u;
          dot = (r1 \<noteq> [] \<and> hd r1 = 0x2E);
          fp = (if dot then takeWhile isDigit (tl r1) else []);
          r2 = (if dot then dropWhile isDigit (tl r1) else r1);
          mantissa = (if dot then fp \<noteq> [] else ip \<noteq> []);
          exponent =
            (case r2 of
               [] \<Rightarrow> True
             | c # r3 \<Rightarrow>
                 (c = 0x65 \<or> c = 0x45)
                 \<and> (let r4 = (if r3 \<noteq> [] \<and> (hd r3 = 0x2D \<or> hd r3 = 0x2B) then tl r3 else r3)
                    in r4 \<noteq> [] \<and> list_all isDigit r4))
      in mantissa \<and> exponent)"

fun normalizeNewlines :: "jsstring \<Rightarrow> jsstring" where
  "normalizeNewlines [] = []"
| "normalizeNewlines (c # s) =
     (if c = 0xD then
        (case s of
           [] \<Rightarrow> [0xA]
         | d # s' \<Rightarrow> if d = 0xA then 0xA # normalizeNewlines s' else 0xA # normalizeNewlines s)
      else c # normalizeNewlines s)"

definition htmlValueSanitization :: "element \<Rightarrow> jsstring \<Rightarrow> jsstring" where
  "htmlValueSanitization e s =
     (if el_type e \<in> set (map js [''text'', ''search'', ''tel'', ''password''])
      then stripNewlines s
      else if el_type e \<in> set (map js [''url'', ''email''])
      then stripAsciiWhitespace (stripNewlines s)
      else if el_type e = js ''number''
      then (if validFloatingPointNumber s then s else [])
      else if el_type e = js ''textarea'' then normalizeNewlines s
      else s)"

section \<open>A concrete host for evaluation\<close>

text \<open>
  \<open>ascii_host\<close> instantiates the built-ins for closed examples. Its \<open>toLowerCase\<close>
  maps \<open>A\<close>..\<open>Z\<close> to \<open>a\<close>..\<open>z\<close> and leaves every other code unit alone. Its
  \<open>parseFloat\<close> follows ECMAScript's \<open>StrDecimalLiteral\<close> (leading whitespace, a sign,
  \<open>Infinity\<close> or decimal digits with an optional fraction and exponent, the longest
  such prefix) and returns the exact decimal value; its \<open>toString\<close> prints an integer
  in decimal and a fraction with up to 20 digits. Rounding to binary64 and the exponent
  notation of very large or small values are not modelled, so it agrees with the engine
  on short decimal literals, which is all the examples use. Its document has no widget
  that offers an option (the structural strategies return \<open>false\<close>) and no scanned
  control yields metadata. Its value setter is \<open>htmlValueSanitization\<close>. The theorems
  below hold for every host.
\<close>

definition asciiLower :: "jschar \<Rightarrow> jschar" where
  "asciiLower c = (if 0x41 \<le> c \<and> c \<le> 0x5A then c + 0x20 else c)"

definition digitsValue :: "jsstring \<Rightarrow> int" where
  "digitsValue ds = foldl (\<lambda>a c. 10 * a + (uint c - 48)) 0 ds"

definition scale10 :: "rat \<Rightarrow> int \<Rightarrow> rat" where
  "scale10 r e = (if 0 \<le> e then r * 10 ^ nat e else r / 10 ^ nat (- e))"

definition exponentPart :: "jsstring \<Rightarrow> int" where
  "exponentPart r =
     (case r of
        [] \<Rightarrow> 0
      | c # r1 \<Rightarrow>
          if c = 0x65 \<or> c = 0x45 then
            (case r1 of
               [] \<Rightarrow> 0
             | d # r2 \<Rightarrow>
                 if d = 0x2D then
                   (if takeWhile isDigit r2 = [] then 0 else - digitsValue (takeWhile isDigit r2))
                 else if d = 0x2B then digitsValue (takeWhile isDigit r2)
                 else digitsValue (takeWhile isDigit r1))
          else 0)"

definition decimalLiteral :: "bool \<Rightarrow> jsstring \<Rightarrow> jsnum" where
  "decimalLiteral neg u =
     (if prefix (js ''Infinity'') u then (if neg then NegInf else PosInf)
      else
        let ip = takeWhile isDigit u;
            r1 = dropWhile isDigit u;
            dot = (r1 \<noteq> [] \<and> hd r1 = 0x2E);
            fp = (if dot then takeWhile isDigit (tl r1) else []);
            r2 = (if dot then dropWhile isDigit (tl r1) else r1)
        in if ip = [] \<and> fp = [] then NaN
           else
             let mant = scale10 (of_int (digitsValue (ip @ fp))) (exponentPart r2 - int (length fp))
             in Finite (if neg then - mant else mant))"

definition ascii_parseFloat :: "jsstring \<Rightarrow> jsnum" where
  "ascii_parseFloat s =
     (case trimStart s of
        [] \<Rightarrow> NaN
      | c # r \<Rightarrow>
          if c = 0x2D then decimalLiteral True r
          else if c = 0x2B then decimalLiteral False r
          else decimalLiteral False (c # r))"

fun natDigits :: "nat \<Rightarrow> nat \<Rightarrow> jsstring" where
  "natDigits 0 n = []"
| "natDigits (Suc fuel) n =
     (if n < 10 then [of_nat (48 + n)]
      else natDigits fuel (n div 10) @ [of_nat (48 + n mod 10)])"

fun fractionDigits :: "nat \<Rightarrow> rat \<Rightarrow> jsstring" where
  "fractionDigits 0 r = []"
| "fractionDigits (Suc fuel) r =
     (if r = 0 then []
      else of_nat (48 + nat \<lfloor>r * 10\<rfloor>) # fractionDigits fuel (r * 10 - of_int \<lfloor>r * 10\<rfloor>))"

definition ascii_numberToString :: "jsnum \<Rightarrow> jsstring" where
  "ascii_numberToString n =
     (case n of
        NaN \<Rightarrow> js ''NaN''
      | PosInf \<Rightarrow> js ''Infinity''
      | NegInf \<Rightarrow> js ''-Infinity''
      | Finite r \<Rightarrow>
          let a = \<bar>r\<bar>;
              whole = nat \<lfloor>a\<rfloor>;
              frac = a - of_nat whole
          in (if r < 0 then js ''-'' else []) @ natDigits 400 whole
             @ (if frac = 0 then [] else js ''.'' @ fractionDigits 20 frac))"

definition ascii_host :: host where
  "ascii_host =
     \<lparr>toLowerCase = map asciiLower,
      parseFloat = ascii_parseFloat,
      numberToString = ascii_numberToString,
      valueSanitization = htmlValueSanitization,
      widgetFill = (\<lambda>kind e v. (Inr False, e, [])),
      extractFieldMetadata = (\<lambda>r e i. None)\<rparr>"

section \<open>Notions used in the statements\<close>

text \<open>What a text-like fill stores of an already trimmed text: all of it, or its first \<open>maxLength\<close> code units.\<close>

definition fitMaxLength :: "element \<Rightarrow> jsstring \<Rightarrow> jsstring" where
  "fitMaxLength e s =
     (if el_maxLength e > 0 \<and> int (length s) > el_maxLength e
      then take (nat (el_maxLength e)) s else s)"

text \<open>The text that \<open>fillUrlField\<close> hands to the text-like fill, for a trimmed value.\<close>

definition withScheme :: "jsstring \<Rightarrow> jsstring" where
  "withScheme t = (if t \<noteq> [] \<and> \<not> hasScheme t then js ''https://'' @ t else t)"

text \<open>The field types that reach the \<open>default\<close> branch of the \<open>switch\<close> in \<open>setFieldValue\<close>.\<close>

definition isTextLikeType :: "jsstring \<Rightarrow> bool" where
  "isTextLikeType ty \<longleftrightarrow>
     ty \<notin> set (map js [''select'', ''textarea'', ''email'', ''tel'', ''phone'', ''number'', ''url'',
                         ''textbox'', ''combobox'', ''listbox'', ''radiogroup''])"

text \<open>The three tests of \<open>fillNumberField\<close> that end in \<open>return false\<close>.\<close>

definition numberRejected :: "host \<Rightarrow> element \<Rightarrow> jsstring \<Rightarrow> bool" where
  "numberRejected H e v \<longleftrightarrow>
     isNaN (parseFloat H v)
     \<or> (el_min e \<noteq> [] \<and> num_less (parseFloat H v) (parseFloat H (el_min e)))
     \<or> (el_max e \<noteq> [] \<and> num_less (parseFloat H (el_max e)) (parseFloat H v))"

text \<open>
  The text that the phone strategy would write according to the specification's
  sentence, for comparison with the code: the trimmed value without every character
  other than digits, a leading \<open>+\<close>, hyphens, parentheses and spaces.
\<close>

definition claimedPhoneText :: "jsstring \<Rightarrow> jsstring" where
  "claimedPhoneText v =
     (let t = trim v;
          keep = (\<lambda>c. isDigit c \<or> c = 0x2D \<or> c = 0x28 \<or> c = 0x29 \<or> c = 0x20)
      in case t of
           [] \<Rightarrow> []
         | c # cs \<Rightarrow> (if c = 0x2B then c # filter keep cs else filter keep t))"

text \<open>
  The number of rounds of the fill loop, started at round \<open>i\<close> with \<open>n\<close> candidates
  left, that begin within the budget: the rounds before the first one whose clock
  reading exceeds it.
\<close>

definition attemptedCount :: "(nat \<Rightarrow> int) \<Rightarrow> nat \<Rightarrow> nat \<Rightarrow> nat" where
  "attemptedCount now i n =
     length (takeWhile (\<lambda>j. now (Suc j) - now 0 \<le> fillTimeout) [i ..< i + n])"

text \<open>The effect of the \<open>if\<close> at the head of a round on an exhausted budget.\<close>

definition markTimedOut :: "runState \<Rightarrow> runState" where
  "markTimedOut st =
     st\<lparr>rs_results := (rs_results st)\<lparr>warnings := warnings (rs_results st) @ [timedOutWarning]\<rparr>\<rparr>"

section \<open>Example inputs\<close>

text \<open>
  The descriptor of an input that carries only a \<open>name\<close> attribute and has no label:
  its id and its identifier come from the name, and \<open>maxLength\<close> is the \<open>-1\<close> of a
  control that declares none.
\<close>

definition namedField :: "nat \<Rightarrow> string \<Rightarrow> string \<Rightarrow> field" where
  "namedField r ty nm =
     \<lparr>f_id = js nm, f_element = r, f_type = js ty, f_name = js nm,
      f_htmlId = [], f_placeholder = [], f_label = [], f_value = [], f_required = False,
      f_maxLength = Some (- 1), f_ariaLabel = [], f_title = [], f_dataName = [],
      f_identifier = toLowerCase ascii_host (js nm)\<rparr>"

definition emailField :: field where
  "emailField = namedField 0 ''text'' ''Email''"

definition homeCityField :: field where
  "homeCityField = namedField 1 ''text'' ''home_city''"

definition nameField :: field where
  "nameField = namedField 2 ''text'' ''name''"

definition mobileField :: field where
  "mobileField = namedField 3 ''tel'' ''mobile''"

text \<open>Entries of the default table, and two custom tables made of them.\<close>

definition emailMapping :: mapping where
  "emailMapping = \<lparr>aliases = map js [''email'', ''email_address'', ''e_mail'', ''e-mail'', ''mail'',
        ''email address''], priority = 10\<rparr>"

definition cityMapping :: mapping where
  "cityMapping = \<lparr>aliases = map js [''city'', ''town'', ''locality''], priority = 9\<rparr>"

definition fullNameMapping :: mapping where
  "fullNameMapping = \<lparr>aliases = map js [''full name'', ''fullname'', ''full_name'', ''name'',
        ''your name'', ''complete name''], priority = 10\<rparr>"

definition phoneMapping :: mapping where
  "phoneMapping = \<lparr>aliases = map js [''phone'', ''telephone'', ''tel'', ''phone_number'', ''mobile'',
        ''cell'', ''phone number''], priority = 9\<rparr>"

definition mobileMapping :: mapping where
  "mobileMapping = \<lparr>aliases = map js [''mobile'', ''mobile_number'', ''mobile number'', ''cell'',
        ''cellular''], priority = 9\<rparr>"

definition contactTable :: mappings where
  "contactTable = [(js ''email'', emailMapping), (js ''fullName'', fullNameMapping)]"

definition phoneTable :: mappings where
  "phoneTable = [(js ''phone'', phoneMapping), (js ''mobile'', mobileMapping)]"

text \<open>A record whose \<open>email\<close> is the empty string, and one with two telephone numbers.\<close>

definition annData :: userdata where
  "annData = [(js ''email'', []), (js ''fullName'', js ''Ann'')]"

definition phoneData :: userdata where
  "phoneData = [(js ''mobile'', js ''222''), (js ''phone'', js ''111'')]"

text \<open>
  A visible, enabled text input that accepts focus and declares no constraint; the
  same with \<open>maxLength = 5\<close>; inputs of the types \<open>tel\<close>, \<open>url\<close> and \<open>number\<close>.
\<close>

definition plainInput :: element where
  "plainInput =
     \<lparr>el_type = js ''text'', el_value = [], el_maxLength = - 1, el_min = [], el_max = [], el_disabled = False,
      el_readOnly = False, el_attached = True, el_width = 200, el_height = 20,
      el_display = js ''inline-block'', el_visibility = js ''visible'', el_opacity = js ''1'',
      el_hasOffsetParent = True, el_focusable = True, el_filling = False\<rparr>"

definition zipInput :: element where
  "zipInput = plainInput\<lparr>el_maxLength := 5\<rparr>"

definition telInput :: element where
  "telInput = plainInput\<lparr>el_type := js ''tel''\<rparr>"

definition urlInput :: element where
  "urlInput = plainInput\<lparr>el_type := js ''url''\<rparr>"

definition numberInput :: element where
  "numberInput = plainInput\<lparr>el_type := js ''number''\<rparr>"

text \<open>
  A page with the one input of \<open>maxLength = 5\<close>, named \<open>zip\<close>, a host that reads this
  descriptor off it, and the record \<open>{"zipCode": "123456789012"}\<close>.
\<close>

definition zipField :: field where
  "zipField = (namedField 0 ''text'' ''zip'')\<lparr>f_maxLength := Some 5\<rparr>"

definition zipPage :: page where
  "zipPage = \<lparr>p_elements = [zipInput], p_scanned = [0], p_console = []\<rparr>"

definition zipHost :: host where
  "zipHost = ascii_host\<lparr>extractFieldMetadata := (\<lambda>r e i. Some zipField)\<rparr>"

definition zipData :: userdata where
  "zipData = [(js ''zipCode'', js ''123456789012'')]"

definition zipCandidate :: mappedField where
  "zipCandidate = \<lparr>m_field = zipField, m_dataField = js ''zipCode'',
     m_value = js ''123456789012'', m_confidence = 90\<rparr>"

definition freshResults :: "nat \<Rightarrow> fillResults" where
  "freshResults n = \<lparr>fieldsDetected = n, fieldsFilled = 0, fieldsSkipped = 0, errors = [], warnings = []\<rparr>"

definition zipState :: runState where
  "zipState = \<lparr>rs_page = zipPage, rs_results = freshResults 1\<rparr>"

text \<open>
  A number input named \<open>age\<close> with \<open>min = 0\<close> and \<open>max = 10\<close>, and the value \<open>15\<close>
  matched to it.
\<close>

definition ageInput :: element where
  "ageInput = numberInput\<lparr>el_min := js ''0'', el_max := js ''10''\<rparr>"

definition ageField :: field where
  "ageField = namedField 0 ''number'' ''age''"

definition ageCandidate :: mappedField where
  "ageCandidate = \<lparr>m_field = ageField, m_dataField = js ''age'', m_value = js ''15'',
     m_confidence = 80\<rparr>"

definition ageState :: runState where
  "ageState = \<lparr>rs_page = \<lparr>p_elements = [ageInput], p_scanned = [0], p_console = []\<rparr>,
                rs_results = freshResults 1\<rparr>"

text \<open>
  Values with a code unit that a literal cannot show: a line feed inside digits, a tab
  between two digits, a line feed inside a host name, a no-break space inside a path.
\<close>

definition brokenZip :: jsstring where
  "brokenZip = js ''12'' @ [0xA] @ js ''3456789''"

definition tabbedPhone :: jsstring where
  "tabbedPhone = js ''1'' @ [0x9] @ js ''2''"

definition brokenUrl :: jsstring where
  "brokenUrl = js ''exam'' @ [0xA] @ js ''ple.com''"

definition nbspUrl :: jsstring where
  "nbspUrl = js ''a'' @ [0xA0] @ js ''b''"

text \<open>A page whose only input has \<open>display: none\<close>, and a request with the zip record.\<close>

definition hiddenPage :: page where
  "hiddenPage = \<lparr>p_elements = [plainInput\<lparr>el_display := js ''none''\<rparr>], p_scanned = [0],
                  p_console = []\<rparr>"

definition zipRequest :: request where
  "zipRequest = \<lparr>rq_userData = Some zipData, rq_fieldMappings = None\<rparr>"

text \<open>
  A filler whose promise resolves for the candidate of key \<open>a\<close>, rejects for \<open>b\<close> and
  stays pending for every other one; a clock that jumps past the budget before the
  fourth round; four candidates for the plain input, and the state a run starts in.
\<close>

definition demoFiller :: filler where
  "demoFiller m pg =
     (if m_dataField m = js ''a'' then (Resolves True, pg)
      else if m_dataField m = js ''b'' then (Rejects (js ''boom''), pg)
      else (Pending, pg))"

definition demoClock :: "nat \<Rightarrow> int" where
  "demoClock j = (if j \<le> 3 then 100 * int j else 40000)"

definition demoCandidate :: "string \<Rightarrow> mappedField" where
  "demoCandidate k = \<lparr>m_field = namedField 0 ''text'' k, m_dataField = js k, m_value = js ''x'',
     m_confidence = 80\<rparr>"

definition demoState :: runState where
  "demoState = \<lparr>rs_page = \<lparr>p_elements = [plainInput], p_scanned = [0], p_console = []\<rparr>,
                 rs_results = freshResults 4\<rparr>"

section \<open>Facts about strings\<close>

lemma trimStart_head: "trimStart s = [] \<or> \<not> isWhiteSpace (hd (trimStart s))"
  unfolding trimStart_def by (metis hd_dropWhile)

lemma trimEnd_keeps_head:
  assumes "s \<noteq> []" and "\<not> isWhiteSpace (hd s)"
  shows "trimEnd s \<noteq> [] \<and> hd (trimEnd s) = hd s"
proof -
  obtain x t where s: "s = x # t" using assms(1) by (cases s) auto
  have nx: "\<not> isWhiteSpace x" using assms(2) s by simp
  show ?thesis
  proof (cases "\<forall>y\<in>set (rev t). isWhiteSpace y")
    case True
    then have "\<And>y. y \<in> set (rev t) \<Longrightarrow> isWhiteSpace y" by blast
    then have "dropWhile isWhiteSpace (rev t @ [x]) = dropWhile isWhiteSpace [x]"
      by (rule dropWhile_append2)
    then have "dropWhile isWhiteSpace (rev t @ [x]) = [x]"
      using nx by simp
    then show ?thesis by (simp add: trimEnd_def s)
  next
    case False
    then have "dropWhile isWhiteSpace (rev t @ [x]) = dropWhile isWhiteSpace (rev t) @ [x]"
      by (metis dropWhile_append1)
    then show ?thesis by (simp add: trimEnd_def s)
  qed
qed

lemma trim_head: "trim s = [] \<or> \<not> isWhiteSpace (hd (trim s))"
proof (cases "trimStart s = []")
  case True
  then show ?thesis by (simp add: trim_def trimEnd_def)
next
  case False
  then have "\<not> isWhiteSpace (hd (trimStart s))" using trimStart_head [of s] by simp
  then show ?thesis using trimEnd_keeps_head [OF False] by (simp add: trim_def)
qed

lemma trimStart_fixed: "s = [] \<or> \<not> isWhiteSpace (hd s) \<Longrightarrow> trimStart s = s"
  by (cases s) (auto simp: trimStart_def)

lemma set_trimEnd: "set (trimEnd s) \<subseteq> set s"
  unfolding trimEnd_def using set_dropWhileD by fastforce

lemma set_trim: "set (trim s) \<subseteq> set s"
  unfolding trim_def trimStart_def using set_trimEnd set_dropWhileD by fastforce

lemma length_trim: "length (trim s) \<le> length s"
  unfolding trim_def trimStart_def trimEnd_def
  by (metis length_dropWhile_le length_rev le_trans)

lemma trimEnd_last: "trimEnd s = [] \<or> \<not> isWhiteSpace (last (trimEnd s))"
proof -
  have "dropWhile isWhiteSpace (rev s) = [] \<or> \<not> isWhiteSpace (hd (dropWhile isWhiteSpace (rev s)))"
    by (metis hd_dropWhile)
  then show ?thesis
    unfolding trimEnd_def by (metis last_rev rev_is_Nil_conv)
qed

lemma trim_last: "trim s = [] \<or> \<not> isWhiteSpace (last (trim s))"
  unfolding trim_def by (rule trimEnd_last)

lemma trimEnd_fixed: "s = [] \<or> \<not> isWhiteSpace (last s) \<Longrightarrow> trimEnd s = s"
proof (cases "s = []")
  case True
  then show ?thesis by (simp add: trimEnd_def)
next
  case False
  assume "s = [] \<or> \<not> isWhiteSpace (last s)"
  then have "\<not> isWhiteSpace (hd (rev s))" using False by (simp add: hd_rev)
  then have "dropWhile isWhiteSpace (rev s) = rev s" using False by (cases "rev s") auto
  then show ?thesis by (simp add: trimEnd_def)
qed

lemma trim_fixed:
  "s = [] \<or> (\<not> isWhiteSpace (hd s) \<and> \<not> isWhiteSpace (last s)) \<Longrightarrow> trim s = s"
  unfolding trim_def using trimStart_fixed [of s] trimEnd_fixed [of s] by auto

lemma trim_trim: "trim (trim s) = trim s"
  using trim_head [of s] trim_last [of s] by (intro trim_fixed) blast

section \<open>Facts about the fill strategies\<close>

lemma fillTextField_focusable:
  "el_focusable e \<Longrightarrow>
   fillTextField H e v =
     (Inr True, assignValue H e (fitMaxLength e (trim v)),
      if el_maxLength e > 0 \<and> int (length (trim v)) > el_maxLength e
      then [WarnTruncated (el_maxLength e)] else [])"
  by (simp add: fillTextField_def focusElement_def rethrow_def fitMaxLength_def substring0_def Let_def)

lemma fillTextareaField_focusable:
  "el_focusable e \<Longrightarrow>
   fillTextareaField H e v =
     (Inr True, assignValue H e (fitMaxLength e (trim v)),
      if el_maxLength e > 0 \<and> int (length (trim v)) > el_maxLength e
      then [WarnTextareaTruncated (el_maxLength e)] else [])"
  by (simp add: fillTextareaField_def focusElement_def rethrow_def fitMaxLength_def substring0_def Let_def)

lemma scheme_https: "hasScheme (js ''https://'' @ t)"
  by (simp add: hasScheme_def)

lemma https_trimmed:
  assumes "t \<noteq> []" and "\<not> isWhiteSpace (last t)"
  shows "trim (js ''https://'' @ t) = js ''https://'' @ t"
proof -
  have "\<not> isWhiteSpace (hd (js ''https://'' @ t))" by (simp add: js_def isWhiteSpace_def)
  moreover have "\<not> isWhiteSpace (last (js ''https://'' @ t))" using assms by simp
  ultimately show ?thesis by (intro trim_fixed) simp
qed

lemma fillUrlField_withScheme:
  "fillUrlField H e v
     = rethrow (js ''URL field fill failed: '') (fillTextField H e (withScheme (trim v)))"
  by (simp add: fillUrlField_def withScheme_def Let_def)

lemma withScheme_trimmed: "trim (withScheme (trim v)) = withScheme (trim v)"
  using https_trimmed [of "trim v"] trim_last [of v] trim_trim [of v]
  by (auto simp: withScheme_def)

lemma withScheme_fixed: "withScheme (withScheme t) = withScheme t"
  using scheme_https [of t] by (auto simp: withScheme_def)

lemma fillUrlField_focusable:
  assumes "el_focusable e"
  shows "fillUrlField H e v =
     (Inr True, assignValue H e (fitMaxLength e (withScheme (trim v))),
      if el_maxLength e > 0 \<and> int (length (withScheme (trim v))) > el_maxLength e
      then [WarnTruncated (el_maxLength e)] else [])"
  using fillTextField_focusable [OF assms, of H "withScheme (trim v)"]
  by (simp add: fillUrlField_withScheme withScheme_trimmed rethrow_def)

lemma setFieldValue_textLike:
  "isTextLikeType ty \<Longrightarrow>
   setFieldValue H e v ty
     = rethrow (js ''Failed to set '' @ ty @ js '' field value: '') (fillTextField H e v)"
  by (simp add: setFieldValue_def isTextLikeType_def)

lemma setFieldValue_textarea:
  "setFieldValue H e v (js ''textarea'') =
     rethrow (js ''Failed to set '' @ js ''textarea'' @ js '' field value: '') (fillTextareaField H e v)"
  by (simp add: setFieldValue_def js_def)

lemma setFieldValue_number:
  "setFieldValue H e v (js ''number'') =
     rethrow (js ''Failed to set '' @ js ''number'' @ js '' field value: '') (fillNumberField H e v)"
  by (simp add: setFieldValue_def js_def)

lemma setFieldValueSafely_Inr:
  "setFieldValue H e v ty = (Inr b, e', c) \<Longrightarrow> setFieldValueSafely H e v ty = (Inr b, e', c)"
  by (simp add: setFieldValueSafely_def)

lemma fillSingleField_written:
  assumes r: "f_element (m_field m) < length (p_elements pg)"
    and e: "p_elements pg ! f_element (m_field m) = e"
    and ok: "el_attached e" "\<not> el_disabled e" "\<not> el_readOnly e" "el_width e \<noteq> 0" "el_height e \<noteq> 0"
    and out: "setFieldValue H (e\<lparr>el_filling := True\<rparr>) (m_value m) (f_type (m_field m)) = (Inr b, e', c)"
  shows "fillSingleField H m pg = (Inr b, storeElement pg (f_element (m_field m)) e' c)"
  using r e ok setFieldValueSafely_Inr [OF out]
  by (simp add: fillSingleField_def Let_def)

lemma attemptField_autoFiller:
  assumes r: "f_element (m_field m) < length (p_elements (rs_page st))"
    and e: "p_elements (rs_page st) ! f_element (m_field m) = e"
    and ok: "el_attached e" "\<not> el_disabled e" "\<not> el_readOnly e" "el_width e \<noteq> 0" "el_height e \<noteq> 0"
    and out: "setFieldValue H (e\<lparr>el_filling := True\<rparr>) (m_value m) (f_type (m_field m)) = (Inr b, e', c)"
  shows "attemptField (autoFiller H) m st =
     \<lparr>rs_page = storeElement (rs_page st) (f_element (m_field m)) e' c,
      rs_results =
        (if b then (rs_results st)\<lparr>fieldsFilled := fieldsFilled (rs_results st) + 1\<rparr>
         else (rs_results st)\<lparr>fieldsSkipped := fieldsSkipped (rs_results st) + 1,
                warnings := warnings (rs_results st)
                   @ [js ''Could not fill field: '' @ f_identifier (m_field m)]\<rparr>)\<rparr>"
proof -
  have c: "documentContains (rs_page st) (f_element (m_field m))"
    using r e ok(1) by (simp add: documentContains_def)
  have f: "autoFiller H m (rs_page st)
             = (Resolves b, storeElement (rs_page st) (f_element (m_field m)) e' c)"
    using fillSingleField_written [OF r e ok out] by (simp add: autoFiller_def)
  show ?thesis
    using c f by (simp add: attemptField_def Let_def raceFieldTimeout_def)
qed

lemma fillNumberField_rejected:
  "numberRejected H e v \<Longrightarrow>
   fst (fillNumberField H e v) = Inr False \<and> fst (snd (fillNumberField H e v)) = e"
  by (auto simp: fillNumberField_def numberRejected_def rethrow_def Let_def)

lemma fillNumberField_accepted:
  "\<not> numberRejected H e v \<Longrightarrow>
   fillNumberField H e v =
     rethrow (js ''Number field fill failed: '') (fillTextField H e (numberToString H (parseFloat H v)))"
  by (auto simp: fillNumberField_def numberRejected_def Let_def)

lemma numberRejected_filling [simp]:
  "numberRejected H (e\<lparr>el_filling := b\<rparr>) v = numberRejected H e v"
  by (simp add: numberRejected_def)

lemma phone_keeps_plus:
  "filter (\<lambda>c. c = 0x2B) (filter isPhoneChar t) = filter (\<lambda>c. c = 0x2B) t"
  unfolding filter_filter by (rule filter_cong) (auto simp: isPhoneChar_def)

lemma phone_keeps_whitespace:
  "filter isWhiteSpace (filter isPhoneChar t) = filter isWhiteSpace t"
  unfolding filter_filter by (rule filter_cong) (auto simp: isPhoneChar_def)

lemma phone_as_claimed:
  assumes "list_all (\<lambda>c. c \<noteq> 0x2B) (tl (trim v))"
    and "list_all (\<lambda>c. isWhiteSpace c \<longrightarrow> c = 0x20) (trim v)"
  shows "filter isPhoneChar (trim v) = claimedPhoneText v"
proof (cases "trim v")
  case Nil
  then show ?thesis by (simp add: claimedPhoneText_def)
next
  case (Cons c cs)
  let ?keep = "\<lambda>c. isDigit c \<or> c = 0x2D \<or> c = 0x28 \<or> c = 0x29 \<or> c = (0x20 :: jschar)"
  have sp: "isWhiteSpace (0x20 :: jschar)" by (simp add: isWhiteSpace_def)
  have a: "\<And>x. x \<in> set cs \<Longrightarrow> isPhoneChar x = ?keep x"
    using assms sp by (auto simp: Cons list_all_iff isPhoneChar_def)
  have tl: "filter isPhoneChar cs = filter ?keep cs"
    by (rule filter_cong) (simp_all add: a)
  have hd: "c \<noteq> 0x2B \<Longrightarrow> isPhoneChar c = ?keep c"
    using assms(2) sp by (auto simp: Cons isPhoneChar_def)
  show ?thesis
    using tl hd by (simp add: claimedPhoneText_def Cons Let_def isPhoneChar_def)
qed

lemma fillTextField_unfocusable:
  "\<not> el_focusable e \<Longrightarrow>
   fillTextField H e v
     = (Inl (js ''Text field fill failed: '' @ js ''Could not focus on text field''), e, [])"
  by (simp add: fillTextField_def focusElement_def rethrow_def)

lemma fillTextareaField_unfocusable:
  "\<not> el_focusable e \<Longrightarrow>
   fillTextareaField H e v
     = (Inl (js ''Textarea field fill failed: '' @ js ''Could not focus on textarea field''), e, [])"
  by (simp add: fillTextareaField_def focusElement_def rethrow_def)

lemma stripAsciiWhitespace_fixed:
  assumes "s = [] \<or> (\<not> isAsciiWhitespace (hd s) \<and> \<not> isAsciiWhitespace (last s))"
  shows "stripAsciiWhitespace s = s"
proof (cases "s = []")
  case True
  then show ?thesis by (simp add: stripAsciiWhitespace_def)
next
  case False
  then have a: "dropWhile isAsciiWhitespace s = s" using assms by (cases s) auto
  have "\<not> isAsciiWhitespace (hd (rev s))" using False assms by (simp add: hd_rev)
  then have "dropWhile isAsciiWhitespace (rev s) = rev s" using False by (cases "rev s") auto
  then show ?thesis by (simp add: stripAsciiWhitespace_def a)
qed

lemma isAsciiWhitespace_isWhiteSpace: "isAsciiWhitespace c \<Longrightarrow> isWhiteSpace c"
  by (auto simp: isAsciiWhitespace_def isWhiteSpace_def)

lemma stripNewlines_fixed: "stripNewlines (stripNewlines s) = stripNewlines s"
  by (simp add: stripNewlines_def)

lemma length_stripNewlines: "length (stripNewlines s) \<le> length s"
  by (simp add: stripNewlines_def)

lemma stripNewlines_hasScheme: "hasScheme s \<Longrightarrow> hasScheme (stripNewlines s)"
proof -
  have h: "stripNewlines (js ''http://'' @ r) = js ''http://'' @ stripNewlines r"
    and hs: "stripNewlines (js ''https://'' @ r) = js ''https://'' @ stripNewlines r" for r
    by (simp_all add: stripNewlines_def js_def)
  assume "hasScheme s"
  then consider r where "s = js ''http://'' @ r" | r where "s = js ''https://'' @ r"
    by (auto simp: hasScheme_def prefix_def)
  then show ?thesis
  proof cases
    case 1
    then show ?thesis by (simp only: h) (simp add: hasScheme_def)
  next
    case 2
    then show ?thesis by (simp only: hs) (simp add: hasScheme_def)
  qed
qed

lemma hasScheme_hd: "hasScheme s \<Longrightarrow> s \<noteq> [] \<and> hd s = 0x68"
  by (auto simp: hasScheme_def prefix_def js_def)

lemma stripNewlines_last:
  assumes "s \<noteq> []" and "\<not> isWhiteSpace (last s)"
  shows "stripNewlines s \<noteq> [] \<and> last (stripNewlines s) = last s"
proof -
  have k: "last s \<noteq> 0xA \<and> last s \<noteq> 0xD" using assms(2) by (auto simp: isWhiteSpace_def)
  have e: "s = butlast s @ [last s]" using assms(1) by simp
  have "stripNewlines (butlast s @ [last s]) = stripNewlines (butlast s) @ [last s]"
    using k by (simp add: stripNewlines_def)
  with arg_cong [OF e, of stripNewlines]
  have "stripNewlines s = stripNewlines (butlast s) @ [last s]" by (rule trans)
  then show ?thesis by simp
qed

lemma withScheme_shape:
  assumes "withScheme (trim v) \<noteq> []"
  shows "hasScheme (withScheme (trim v)) \<and> \<not> isWhiteSpace (last (withScheme (trim v)))"
proof -
  have t: "trim v \<noteq> []" using assms by (auto simp: withScheme_def)
  then have l: "\<not> isWhiteSpace (last (trim v))" using trim_last [of v] by simp
  show ?thesis using t l scheme_https [of "trim v"] by (auto simp: withScheme_def)
qed

text \<open>
  What a \<open>url\<close> input makes of the text that \<open>fillUrlField\<close> assigns when nothing is
  cut: the text without its line breaks, which a second fill leaves as it is.
\<close>

lemma url_text_settled:
  fixes v :: jsstring
  defines "u \<equiv> withScheme (trim v)"
  defines "s \<equiv> stripNewlines u"
  shows "stripAsciiWhitespace (stripNewlines u) = s"
    and "withScheme (trim s) = s"
    and "stripAsciiWhitespace (stripNewlines s) = s"
    and "length s \<le> length u"
proof -
  have shape: "s = [] \<or> (hasScheme s \<and> hd s = 0x68 \<and> \<not> isWhiteSpace (last s))"
  proof (cases "u = []")
    case True
    then show ?thesis by (simp add: s_def stripNewlines_def)
  next
    case False
    then have a: "hasScheme u" and b: "\<not> isWhiteSpace (last u)"
      using withScheme_shape [of v] by (simp_all add: u_def)
    have "hasScheme s" using a unfolding s_def by (rule stripNewlines_hasScheme)
    moreover have "last s = last u" using stripNewlines_last [OF False b] by (simp add: s_def)
    ultimately show ?thesis using b hasScheme_hd [of s] by simp
  qed
  have h: "\<not> isWhiteSpace (0x68 :: jschar)" by (simp add: isWhiteSpace_def)
  have fixA: "stripAsciiWhitespace s = s"
    using shape h isAsciiWhitespace_isWhiteSpace by (intro stripAsciiWhitespace_fixed) auto
  show "stripAsciiWhitespace (stripNewlines u) = s" using fixA by (simp add: s_def)
  have ts: "trim s = s" using shape h by (intro trim_fixed) auto
  show "withScheme (trim s) = s" using shape by (auto simp: ts withScheme_def)
  have "stripNewlines s = s" by (simp add: s_def stripNewlines_fixed)
  then show "stripAsciiWhitespace (stripNewlines s) = s" using fixA by simp
  show "length s \<le> length u" by (simp add: s_def length_stripNewlines)
qed

lemma zip_detected: "detectFields zipHost zipPage = [zipField]"
  by code_simp

lemma zip_best: "findBestMatch zipHost zipField zipData (getActiveMappings [])
    = Some \<lparr>bm_key = js ''zipCode'', bm_value = js ''123456789012'', bm_confidence = 90\<rparr>"
  by code_simp

lemma zip_mapped: "mapFieldsToData zipHost [zipField] zipData (getActiveMappings []) = [zipCandidate]"
  by (simp add: mapFieldsToData_def zip_best zipCandidate_def)

lemma zip_attempt:
  "attemptField (autoFiller zipHost) zipCandidate
     \<lparr>rs_page = zipPage,
      rs_results = \<lparr>fieldsDetected = Suc 0, fieldsFilled = 0, fieldsSkipped = 0,
                      errors = [], warnings = []\<rparr>\<rparr>
     = \<lparr>rs_page = \<lparr>p_elements = [zipInput\<lparr>el_value := js ''12345'', el_filling := True\<rparr>],
                    p_scanned = [0], p_console = [WarnTruncated 5]\<rparr>,
        rs_results = \<lparr>fieldsDetected = Suc 0, fieldsFilled = Suc 0, fieldsSkipped = 0,
                      errors = [], warnings = []\<rparr>\<rparr>"
  by code_simp

section \<open>Facts about the matching engine\<close>

lemma aliasRound_ge: "score \<le> aliasRound H fld p score alias"
  by (simp add: aliasRound_def)

lemma foldl_aliasRound_ge: "score \<le> foldl (aliasRound H fld p) score als"
proof (induction als arbitrary: score)
  case Nil
  show ?case by simp
next
  case (Cons a als)
  have "score \<le> aliasRound H fld p score a" by (rule aliasRound_ge)
  also have "\<dots> \<le> foldl (aliasRound H fld p) (aliasRound H fld p score a) als" by (rule Cons.IH)
  finally show ?case by simp
qed

lemma foldl_aliasRound_exact:
  assumes "a \<in> set als" and "isExactMatch H fld a"
  shows "p * 10 \<le> foldl (aliasRound H fld p) score als"
  using assms
proof (induction als arbitrary: score)
  case Nil
  then show ?case by simp
next
  case (Cons b als)
  show ?case
  proof (cases "a = b")
    case True
    then have "p * 10 \<le> aliasRound H fld p score b"
      using Cons.prems(2) by (simp add: aliasRound_def)
    also have "\<dots> \<le> foldl (aliasRound H fld p) (aliasRound H fld p score b) als"
      by (rule foldl_aliasRound_ge)
    finally show ?thesis by simp
  next
    case False
    then have "a \<in> set als" using Cons.prems(1) by simp
    then show ?thesis using Cons.IH Cons.prems(2) by simp
  qed
qed

lemma foldl_aliasRound_le10:
  assumes "0 < p" and "score \<le> p * 10"
  shows "foldl (aliasRound H fld p) score als \<le> p * 10"
  using assms(2)
proof (induction als arbitrary: score)
  case Nil
  then show ?case by simp
next
  case (Cons b als)
  have "aliasRound H fld p score b \<le> p * 10"
    using Cons.prems assms(1) by (simp add: aliasRound_def)
  then show ?case using Cons.IH by simp
qed

lemma foldl_aliasRound_le8:
  assumes "0 < p" and "score \<le> p * 8" and "\<forall>a\<in>set als. \<not> isExactMatch H fld a"
  shows "foldl (aliasRound H fld p) score als \<le> p * 8"
  using assms(2,3)
proof (induction als arbitrary: score)
  case Nil
  then show ?case by simp
next
  case (Cons b als)
  have "aliasRound H fld p score b \<le> p * 8"
    using Cons.prems assms(1) by (simp add: aliasRound_def)
  then show ?case using Cons.IH Cons.prems(2) by simp
qed

lemma foldl_aliasRound_identifier:
  assumes "a \<in> set als" and "inIdentifier H fld a" and "\<not> isExactMatch H fld a"
  shows "p * 8 \<le> foldl (aliasRound H fld p) score als"
  using assms(1)
proof (induction als arbitrary: score)
  case Nil
  then show ?case by simp
next
  case (Cons b als)
  show ?case
  proof (cases "a = b")
    case True
    then have "p * 8 \<le> aliasRound H fld p score b"
      using assms(2,3) by (simp add: aliasRound_def)
    also have "\<dots> \<le> foldl (aliasRound H fld p) (aliasRound H fld p score b) als"
      by (rule foldl_aliasRound_ge)
    finally show ?thesis by simp
  next
    case False
    then have "a \<in> set als" using Cons.prems(1) by simp
    then show ?thesis using Cons.IH by simp
  qed
qed

lemma smart_cases:
  "calculateSmartMatchScore H fld k mp = priority mp * 9 \<or> calculateSmartMatchScore H fld k mp = 0"
  unfolding calculateSmartMatchScore_def Let_def
  by (simp only: if_split [where P = "\<lambda>x. x = priority mp * 9 \<or> x = 0"]) blast

lemma smart_le9: "0 < priority mp \<Longrightarrow> calculateSmartMatchScore H fld k mp \<le> priority mp * 9"
  using smart_cases [of H fld k mp] by auto

lemma bestRound_skip:
  "\<not> truthy ud k \<Longrightarrow> bestRound H fld ud M st k = st"
  by (auto simp: bestRound_def truthy_def split: option.splits)

lemma bestRound_keep:
  "calculateMatchScore H fld k M \<le> snd st \<Longrightarrow> bestRound H fld ud M st k = st"
  by (auto simp: bestRound_def Let_def split: option.splits)

lemma bestRound_take:
  "map_of ud k = Some v \<Longrightarrow> v \<noteq> [] \<Longrightarrow> snd st < calculateMatchScore H fld k M \<Longrightarrow>
   bestRound H fld ud M st k =
     (Some \<lparr>bm_key = k, bm_value = v, bm_confidence = calculateMatchScore H fld k M\<rparr>,
      calculateMatchScore H fld k M)"
  by (simp add: bestRound_def Let_def)

lemma foldl_bestRound_char:
  "(foldl (bestRound H fld ud M) st ks = st
      \<and> (\<forall>k\<in>set ks. truthy ud k \<longrightarrow> calculateMatchScore H fld k M \<le> snd st))
   \<or> (\<exists>pre k post v. ks = pre @ k # post \<and> map_of ud k = Some v \<and> v \<noteq> []
        \<and> foldl (bestRound H fld ud M) st ks =
            (Some \<lparr>bm_key = k, bm_value = v, bm_confidence = calculateMatchScore H fld k M\<rparr>,
             calculateMatchScore H fld k M)
        \<and> snd st < calculateMatchScore H fld k M
        \<and> (\<forall>k'\<in>set pre. truthy ud k' \<longrightarrow> calculateMatchScore H fld k' M < calculateMatchScore H fld k M)
        \<and> (\<forall>k'\<in>set post. truthy ud k' \<longrightarrow> calculateMatchScore H fld k' M \<le> calculateMatchScore H fld k M))"
  (is "?A ks \<or> ?B ks")
proof (induction ks rule: rev_induct)
  case Nil
  show ?case by simp
next
  case (snoc x ks)
  let ?sc = "\<lambda>k. calculateMatchScore H fld k M"
  let ?R = "foldl (bestRound H fld ud M) st ks"
  have step: "foldl (bestRound H fld ud M) st (ks @ [x]) = bestRound H fld ud M ?R x" by simp
  have both: "(\<forall>k\<in>set ks. truthy ud k \<longrightarrow> ?sc k \<le> snd ?R) \<and> snd st \<le> snd ?R"
    using snoc.IH
  proof
    assume "?A ks"
    then show ?thesis by simp
  next
    assume "?B ks"
    then obtain pre k post v where B: "ks = pre @ k # post"
      "?R = (Some \<lparr>bm_key = k, bm_value = v, bm_confidence = ?sc k\<rparr>, ?sc k)"
      "snd st < ?sc k"
      "\<forall>k'\<in>set pre. truthy ud k' \<longrightarrow> ?sc k' < ?sc k"
      "\<forall>k'\<in>set post. truthy ud k' \<longrightarrow> ?sc k' \<le> ?sc k"
      by blast
    have "snd ?R = ?sc k" using B(2) by simp
    then show ?thesis using B(1,3,4,5) by fastforce
  qed
  then have bound: "\<forall>k\<in>set ks. truthy ud k \<longrightarrow> ?sc k \<le> snd ?R" and lower: "snd st \<le> snd ?R"
    by blast+
  show ?case
  proof (cases "truthy ud x \<and> snd ?R < ?sc x")
    case True
    then obtain v where v: "map_of ud x = Some v" "v \<noteq> []"
      by (auto simp: truthy_def split: option.splits)
    have R': "foldl (bestRound H fld ud M) st (ks @ [x])
                = (Some \<lparr>bm_key = x, bm_value = v, bm_confidence = ?sc x\<rparr>, ?sc x)"
      using bestRound_take [OF v, of ?R H fld M] True step by simp
    have c1: "snd st < ?sc x" using lower True by simp
    have c2: "\<forall>k'\<in>set ks. truthy ud k' \<longrightarrow> ?sc k' < ?sc x" using bound True by fastforce
    have "?B (ks @ [x])"
      apply (rule exI [of _ ks], rule exI [of _ x], rule exI [of _ "[]"], rule exI [of _ v])
      using v R' c1 c2 by simp
    then show ?thesis ..
  next
    case False
    then have same: "foldl (bestRound H fld ud M) st (ks @ [x]) = ?R"
      using bestRound_skip [of ud x H fld M ?R] bestRound_keep [of H fld x M ?R ud] step
      by (cases "truthy ud x") auto
    have xle: "truthy ud x \<longrightarrow> ?sc x \<le> snd ?R" using False by auto
    from snoc.IH show ?thesis
    proof
      assume A: "?A ks"
      then have "?A (ks @ [x])" using same xle by simp
      then show ?thesis ..
    next
      assume "?B ks"
      then obtain pre k post v where B: "ks = pre @ k # post" "map_of ud k = Some v" "v \<noteq> []"
        "?R = (Some \<lparr>bm_key = k, bm_value = v, bm_confidence = ?sc k\<rparr>, ?sc k)"
        "snd st < ?sc k"
        "\<forall>k'\<in>set pre. truthy ud k' \<longrightarrow> ?sc k' < ?sc k"
        "\<forall>k'\<in>set post. truthy ud k' \<longrightarrow> ?sc k' \<le> ?sc k"
        by blast
      have d1: "ks @ [x] = pre @ k # (post @ [x])" using B(1) by simp
      have "snd ?R = ?sc k" using B(4) by simp
      then have d2: "\<forall>k'\<in>set (post @ [x]). truthy ud k' \<longrightarrow> ?sc k' \<le> ?sc k"
        using B(7) xle by simp
      have d3: "foldl (bestRound H fld ud M) st (ks @ [x])
                  = (Some \<lparr>bm_key = k, bm_value = v, bm_confidence = ?sc k\<rparr>, ?sc k)"
        using same B(4) by simp
      have "?B (ks @ [x])"
        apply (rule exI [of _ pre], rule exI [of _ k], rule exI [of _ "post @ [x]"], rule exI [of _ v])
        using d1 d2 d3 B(2,3,5,6) by blast
      then show ?thesis ..
    qed
  qed
qed

lemma findBestMatch_None_iff:
  "findBestMatch H fld ud M = None \<longleftrightarrow>
     (\<forall>k\<in>set (map fst M). truthy ud k \<longrightarrow> calculateMatchScore H fld k M \<le> 0)"
proof -
  let ?sc = "\<lambda>k. calculateMatchScore H fld k M"
  from foldl_bestRound_char [of H fld ud M "(None, 0)" "map fst M"]
  show ?thesis
  proof
    assume A: "foldl (bestRound H fld ud M) (None, 0) (map fst M) = (None, 0)
      \<and> (\<forall>k\<in>set (map fst M). truthy ud k \<longrightarrow> ?sc k \<le> snd (None :: bestMatch option, 0 :: int))"
    then show ?thesis by (simp add: findBestMatch_def)
  next
    assume "\<exists>pre k post v. map fst M = pre @ k # post \<and> map_of ud k = Some v \<and> v \<noteq> []
        \<and> foldl (bestRound H fld ud M) (None, 0) (map fst M) =
            (Some \<lparr>bm_key = k, bm_value = v, bm_confidence = ?sc k\<rparr>, ?sc k)
        \<and> snd (None :: bestMatch option, 0 :: int) < ?sc k
        \<and> (\<forall>k'\<in>set pre. truthy ud k' \<longrightarrow> ?sc k' < ?sc k)
        \<and> (\<forall>k'\<in>set post. truthy ud k' \<longrightarrow> ?sc k' \<le> ?sc k)"
    then obtain pre k post v where B: "map fst M = pre @ k # post" "map_of ud k = Some v" "v \<noteq> []"
      "foldl (bestRound H fld ud M) (None, 0) (map fst M) =
            (Some \<lparr>bm_key = k, bm_value = v, bm_confidence = ?sc k\<rparr>, ?sc k)"
      "0 < ?sc k"
      by auto
    have "k \<in> set (map fst M)" using B(1) by simp
    moreover have "truthy ud k" using B(2,3) by (simp add: truthy_def)
    ultimately have "\<not> (\<forall>k\<in>set (map fst M). truthy ud k \<longrightarrow> ?sc k \<le> 0)" using B(5) by fastforce
    moreover have "findBestMatch H fld ud M \<noteq> None" using B(4) by (simp add: findBestMatch_def)
    ultimately show ?thesis by blast
  qed
qed

lemma findBestMatch_Some:
  assumes "findBestMatch H fld ud M = Some c"
  shows "\<exists>pre post. map fst M = pre @ bm_key c # post
           \<and> map_of ud (bm_key c) = Some (bm_value c) \<and> bm_value c \<noteq> []
           \<and> bm_confidence c = calculateMatchScore H fld (bm_key c) M
           \<and> 0 < bm_confidence c
           \<and> (\<forall>k\<in>set pre. truthy ud k \<longrightarrow> calculateMatchScore H fld k M < bm_confidence c)
           \<and> (\<forall>k\<in>set post. truthy ud k \<longrightarrow> calculateMatchScore H fld k M \<le> bm_confidence c)"
proof -
  let ?sc = "\<lambda>k. calculateMatchScore H fld k M"
  from foldl_bestRound_char [of H fld ud M "(None, 0)" "map fst M"]
  show ?thesis
  proof
    assume "foldl (bestRound H fld ud M) (None, 0) (map fst M) = (None, 0)
      \<and> (\<forall>k\<in>set (map fst M). truthy ud k \<longrightarrow> ?sc k \<le> snd (None :: bestMatch option, 0 :: int))"
    then have "findBestMatch H fld ud M = None" by (simp add: findBestMatch_def)
    then show ?thesis using assms by simp
  next
    assume "\<exists>pre k post v. map fst M = pre @ k # post \<and> map_of ud k = Some v \<and> v \<noteq> []
        \<and> foldl (bestRound H fld ud M) (None, 0) (map fst M) =
            (Some \<lparr>bm_key = k, bm_value = v, bm_confidence = ?sc k\<rparr>, ?sc k)
        \<and> snd (None :: bestMatch option, 0 :: int) < ?sc k
        \<and> (\<forall>k'\<in>set pre. truthy ud k' \<longrightarrow> ?sc k' < ?sc k)
        \<and> (\<forall>k'\<in>set post. truthy ud k' \<longrightarrow> ?sc k' \<le> ?sc k)"
    then obtain pre k post v where B: "map fst M = pre @ k # post" "map_of ud k = Some v" "v \<noteq> []"
      "foldl (bestRound H fld ud M) (None, 0) (map fst M) =
            (Some \<lparr>bm_key = k, bm_value = v, bm_confidence = ?sc k\<rparr>, ?sc k)"
      "0 < ?sc k"
      "\<forall>k'\<in>set pre. truthy ud k' \<longrightarrow> ?sc k' < ?sc k"
      "\<forall>k'\<in>set post. truthy ud k' \<longrightarrow> ?sc k' \<le> ?sc k"
      by auto
    have c: "c = \<lparr>bm_key = k, bm_value = v, bm_confidence = ?sc k\<rparr>"
      using B(4) assms by (simp add: findBestMatch_def)
    show ?thesis
      apply (rule exI [of _ pre], rule exI [of _ post])
      using B c by simp
  qed
qed

lemma first_of_highest_unique:
  fixes f :: "'a \<Rightarrow> int"
  assumes eq: "pre @ k # post = pre' @ k' # post'"
    and p: "P k" and p': "P k'"
    and b: "\<forall>x\<in>set pre. P x \<longrightarrow> f x < f k" and a: "\<forall>x\<in>set post. P x \<longrightarrow> f x \<le> f k"
    and b': "\<forall>x\<in>set pre'. P x \<longrightarrow> f x < f k'" and a': "\<forall>x\<in>set post'. P x \<longrightarrow> f x \<le> f k'"
  shows "pre = pre' \<and> k = k'"
proof -
  from eq consider us where "pre = pre' @ us" "us @ k # post = k' # post'"
    | us where "pre @ us = pre'" "k # post = us @ k' # post'"
    by (auto simp: append_eq_append_conv2)
  then show ?thesis
  proof cases
    case 1
    show ?thesis
    proof (cases us)
      case Nil
      then show ?thesis using 1 by simp
    next
      case (Cons u us')
      then have "k' \<in> set pre" and "k \<in> set post'" using 1 by auto
      then have "f k' < f k" and "f k \<le> f k'" using b a' p p' by blast+
      then show ?thesis by simp
    qed
  next
    case 2
    show ?thesis
    proof (cases us)
      case Nil
      then show ?thesis using 2 by simp
    next
      case (Cons u us')
      then have "k \<in> set pre'" and "k' \<in> set post" using 2 by auto
      then have "f k < f k'" and "f k' \<le> f k" using b' a p p' by blast+
      then show ?thesis by simp
    qed
  qed
qed

lemma findBestMatch_Some_iff:
  "findBestMatch H fld ud M = Some c \<longleftrightarrow>
     (\<exists>pre post. map fst M = pre @ bm_key c # post
        \<and> map_of ud (bm_key c) = Some (bm_value c) \<and> bm_value c \<noteq> []
        \<and> bm_confidence c = calculateMatchScore H fld (bm_key c) M
        \<and> 0 < bm_confidence c
        \<and> (\<forall>k\<in>set pre. truthy ud k \<longrightarrow> calculateMatchScore H fld k M < bm_confidence c)
        \<and> (\<forall>k\<in>set post. truthy ud k \<longrightarrow> calculateMatchScore H fld k M \<le> bm_confidence c))"
proof
  assume "findBestMatch H fld ud M = Some c"
  then show "\<exists>pre post. map fst M = pre @ bm_key c # post
        \<and> map_of ud (bm_key c) = Some (bm_value c) \<and> bm_value c \<noteq> []
        \<and> bm_confidence c = calculateMatchScore H fld (bm_key c) M
        \<and> 0 < bm_confidence c
        \<and> (\<forall>k\<in>set pre. truthy ud k \<longrightarrow> calculateMatchScore H fld k M < bm_confidence c)
        \<and> (\<forall>k\<in>set post. truthy ud k \<longrightarrow> calculateMatchScore H fld k M \<le> bm_confidence c)"
    by (rule findBestMatch_Some)
next
  let ?sc = "\<lambda>k. calculateMatchScore H fld k M"
  assume "\<exists>pre post. map fst M = pre @ bm_key c # post
        \<and> map_of ud (bm_key c) = Some (bm_value c) \<and> bm_value c \<noteq> []
        \<and> bm_confidence c = ?sc (bm_key c)
        \<and> 0 < bm_confidence c
        \<and> (\<forall>k\<in>set pre. truthy ud k \<longrightarrow> ?sc k < bm_confidence c)
        \<and> (\<forall>k\<in>set post. truthy ud k \<longrightarrow> ?sc k \<le> bm_confidence c)"
  then obtain pre post where P: "map fst M = pre @ bm_key c # post"
    "map_of ud (bm_key c) = Some (bm_value c)" "bm_value c \<noteq> []"
    "bm_confidence c = ?sc (bm_key c)" "0 < bm_confidence c"
    "\<forall>k\<in>set pre. truthy ud k \<longrightarrow> ?sc k < ?sc (bm_key c)"
    "\<forall>k\<in>set post. truthy ud k \<longrightarrow> ?sc k \<le> ?sc (bm_key c)"
    by auto
  have t: "truthy ud (bm_key c)" using P(2,3) by (simp add: truthy_def)
  have "bm_key c \<in> set (map fst M)" unfolding P(1) by simp
  then have "\<not> (\<forall>k\<in>set (map fst M). truthy ud k \<longrightarrow> ?sc k \<le> 0)"
    using t P(4,5) by fastforce
  then have "findBestMatch H fld ud M \<noteq> None"
    by (simp only: findBestMatch_None_iff not_False_eq_True)
  then obtain c' where c': "findBestMatch H fld ud M = Some c'" by blast
  from findBestMatch_Some [OF c']
  obtain pre' post' where Q: "map fst M = pre' @ bm_key c' # post'"
    "map_of ud (bm_key c') = Some (bm_value c')" "bm_value c' \<noteq> []"
    "bm_confidence c' = ?sc (bm_key c')"
    "\<forall>k\<in>set pre'. truthy ud k \<longrightarrow> ?sc k < bm_confidence c'"
    "\<forall>k\<in>set post'. truthy ud k \<longrightarrow> ?sc k \<le> bm_confidence c'"
    by blast
  have t': "truthy ud (bm_key c')" using Q(2,3) by (simp add: truthy_def)
  have eq: "pre @ bm_key c # post = pre' @ bm_key c' # post'" using P(1) Q(1) by simp
  have "pre = pre' \<and> bm_key c = bm_key c'"
    using first_of_highest_unique [of pre "bm_key c" post pre' "bm_key c'" post' "truthy ud" ?sc,
        OF eq t t' P(6) P(7)] Q(5,6)
    unfolding Q(4) by blast
  then have k: "bm_key c' = bm_key c" by simp
  have "bm_value c' = bm_value c" using P(2) Q(2) k by simp
  moreover have "bm_confidence c' = bm_confidence c" using P(4) Q(4) k by simp
  ultimately have "c' = c" using k by simp
  then show "findBestMatch H fld ud M = Some c" using c' by simp
qed

lemma map_of_filter_key:
  "map_of (filter (\<lambda>kv. fst kv \<noteq> k) ud) k' = (if k' = k then None else map_of ud k')"
  by (induction ud) auto

lemma bestRound_cong:
  assumes "map_of ud k = map_of ud' k \<or> (map_of ud k = Some [] \<and> map_of ud' k = None)"
  shows "bestRound H fld ud M st k = bestRound H fld ud' M st k"
  using assms by (auto simp: bestRound_def)

lemma foldl_bestRound_cong:
  assumes "\<forall>k\<in>set ks. map_of ud k = map_of ud' k \<or> (map_of ud k = Some [] \<and> map_of ud' k = None)"
  shows "foldl (bestRound H fld ud M) st ks = foldl (bestRound H fld ud' M) st ks"
  using assms
proof (induction ks arbitrary: st)
  case Nil
  show ?case by simp
next
  case (Cons k ks)
  have "bestRound H fld ud M st k = bestRound H fld ud' M st k"
    using Cons.prems by (intro bestRound_cong) simp
  then show ?case using Cons.IH Cons.prems by simp
qed

lemma findBestMatch_drop_empty:
  assumes "map_of ud k = Some []"
  shows "findBestMatch H fld ud M = findBestMatch H fld (filter (\<lambda>kv. fst kv \<noteq> k) ud) M"
proof -
  have "\<forall>k'\<in>set (map fst M). map_of ud k' = map_of (filter (\<lambda>kv. fst kv \<noteq> k) ud) k'
          \<or> (map_of ud k' = Some [] \<and> map_of (filter (\<lambda>kv. fst kv \<noteq> k) ud) k' = None)"
    using assms by (simp add: map_of_filter_key)
  then show ?thesis
    unfolding findBestMatch_def by (simp add: foldl_bestRound_cong)
qed

lemma mapFieldsToData_sources:
  assumes "m \<in> set (mapFieldsToData H flds ud M)"
  shows "\<exists>c. m_field m \<in> set flds \<and> findBestMatch H (m_field m) ud M = Some c
             \<and> m_dataField m = bm_key c \<and> m_value m = bm_value c \<and> m_confidence m = bm_confidence c"
  using assms by (auto simp: mapFieldsToData_def split: option.splits) metis

section \<open>Facts about the run\<close>

lemma detectOne_hidden:
  assumes "snd ir < length (p_elements pg) \<longrightarrow>
             \<not> (isFieldVisible (p_elements pg ! snd ir) \<and> \<not> el_disabled (p_elements pg ! snd ir)
                 \<and> \<not> el_readOnly (p_elements pg ! snd ir))"
  shows "detectOne H pg ir = []"
  using assms by (auto simp: detectOne_def Let_def)

lemma detectFields_none:
  assumes "\<forall>r\<in>set (p_scanned pg). r < length (p_elements pg) \<longrightarrow>
             \<not> (isFieldVisible (p_elements pg ! r) \<and> \<not> el_disabled (p_elements pg ! r)
                 \<and> \<not> el_readOnly (p_elements pg ! r))"
  shows "detectFields H pg = []"
proof -
  have "\<forall>ir\<in>set (enumerate 0 (p_scanned pg)). detectOne H pg ir = []"
  proof
    fix ir assume "ir \<in> set (enumerate 0 (p_scanned pg))"
    then have a: "fst ir < length (p_scanned pg)" and b: "p_scanned pg ! fst ir = snd ir"
      by (simp_all add: in_set_enumerate_eq)
    have "snd ir \<in> set (p_scanned pg)"
      using nth_mem [OF a] b by simp
    then show "detectOne H pg ir = []" using assms by (intro detectOne_hidden) blast
  qed
  then show ?thesis by (simp add: detectFields_def)
qed

lemma no_fields_message:
  "\<not> js_includes (js ''No fillable fields detected on this page'') (js ''DOM'')
   \<and> \<not> js_includes (js ''No fillable fields detected on this page'') (js ''timeout'')
   \<and> \<not> js_includes (js ''No fillable fields detected on this page'') (js ''permission'')
   \<and> \<not> js_includes (js ''No fillable fields detected on this page'') (js ''loading'')
   \<and> js_includes (js ''No fillable fields detected on this page'') (js ''No fillable fields'')"
  by code_simp

lemma performAutoFill_no_fields:
  assumes "detectFields H pg = []"
  shows "performAutoFill H now currentMappings userData pg
           = (Inl (js ''No fillable fields detected on this page''), pg)"
  using assms by (simp add: performAutoFill_def performAutoFillWith_def)

lemma attemptedCount_0 [simp]: "attemptedCount now i 0 = 0"
  by (simp add: attemptedCount_def)

lemma attemptedCount_Suc:
  "attemptedCount now i (Suc n) =
     (if now (Suc i) - now 0 \<le> fillTimeout then Suc (attemptedCount now (Suc i) n) else 0)"
proof -
  have "[i ..< i + Suc n] = i # [Suc i ..< Suc i + n]" by (simp add: upt_rec)
  then show ?thesis by (simp add: attemptedCount_def)
qed

lemma attemptedCount_le: "attemptedCount now i n \<le> n"
  unfolding attemptedCount_def
  by (metis length_takeWhile_le length_upt add_diff_cancel_left')

lemma attemptedCount_all:
  assumes "\<forall>j<n. now (Suc (i + j)) - now 0 \<le> fillTimeout"
  shows "attemptedCount now i n = n"
proof -
  have "\<forall>x\<in>set [i ..< i + n]. now (Suc x) - now 0 \<le> fillTimeout"
  proof
    fix x assume "x \<in> set [i ..< i + n]"
    then have "x - i < n" and "x = i + (x - i)" by auto
    then show "now (Suc x) - now 0 \<le> fillTimeout" using assms by metis
  qed
  then have "takeWhile (\<lambda>j. now (Suc j) - now 0 \<le> fillTimeout) [i ..< i + n] = [i ..< i + n]"
    by (simp only: takeWhile_eq_all_conv)
  then show ?thesis unfolding attemptedCount_def by (simp only: length_upt add_diff_cancel_left')
qed

lemma fillLoop_char:
  "fillLoop F now i ms st =
     (let k = attemptedCount now i (length ms);
          st' = foldl (\<lambda>s m. attemptField F m s) st (take k ms)
      in if k < length ms then markTimedOut st' else st')"
proof (induction ms arbitrary: i st)
  case Nil
  show ?case by simp
next
  case (Cons m ms)
  show ?case
  proof (cases "now (Suc i) - now 0 > fillTimeout")
    case True
    then show ?thesis by (simp add: attemptedCount_Suc markTimedOut_def)
  next
    case False
    then have "fillLoop F now i (m # ms) st = fillLoop F now (Suc i) ms (attemptField F m st)"
      by simp
    also have "\<dots> = (let k = attemptedCount now (Suc i) (length ms);
          st' = foldl (\<lambda>s m. attemptField F m s) (attemptField F m st) (take k ms)
      in if k < length ms then markTimedOut st' else st')"
      by (rule Cons.IH)
    finally show ?thesis using False by (simp add: attemptedCount_Suc Let_def)
  qed
qed

lemma attemptField_counts:
  "fieldsFilled (rs_results (attemptField F m st)) + fieldsSkipped (rs_results (attemptField F m st))
     = Suc (fieldsFilled (rs_results st) + fieldsSkipped (rs_results st))"
  by (auto simp: attemptField_def Let_def split: prod.splits sum.splits)

lemma foldl_attemptField_counts:
  "fieldsFilled (rs_results (foldl (\<lambda>s m. attemptField F m s) st ms))
     + fieldsSkipped (rs_results (foldl (\<lambda>s m. attemptField F m s) st ms))
     = fieldsFilled (rs_results st) + fieldsSkipped (rs_results st) + length ms"
proof (induction ms arbitrary: st)
  case Nil
  show ?case by simp
next
  case (Cons m ms)
  show ?case using Cons.IH [of "attemptField F m st"] attemptField_counts [of F m st] by simp
qed

lemma attemptField_failed:
  assumes "documentContains (rs_page st) (f_element (m_field m))"
    and "F m (rs_page st) = (a, pg')" and "raceFieldTimeout a = Inl msg"
  shows "rs_results (attemptField F m st)
           = (rs_results st)\<lparr>errors := errors (rs_results st)
                                  @ [(f_identifier (m_field m), recordedError msg)],
                fieldsSkipped := fieldsSkipped (rs_results st) + 1\<rparr>"
  using assms by (simp add: attemptField_def Let_def)

lemma recordedError_timeout: "recordedError (js ''Field fill timeout'') = js ''Field fill timeout''"
  by code_simp

section \<open>Properties of the matching engine\<close>

text \<open>
  C1. For every host, field descriptor and alias table, and every data key whose
  mapping has a priority \<open>p > 0\<close>: if the field's name, htmlId, label or ariaLabel is
  case-insensitively equal to an alias of the key, \<open>calculateMatchScore\<close> returns at
  least \<open>p * 10\<close> (indeed exactly \<open>p * 10\<close>); and if the smart rule is silent, no alias is
  an exact match and some alias occurs in the field's identifier, it returns exactly
  \<open>p * 8\<close>, which is less than \<open>p * 10\<close>.
\<close>

theorem calculateMatchScore_exact_over_substring:
  assumes tab: "map_of activeMappings dataKey = Some mp" and pos: "0 < priority mp"
  shows "((\<exists>a\<in>set (aliases mp). isExactMatch H fld a) \<longrightarrow>
            priority mp * 10 \<le> calculateMatchScore H fld dataKey activeMappings
            \<and> calculateMatchScore H fld dataKey activeMappings = priority mp * 10)
       \<and> ((calculateSmartMatchScore H fld dataKey mp \<le> 0
             \<and> (\<forall>a\<in>set (aliases mp). \<not> isExactMatch H fld a)
             \<and> (\<exists>a\<in>set (aliases mp). inIdentifier H fld a)) \<longrightarrow>
            calculateMatchScore H fld dataKey activeMappings = priority mp * 8
            \<and> priority mp * 8 < priority mp * 10)"
proof (intro conjI impI)
  let ?p = "priority mp"
  let ?smart = "calculateSmartMatchScore H fld dataKey mp"
  let ?s0 = "if ?smart > 0 then max 0 ?smart else 0"
  have score: "calculateMatchScore H fld dataKey activeMappings
                 = foldl (aliasRound H fld ?p) ?s0 (aliases mp)"
    by (simp add: calculateMatchScore_def tab Let_def)
  have s0_le: "?s0 \<le> ?p * 10" using smart_le9 [OF pos, of H fld dataKey] pos by auto
  {
    assume "\<exists>a\<in>set (aliases mp). isExactMatch H fld a"
    then obtain a where a: "a \<in> set (aliases mp)" "isExactMatch H fld a" by blast
    have lo: "?p * 10 \<le> foldl (aliasRound H fld ?p) ?s0 (aliases mp)"
      by (rule foldl_aliasRound_exact [OF a])
    have hi: "foldl (aliasRound H fld ?p) ?s0 (aliases mp) \<le> ?p * 10"
      by (rule foldl_aliasRound_le10 [OF pos s0_le])
    show "?p * 10 \<le> calculateMatchScore H fld dataKey activeMappings"
      using lo score by simp
    show "calculateMatchScore H fld dataKey activeMappings = ?p * 10"
      using lo hi score by simp
  }
  {
    assume h: "?smart \<le> 0 \<and> (\<forall>a\<in>set (aliases mp). \<not> isExactMatch H fld a)
                 \<and> (\<exists>a\<in>set (aliases mp). inIdentifier H fld a)"
    then obtain a where a: "a \<in> set (aliases mp)" "inIdentifier H fld a" by blast
    have na: "\<not> isExactMatch H fld a" using h a(1) by blast
    have s0: "?s0 \<le> ?p * 8" using h pos by auto
    have lo: "?p * 8 \<le> foldl (aliasRound H fld ?p) ?s0 (aliases mp)"
      by (rule foldl_aliasRound_identifier [OF a na])
    have hi: "foldl (aliasRound H fld ?p) ?s0 (aliases mp) \<le> ?p * 8"
      using foldl_aliasRound_le8 [OF pos s0] h by blast
    show "calculateMatchScore H fld dataKey activeMappings = ?p * 8"
      using lo hi score by simp
    show "?p * 8 < ?p * 10" using pos by simp
  }
qed

theorem calculateMatchScore_exact_over_substring_witness:
  "map_of defaultMappings (js ''email'') = Some emailMapping
   \<and> 0 < priority emailMapping
   \<and> isExactMatch ascii_host emailField (js ''email'')
   \<and> calculateMatchScore ascii_host emailField (js ''email'') defaultMappings = 100
   \<and> map_of defaultMappings (js ''city'') = Some cityMapping
   \<and> 0 < priority cityMapping
   \<and> calculateSmartMatchScore ascii_host homeCityField (js ''city'') cityMapping = 0
   \<and> list_all (\<lambda>a. \<not> isExactMatch ascii_host homeCityField a) (aliases cityMapping)
   \<and> inIdentifier ascii_host homeCityField (js ''city'')
   \<and> calculateMatchScore ascii_host homeCityField (js ''city'') defaultMappings = 72"
proof -
  have w1: "map_of defaultMappings (js ''email'') = Some emailMapping"
    by (simp add: defaultMappings_def emailMapping_def js_def)
  have w2: "map_of defaultMappings (js ''city'') = Some cityMapping"
    by (simp add: defaultMappings_def cityMapping_def js_def)
  have w3: "isExactMatch ascii_host emailField (js ''email'')"
    by (simp add: isExactMatch_def ascii_host_def emailField_def namedField_def js_def
        asciiLower_def)
  have w4: "calculateSmartMatchScore ascii_host homeCityField (js ''city'') cityMapping = 0"
    by (simp add: calculateSmartMatchScore_def js_def)
  have w5: "inIdentifier ascii_host homeCityField (js ''city'')"
    by (simp add: inIdentifier_def ascii_host_def homeCityField_def namedField_def js_def
        asciiLower_def)
  have w6: "\<forall>a\<in>set (aliases cityMapping). \<not> isExactMatch ascii_host homeCityField a"
    by (simp add: isExactMatch_def ascii_host_def homeCityField_def namedField_def
        cityMapping_def js_def asciiLower_def)
  have p1: "0 < priority emailMapping" by (simp add: emailMapping_def)
  have p2: "0 < priority cityMapping" by (simp add: cityMapping_def)
  have a1: "js ''email'' \<in> set (aliases emailMapping)" by (simp add: emailMapping_def)
  have a2: "js ''city'' \<in> set (aliases cityMapping)" by (simp add: cityMapping_def)
  have s1: "calculateMatchScore ascii_host emailField (js ''email'') defaultMappings = 100"
    using calculateMatchScore_exact_over_substring [OF w1 p1, of ascii_host emailField] a1 w3
    by (auto simp: emailMapping_def)
  have s2: "calculateMatchScore ascii_host homeCityField (js ''city'') defaultMappings = 72"
    using calculateMatchScore_exact_over_substring [OF w2 p2, of ascii_host homeCityField]
      a2 w4 w5 w6
    by (auto simp: cityMapping_def)
  show ?thesis using w1 w2 w3 w4 w5 w6 p1 p2 s1 s2 by (simp add: list_all_iff)
qed

text \<open>
  C8. A data key whose value in the record is the empty string is never considered by
  \<open>findBestMatch\<close>: the result is the one for the record without that key. So a field
  all of whose scoring keys have the empty string as value gets no candidate; a
  candidate's value is the record's non-empty value for its key; and no candidate
  produced by \<open>mapFieldsToData\<close> carries an empty value.
\<close>

theorem findBestMatch_skips_empty_values:
  "(map_of userData k = Some [] \<longrightarrow>
      findBestMatch H fld userData activeMappings
        = findBestMatch H fld (filter (\<lambda>kv. fst kv \<noteq> k) userData) activeMappings)
   \<and> ((\<forall>k\<in>set (map fst activeMappings).
          0 < calculateMatchScore H fld k activeMappings \<longrightarrow> map_of userData k = Some [])
        \<longrightarrow> findBestMatch H fld userData activeMappings = None)
   \<and> (\<forall>c. findBestMatch H fld userData activeMappings = Some c \<longrightarrow>
          bm_value c \<noteq> [] \<and> map_of userData (bm_key c) = Some (bm_value c))
   \<and> (\<forall>m\<in>set (mapFieldsToData H flds userData activeMappings). m_value m \<noteq> [])"
proof (intro conjI impI allI ballI)
  assume "map_of userData k = Some []"
  then show "findBestMatch H fld userData activeMappings
        = findBestMatch H fld (filter (\<lambda>kv. fst kv \<noteq> k) userData) activeMappings"
    by (rule findBestMatch_drop_empty)
next
  assume h: "\<forall>k\<in>set (map fst activeMappings).
          0 < calculateMatchScore H fld k activeMappings \<longrightarrow> map_of userData k = Some []"
  have "\<forall>k\<in>set (map fst activeMappings).
          truthy userData k \<longrightarrow> calculateMatchScore H fld k activeMappings \<le> 0"
  proof (intro ballI impI)
    fix k assume k: "k \<in> set (map fst activeMappings)" and t: "truthy userData k"
    have "map_of userData k \<noteq> Some []" using t by (auto simp: truthy_def)
    then show "calculateMatchScore H fld k activeMappings \<le> 0" using h k by fastforce
  qed
  then show "findBestMatch H fld userData activeMappings = None"
    by (simp only: findBestMatch_None_iff)
next
  fix c assume "findBestMatch H fld userData activeMappings = Some c"
  from findBestMatch_Some [OF this]
  show "bm_value c \<noteq> []" and "map_of userData (bm_key c) = Some (bm_value c)" by blast+
next
  fix m assume "m \<in> set (mapFieldsToData H flds userData activeMappings)"
  from mapFieldsToData_sources [OF this]
  obtain c where c: "findBestMatch H (m_field m) userData activeMappings = Some c"
    "m_value m = bm_value c" by blast
  from findBestMatch_Some [OF c(1)] c(2) show "m_value m \<noteq> []" by auto
qed

theorem findBestMatch_skips_empty_values_witness:
  "map_of annData (js ''email'') = Some []
   \<and> filter (\<lambda>kv. fst kv \<noteq> js ''email'') annData = [(js ''fullName'', js ''Ann'')]
   \<and> findBestMatch ascii_host emailField annData contactTable
        = findBestMatch ascii_host emailField [(js ''fullName'', js ''Ann'')] contactTable
   \<and> calculateMatchScore ascii_host emailField (js ''email'') contactTable = 100
   \<and> findBestMatch ascii_host emailField annData contactTable = None
   \<and> findBestMatch ascii_host nameField annData contactTable
        = Some \<lparr>bm_key = js ''fullName'', bm_value = js ''Ann'', bm_confidence = 100\<rparr>
   \<and> js ''Ann'' \<noteq> []
   \<and> map m_value (mapFieldsToData ascii_host [emailField, nameField] annData contactTable)
        = [js ''Ann'']"
proof -
  have e: "map_of annData (js ''email'') = Some []"
    by (simp add: annData_def js_def)
  have f: "filter (\<lambda>kv. fst kv \<noteq> js ''email'') annData = [(js ''fullName'', js ''Ann'')]"
    by (simp add: annData_def js_def)
  have s1: "calculateMatchScore ascii_host emailField (js ''email'') contactTable = 100"
    by code_simp
  have s2: "calculateMatchScore ascii_host emailField (js ''fullName'') contactTable = 0"
    by code_simp
  have n: "findBestMatch ascii_host nameField annData contactTable
        = Some \<lparr>bm_key = js ''fullName'', bm_value = js ''Ann'', bm_confidence = 100\<rparr>"
    by code_simp
  note T = findBestMatch_skips_empty_values
    [of annData "js ''email''" ascii_host emailField contactTable "[emailField, nameField]"]
  have d: "findBestMatch ascii_host emailField annData contactTable
        = findBestMatch ascii_host emailField [(js ''fullName'', js ''Ann'')] contactTable"
    using T e f by simp
  have "\<forall>k\<in>set (map fst contactTable).
          0 < calculateMatchScore ascii_host emailField k contactTable \<longrightarrow>
          map_of annData k = Some []"
    using s1 s2 e by (simp add: contactTable_def)
  then have z: "findBestMatch ascii_host emailField annData contactTable = None"
    using T by blast
  have ms: "map m_value (mapFieldsToData ascii_host [emailField, nameField] annData contactTable)
        = [js ''Ann'']"
    by (simp add: mapFieldsToData_def z n)
  have "js ''Ann'' \<noteq> []" by (simp add: js_def)
  then show ?thesis using e f d s1 z n ms by simp
qed

text \<open>
  C9. \<open>findBestMatch\<close> is a function of its arguments, and it breaks ties by the order
  of the table's keys. It produces the candidate \<open>c\<close> exactly when the key of \<open>c\<close>
  stands in the key enumeration of the active table, is present in the record with the
  non-empty value of \<open>c\<close>, scores the positive confidence of \<open>c\<close>, every present key
  that comes earlier in the enumeration scores strictly less and every present key that
  comes later scores at most as much. In particular, when two present keys share the
  highest score, which is above zero, and no present key before the first of them
  reaches it, a candidate is produced and it carries the first of the two, with its
  value in the record and that score.
\<close>

theorem findBestMatch_first_of_highest:
  "(findBestMatch H fld userData activeMappings = Some c \<longleftrightarrow>
      (\<exists>pre post. map fst activeMappings = pre @ bm_key c # post
         \<and> map_of userData (bm_key c) = Some (bm_value c) \<and> bm_value c \<noteq> []
         \<and> bm_confidence c = calculateMatchScore H fld (bm_key c) activeMappings
         \<and> 0 < bm_confidence c
         \<and> (\<forall>k\<in>set pre. truthy userData k \<longrightarrow>
               calculateMatchScore H fld k activeMappings < bm_confidence c)
         \<and> (\<forall>k\<in>set post. truthy userData k \<longrightarrow>
               calculateMatchScore H fld k activeMappings \<le> bm_confidence c)))
   \<and> (map fst activeMappings = before @ k1 # between @ k2 # after
        \<and> truthy userData k1 \<and> truthy userData k2
        \<and> 0 < calculateMatchScore H fld k1 activeMappings
        \<and> calculateMatchScore H fld k2 activeMappings = calculateMatchScore H fld k1 activeMappings
        \<and> (\<forall>k\<in>set before. truthy userData k \<longrightarrow>
              calculateMatchScore H fld k activeMappings < calculateMatchScore H fld k1 activeMappings)
        \<and> (\<forall>k\<in>set (between @ after). truthy userData k \<longrightarrow>
              calculateMatchScore H fld k activeMappings \<le> calculateMatchScore H fld k1 activeMappings)
      \<longrightarrow> (\<exists>v. map_of userData k1 = Some v
             \<and> findBestMatch H fld userData activeMappings
                 = Some \<lparr>bm_key = k1, bm_value = v,
                          bm_confidence = calculateMatchScore H fld k1 activeMappings\<rparr>))"
proof (intro conjI impI)
  show "findBestMatch H fld userData activeMappings = Some c \<longleftrightarrow>
      (\<exists>pre post. map fst activeMappings = pre @ bm_key c # post
         \<and> map_of userData (bm_key c) = Some (bm_value c) \<and> bm_value c \<noteq> []
         \<and> bm_confidence c = calculateMatchScore H fld (bm_key c) activeMappings
         \<and> 0 < bm_confidence c
         \<and> (\<forall>k\<in>set pre. truthy userData k \<longrightarrow>
               calculateMatchScore H fld k activeMappings < bm_confidence c)
         \<and> (\<forall>k\<in>set post. truthy userData k \<longrightarrow>
               calculateMatchScore H fld k activeMappings \<le> bm_confidence c))"
    by (rule findBestMatch_Some_iff)
next
  let ?sc = "\<lambda>k. calculateMatchScore H fld k activeMappings"
  assume a: "map fst activeMappings = before @ k1 # between @ k2 # after
        \<and> truthy userData k1 \<and> truthy userData k2
        \<and> 0 < ?sc k1 \<and> ?sc k2 = ?sc k1
        \<and> (\<forall>k\<in>set before. truthy userData k \<longrightarrow> ?sc k < ?sc k1)
        \<and> (\<forall>k\<in>set (between @ after). truthy userData k \<longrightarrow> ?sc k \<le> ?sc k1)"
  then obtain v where v: "map_of userData k1 = Some v" "v \<noteq> []"
    by (auto simp: truthy_def split: option.splits)
  let ?c = "\<lparr>bm_key = k1, bm_value = v, bm_confidence = ?sc k1\<rparr>"
  have later: "\<forall>k\<in>set (between @ k2 # after). truthy userData k \<longrightarrow> ?sc k \<le> ?sc k1"
    using a by auto
  have "\<exists>pre post. map fst activeMappings = pre @ bm_key ?c # post
         \<and> map_of userData (bm_key ?c) = Some (bm_value ?c) \<and> bm_value ?c \<noteq> []
         \<and> bm_confidence ?c = ?sc (bm_key ?c)
         \<and> 0 < bm_confidence ?c
         \<and> (\<forall>k\<in>set pre. truthy userData k \<longrightarrow> ?sc k < bm_confidence ?c)
         \<and> (\<forall>k\<in>set post. truthy userData k \<longrightarrow> ?sc k \<le> bm_confidence ?c)"
    apply (rule exI [of _ before], rule exI [of _ "between @ k2 # after"])
    using a v later by simp
  then have "findBestMatch H fld userData activeMappings = Some ?c"
    by (simp only: findBestMatch_Some_iff)
  then show "\<exists>v. map_of userData k1 = Some v
             \<and> findBestMatch H fld userData activeMappings
                 = Some \<lparr>bm_key = k1, bm_value = v, bm_confidence = ?sc k1\<rparr>"
    using v(1) by blast
qed

theorem findBestMatch_first_of_highest_witness:
  "map fst phoneTable = [js ''phone'', js ''mobile'']
   \<and> map_of phoneData (js ''phone'') = Some (js ''111'')
   \<and> truthy phoneData (js ''phone'') \<and> truthy phoneData (js ''mobile'')
   \<and> calculateMatchScore ascii_host mobileField (js ''phone'') phoneTable = 90
   \<and> calculateMatchScore ascii_host mobileField (js ''mobile'') phoneTable = 90
   \<and> findBestMatch ascii_host mobileField phoneData phoneTable
       = Some \<lparr>bm_key = js ''phone'', bm_value = js ''111'', bm_confidence = 90\<rparr>"
proof -
  let ?sc = "\<lambda>k. calculateMatchScore ascii_host mobileField k phoneTable"
  have k: "map fst phoneTable = [] @ js ''phone'' # [] @ js ''mobile'' # []"
    by (simp add: phoneTable_def)
  have v: "map_of phoneData (js ''phone'') = Some (js ''111'')"
    by (simp add: phoneData_def js_def)
  have t: "truthy phoneData (js ''phone'') \<and> truthy phoneData (js ''mobile'')"
    by (simp add: truthy_def phoneData_def js_def)
  have p: "?sc (js ''phone'') = 90" by code_simp
  have m: "?sc (js ''mobile'') = 90" by code_simp
  have h: "map fst phoneTable = [] @ js ''phone'' # [] @ js ''mobile'' # []
        \<and> truthy phoneData (js ''phone'') \<and> truthy phoneData (js ''mobile'')
        \<and> 0 < ?sc (js ''phone'') \<and> ?sc (js ''mobile'') = ?sc (js ''phone'')
        \<and> (\<forall>k\<in>set []. truthy phoneData k \<longrightarrow> ?sc k < ?sc (js ''phone''))
        \<and> (\<forall>k\<in>set ([] @ []). truthy phoneData k \<longrightarrow> ?sc k \<le> ?sc (js ''phone''))"
    using k t p m by simp
  from findBestMatch_first_of_highest
    [of ascii_host mobileField phoneData phoneTable _ "[]" "js ''phone''" "[]" "js ''mobile''" "[]"] h
  have "\<exists>v. map_of phoneData (js ''phone'') = Some v
          \<and> findBestMatch ascii_host mobileField phoneData phoneTable
              = Some \<lparr>bm_key = js ''phone'', bm_value = v, bm_confidence = ?sc (js ''phone'')\<rparr>"
    by blast
  then have "findBestMatch ascii_host mobileField phoneData phoneTable
       = Some \<lparr>bm_key = js ''phone'', bm_value = js ''111'', bm_confidence = 90\<rparr>"
    using v p by auto
  moreover have "map fst phoneTable = [js ''phone'', js ''mobile'']"
    by (simp add: phoneTable_def)
  ultimately show ?thesis using v t p m by simp
qed

section \<open>Properties of the fill strategies\<close>

text \<open>
  C3, as the code has it. When a text-like or textarea control that accepts focus
  declares a positive \<open>maxLength\<close> smaller than the length of the trimmed value, the
  fill assigns exactly the first \<open>maxLength\<close> code units of the trimmed value to the
  control's \<open>value\<close> and returns \<open>true\<close>; the control then holds what its value setter
  makes of the assigned text. The truncation warning goes to the console only: in the
  run the field is counted as filled, and the \<open>warnings\<close> list of the result is left
  as it was. When the control does not accept focus, the fill throws and leaves the
  control alone.
\<close>

theorem truncation_logged_not_recorded:
  assumes pos: "0 < el_maxLength e"
    and long: "el_maxLength e < int (length (trim v))"
    and kind: "isTextLikeType (f_type (m_field m)) \<or> f_type (m_field m) = js ''textarea''"
    and val: "m_value m = v"
    and r: "f_element (m_field m) < length (p_elements (rs_page st))"
    and e: "p_elements (rs_page st) ! f_element (m_field m) = e"
    and ok: "el_attached e" "\<not> el_disabled e" "\<not> el_readOnly e" "el_width e \<noteq> 0" "el_height e \<noteq> 0"
  shows "(el_focusable e \<longrightarrow>
          fillTextField H e v
            = (Inr True, assignValue H e (take (nat (el_maxLength e)) (trim v)),
               [WarnTruncated (el_maxLength e)])
          \<and> fillTextareaField H e v
            = (Inr True, assignValue H e (take (nat (el_maxLength e)) (trim v)),
               [WarnTextareaTruncated (el_maxLength e)])
          \<and> rs_results (attemptField (autoFiller H) m st)
            = (rs_results st)\<lparr>fieldsFilled := fieldsFilled (rs_results st) + 1\<rparr>
          \<and> warnings (rs_results (attemptField (autoFiller H) m st)) = warnings (rs_results st)
          \<and> p_elements (rs_page (attemptField (autoFiller H) m st)) ! f_element (m_field m)
            = assignValue H (e\<lparr>el_filling := True\<rparr>) (take (nat (el_maxLength e)) (trim v))
          \<and> el_value (p_elements (rs_page (attemptField (autoFiller H) m st)) ! f_element (m_field m))
            = valueSanitization H (e\<lparr>el_filling := True\<rparr>) (take (nat (el_maxLength e)) (trim v))
          \<and> p_console (rs_page (attemptField (autoFiller H) m st))
            = p_console (rs_page st)
              @ [if f_type (m_field m) = js ''textarea'' then WarnTextareaTruncated (el_maxLength e)
                 else WarnTruncated (el_maxLength e)])
       \<and> (\<not> el_focusable e \<longrightarrow>
          fillTextField H e v
            = (Inl (js ''Text field fill failed: '' @ js ''Could not focus on text field''), e, [])
          \<and> fillTextareaField H e v
            = (Inl (js ''Textarea field fill failed: '' @ js ''Could not focus on textarea field''),
               e, []))"
proof (intro conjI impI)
  assume "\<not> el_focusable e"
  then show "fillTextField H e v
            = (Inl (js ''Text field fill failed: '' @ js ''Could not focus on text field''), e, [])"
    and "fillTextareaField H e v
            = (Inl (js ''Textarea field fill failed: '' @ js ''Could not focus on textarea field''),
               e, [])"
    by (simp_all add: fillTextField_unfocusable fillTextareaField_unfocusable)
next
  assume focus: "el_focusable e"
  let ?n = "el_maxLength e"
  let ?cut = "take (nat ?n) (trim v)"
  let ?ef = "e\<lparr>el_filling := True\<rparr>"
  let ?w = "if f_type (m_field m) = js ''textarea'' then WarnTextareaTruncated ?n else WarnTruncated ?n"
  have fit: "fitMaxLength e (trim v) = ?cut" using pos long by (simp add: fitMaxLength_def)
  have t1: "fillTextField H e v = (Inr True, assignValue H e ?cut, [WarnTruncated ?n])"
    using fillTextField_focusable [OF focus, of H v] pos long fit by simp
  have t2: "fillTextareaField H e v = (Inr True, assignValue H e ?cut, [WarnTextareaTruncated ?n])"
    using fillTextareaField_focusable [OF focus, of H v] pos long fit by simp
  have focus': "el_focusable ?ef" using focus by simp
  have fit': "fitMaxLength ?ef (trim v) = ?cut" using pos long by (simp add: fitMaxLength_def)
  have f1: "fillTextField H ?ef v = (Inr True, assignValue H ?ef ?cut, [WarnTruncated ?n])"
    using fillTextField_focusable [OF focus', of H v] pos long fit' by simp
  have f2: "fillTextareaField H ?ef v = (Inr True, assignValue H ?ef ?cut, [WarnTextareaTruncated ?n])"
    using fillTextareaField_focusable [OF focus', of H v] pos long fit' by simp
  have out: "setFieldValue H ?ef (m_value m) (f_type (m_field m))
               = (Inr True, assignValue H ?ef ?cut, [?w])"
  proof (cases "f_type (m_field m) = js ''textarea''")
    case True
    then show ?thesis using setFieldValue_textarea [of H ?ef v] f2 val by (simp add: rethrow_def)
  next
    case False
    then have "isTextLikeType (f_type (m_field m))" using kind by simp
    then show ?thesis
      using setFieldValue_textLike [of "f_type (m_field m)" H ?ef v] f1 val False
      by (simp add: rethrow_def)
  qed
  have run: "attemptField (autoFiller H) m st =
     \<lparr>rs_page = storeElement (rs_page st) (f_element (m_field m)) (assignValue H ?ef ?cut) [?w],
      rs_results = (rs_results st)\<lparr>fieldsFilled := fieldsFilled (rs_results st) + 1\<rparr>\<rparr>"
    using attemptField_autoFiller [OF r e ok out] by simp
  have held: "el_value (assignValue H ?ef ?cut) = valueSanitization H ?ef ?cut"
    by (simp add: assignValue_def)
  show "fillTextField H e v = (Inr True, assignValue H e ?cut, [WarnTruncated ?n])"
    by (rule t1)
  show "fillTextareaField H e v = (Inr True, assignValue H e ?cut, [WarnTextareaTruncated ?n])"
    by (rule t2)
  show "rs_results (attemptField (autoFiller H) m st)
            = (rs_results st)\<lparr>fieldsFilled := fieldsFilled (rs_results st) + 1\<rparr>"
    by (simp add: run)
  show "warnings (rs_results (attemptField (autoFiller H) m st)) = warnings (rs_results st)"
    by (simp add: run)
  show "p_elements (rs_page (attemptField (autoFiller H) m st)) ! f_element (m_field m)
            = assignValue H ?ef ?cut"
    using r by (simp add: run storeElement_def)
  show "el_value (p_elements (rs_page (attemptField (autoFiller H) m st)) ! f_element (m_field m))
            = valueSanitization H ?ef ?cut"
    using r held by (simp add: run storeElement_def)
  show "p_console (rs_page (attemptField (autoFiller H) m st)) = p_console (rs_page st) @ [?w]"
    by (simp add: run storeElement_def)
qed

theorem truncation_logged_not_recorded_witness:
  "el_focusable zipInput \<and> 0 < el_maxLength zipInput
   \<and> el_maxLength zipInput < int (length (trim (js ''123456789012'')))
   \<and> isTextLikeType (f_type (m_field zipCandidate))
   \<and> fillTextField zipHost zipInput (js ''123456789012'')
        = (Inr True, zipInput\<lparr>el_value := js ''12345''\<rparr>, [WarnTruncated 5])
   \<and> rs_results (attemptField (autoFiller zipHost) zipCandidate zipState)
        = (freshResults 1)\<lparr>fieldsFilled := 1\<rparr>
   \<and> warnings (rs_results (attemptField (autoFiller zipHost) zipCandidate zipState)) = []
   \<and> el_value (p_elements (rs_page (attemptField (autoFiller zipHost) zipCandidate zipState)) ! 0)
        = js ''12345''
   \<and> p_console (rs_page (attemptField (autoFiller zipHost) zipCandidate zipState))
        = [WarnTruncated 5]
   \<and> fst (fillTextField zipHost (zipInput\<lparr>el_focusable := False\<rparr>) (js ''123456789012''))
        = Inl (js ''Text field fill failed: Could not focus on text field'')"
proof -
  have t: "trim (js ''123456789012'') = js ''123456789012''" by code_simp
  have c: "take 5 (js ''123456789012'') = js ''12345''" by (simp add: js_def)
  have l: "length (js ''123456789012'') = 12" by (simp add: js_def)
  have h1: "el_focusable zipInput" and h2: "0 < el_maxLength zipInput"
    and n: "el_maxLength zipInput = 5"
    by (simp_all add: zipInput_def plainInput_def)
  have h3: "el_maxLength zipInput < int (length (trim (js ''123456789012'')))"
    by (simp add: t l n)
  have ty: "f_type (m_field zipCandidate) = js ''text''"
    by (simp add: zipCandidate_def zipField_def namedField_def)
  have h4: "isTextLikeType (f_type (m_field zipCandidate))
              \<or> f_type (m_field zipCandidate) = js ''textarea''"
    unfolding ty by (simp add: isTextLikeType_def js_def)
  have h5: "m_value zipCandidate = js ''123456789012''" by (simp add: zipCandidate_def)
  have el: "f_element (m_field zipCandidate) = 0"
    by (simp add: zipCandidate_def zipField_def namedField_def)
  have h6: "f_element (m_field zipCandidate) < length (p_elements (rs_page zipState))"
    by (simp add: el zipState_def zipPage_def)
  have h7: "p_elements (rs_page zipState) ! f_element (m_field zipCandidate) = zipInput"
    by (simp add: el zipState_def zipPage_def)
  have h8: "el_attached zipInput" "\<not> el_disabled zipInput" "\<not> el_readOnly zipInput"
    "el_width zipInput \<noteq> 0" "el_height zipInput \<noteq> 0"
    by (simp_all add: zipInput_def plainInput_def)
  have nt: "f_type (m_field zipCandidate) \<noteq> js ''textarea''"
    unfolding ty by (simp add: js_def)
  have a1: "assignValue zipHost zipInput (js ''12345'') = zipInput\<lparr>el_value := js ''12345''\<rparr>"
    by code_simp
  have a2: "valueSanitization zipHost (zipInput\<lparr>el_filling := True\<rparr>) (js ''12345'') = js ''12345''"
    by code_simp
  have a3: "assignValue zipHost (zipInput\<lparr>el_filling := True\<rparr>) (js ''12345'')
             = zipInput\<lparr>el_value := js ''12345'', el_filling := True\<rparr>"
    by code_simp
  let ?u = "zipInput\<lparr>el_focusable := False\<rparr>"
  let ?st = "zipState\<lparr>rs_page := zipPage\<lparr>p_elements := [?u]\<rparr>\<rparr>"
  have u2: "0 < el_maxLength ?u" using h2 by simp
  have u3: "el_maxLength ?u < int (length (trim (js ''123456789012'')))" using h3 by simp
  have u6: "f_element (m_field zipCandidate) < length (p_elements (rs_page ?st))"
    by (simp add: el)
  have u7: "p_elements (rs_page ?st) ! f_element (m_field zipCandidate) = ?u"
    by (simp add: el)
  have u8: "el_attached ?u" "\<not> el_disabled ?u" "\<not> el_readOnly ?u"
    "el_width ?u \<noteq> 0" "el_height ?u \<noteq> 0"
    using h8 by simp_all
  have msg: "js ''Text field fill failed: '' @ js ''Could not focus on text field''
       = js ''Text field fill failed: Could not focus on text field''"
    by (simp add: js_def)
  from truncation_logged_not_recorded [OF u2 u3 h4 h5 u6 u7 u8, of zipHost]
  have "fillTextField zipHost ?u (js ''123456789012'')
          = (Inl (js ''Text field fill failed: '' @ js ''Could not focus on text field''), ?u, [])"
    by simp
  then have thrown: "fst (fillTextField zipHost ?u (js ''123456789012''))
        = Inl (js ''Text field fill failed: Could not focus on text field'')"
    unfolding msg by simp
  from truncation_logged_not_recorded [OF h2 h3 h4 h5 h6 h7 h8, of zipHost]
  show ?thesis
    using h1 h2 h3 h4 nt thrown
    by (simp add: t c n el a1 a2 a3 zipState_def zipPage_def freshResults_def)
qed

text \<open>
  The claim as stated asks for a truncation warning in the \<open>warnings\<close> list of the
  run's result, and has the first \<open>maxLength\<close> characters stored on every such
  control. Scenario B of the specification, run: the value is cut to \<open>12345\<close>, the
  console has the warning, and the result's \<open>warnings\<close> list is empty. The same input
  when it does not accept focus: the fill throws and stores nothing. The same input
  filled with \<open>12\<close>, a line feed and \<open>3456789\<close>: the first five code units of the
  trimmed value are assigned, and the text input, which drops line breaks, holds
  \<open>1234\<close>.
\<close>

theorem truncation_warning_counterexample:
  "fst (performAutoFill zipHost (\<lambda>i. 0) [] zipData zipPage)
     = Inr \<lparr>fieldsDetected = 1, fieldsFilled = 1, fieldsSkipped = 0, errors = [], warnings = []\<rparr>
   \<and> p_elements (snd (performAutoFill zipHost (\<lambda>i. 0) [] zipData zipPage))
     = [zipInput\<lparr>el_value := js ''12345'', el_filling := True\<rparr>]
   \<and> p_console (snd (performAutoFill zipHost (\<lambda>i. 0) [] zipData zipPage)) = [WarnTruncated 5]
   \<and> fillTextField ascii_host (zipInput\<lparr>el_focusable := False\<rparr>) (js ''123456789012'')
     = (Inl (js ''Text field fill failed: Could not focus on text field''),
        zipInput\<lparr>el_focusable := False\<rparr>, [])
   \<and> take 5 (trim brokenZip) = js ''12'' @ [0xA] @ js ''34''
   \<and> fillTextField ascii_host zipInput brokenZip
     = (Inr True, zipInput\<lparr>el_value := js ''1234''\<rparr>, [WarnTruncated 5])"
proof -
  have a: "fillTextField ascii_host (zipInput\<lparr>el_focusable := False\<rparr>) (js ''123456789012'')
     = (Inl (js ''Text field fill failed: Could not focus on text field''),
        zipInput\<lparr>el_focusable := False\<rparr>, [])"
    by code_simp
  have b: "take 5 (trim brokenZip) = js ''12'' @ [0xA] @ js ''34''"
    by code_simp
  have c: "fillTextField ascii_host zipInput brokenZip
     = (Inr True, zipInput\<lparr>el_value := js ''1234''\<rparr>, [WarnTruncated 5])"
    by code_simp
  show ?thesis
    unfolding a b c
    by (simp add: performAutoFill_def performAutoFillWith_def zip_detected zip_mapped Let_def
        fillTimeout_def zip_attempt)
qed

text \<open>
  C4, as the code has it by design. \<open>fillNumberField\<close> returns \<open>false\<close>, and leaves the
  control alone, for every value that parses to NaN or whose parsed value lies below
  the parsed \<open>min\<close> or above the parsed \<open>max\<close> of the control; in the run that result
  is a skip with a \<open>Could not fill field\<close> warning and no entry in \<open>errors\<close>. For every
  value that parses to a finite number within the bounds: on a control that accepts
  focus it hands the stringified parsed number to the text-like fill, which assigns it,
  cut to a positive \<open>maxLength\<close> that is shorter, and returns \<open>true\<close>, and the run
  counts the field as filled; on a control that does not accept focus it throws and
  leaves the control alone. The statement is silent on a value that parses to an
  infinity and meets no bound.
\<close>

theorem fillNumberField_rejects_or_stores:
  assumes kind: "f_type (m_field m) = js ''number''" and val: "m_value m = v"
    and r: "f_element (m_field m) < length (p_elements (rs_page st))"
    and e: "p_elements (rs_page st) ! f_element (m_field m) = e"
    and ok: "el_attached e" "\<not> el_disabled e" "\<not> el_readOnly e" "el_width e \<noteq> 0" "el_height e \<noteq> 0"
  shows "(numberRejected H e v \<longrightarrow>
            fst (fillNumberField H e v) = Inr False
            \<and> fst (snd (fillNumberField H e v)) = e
            \<and> rs_results (attemptField (autoFiller H) m st)
                = (rs_results st)\<lparr>fieldsSkipped := fieldsSkipped (rs_results st) + 1,
                     warnings := warnings (rs_results st)
                        @ [js ''Could not fill field: '' @ f_identifier (m_field m)]\<rparr>
            \<and> errors (rs_results (attemptField (autoFiller H) m st)) = errors (rs_results st))
       \<and> (\<not> numberRejected H e v \<and> parseFloat H v = Finite q \<and> el_focusable e \<longrightarrow>
            fst (fillNumberField H e v) = Inr True
            \<and> fst (snd (fillNumberField H e v))
                = assignValue H e (fitMaxLength e (trim (numberToString H (Finite q))))
            \<and> rs_results (attemptField (autoFiller H) m st)
                = (rs_results st)\<lparr>fieldsFilled := fieldsFilled (rs_results st) + 1\<rparr>)
       \<and> (\<not> numberRejected H e v \<and> parseFloat H v = Finite q \<and> \<not> el_focusable e \<longrightarrow>
            fillNumberField H e v
              = (Inl (js ''Number field fill failed: '' @ js ''Text field fill failed: ''
                      @ js ''Could not focus on text field''), e, []))"
proof (intro conjI impI)
  assume rej: "numberRejected H e v"
  show "fst (fillNumberField H e v) = Inr False" and "fst (snd (fillNumberField H e v)) = e"
    using fillNumberField_rejected [OF rej] by simp_all
  let ?ef = "e\<lparr>el_filling := True\<rparr>"
  have rej': "numberRejected H ?ef v" using rej by simp
  obtain c where o: "fillNumberField H ?ef v = (Inr False, ?ef, c)"
    using fillNumberField_rejected [OF rej'] by (cases "fillNumberField H ?ef v") auto
  have out: "setFieldValue H ?ef (m_value m) (f_type (m_field m)) = (Inr False, ?ef, c)"
    using setFieldValue_number [of H ?ef v] o kind val by (simp add: rethrow_def)
  have run: "attemptField (autoFiller H) m st =
     \<lparr>rs_page = storeElement (rs_page st) (f_element (m_field m)) ?ef c,
      rs_results = (rs_results st)\<lparr>fieldsSkipped := fieldsSkipped (rs_results st) + 1,
                warnings := warnings (rs_results st)
                   @ [js ''Could not fill field: '' @ f_identifier (m_field m)]\<rparr>\<rparr>"
    using attemptField_autoFiller [OF r e ok out] by simp
  show "rs_results (attemptField (autoFiller H) m st)
          = (rs_results st)\<lparr>fieldsSkipped := fieldsSkipped (rs_results st) + 1,
               warnings := warnings (rs_results st)
                  @ [js ''Could not fill field: '' @ f_identifier (m_field m)]\<rparr>"
    by (simp add: run)
  show "errors (rs_results (attemptField (autoFiller H) m st)) = errors (rs_results st)"
    by (simp add: run)
next
  assume a: "\<not> numberRejected H e v \<and> parseFloat H v = Finite q \<and> el_focusable e"
  let ?s = "numberToString H (Finite q)"
  let ?ef = "e\<lparr>el_filling := True\<rparr>"
  have eq: "fillNumberField H e v =
      (Inr True, assignValue H e (fitMaxLength e (trim ?s)),
       if el_maxLength e > 0 \<and> int (length (trim ?s)) > el_maxLength e
       then [WarnTruncated (el_maxLength e)] else [])"
    using a fillNumberField_accepted [of H e v] fillTextField_focusable [of e H ?s]
    by (simp add: rethrow_def)
  show "fst (fillNumberField H e v) = Inr True" by (simp add: eq)
  show "fst (snd (fillNumberField H e v)) = assignValue H e (fitMaxLength e (trim ?s))"
    by (simp add: eq)
  have a': "\<not> numberRejected H ?ef v" and f': "el_focusable ?ef" using a by simp_all
  obtain e' c where o: "fillNumberField H ?ef v = (Inr True, e', c)"
    using a fillNumberField_accepted [OF a'] fillTextField_focusable [OF f', of H ?s]
    by (simp add: rethrow_def)
  have out: "setFieldValue H ?ef (m_value m) (f_type (m_field m)) = (Inr True, e', c)"
    using setFieldValue_number [of H ?ef v] o kind val by (simp add: rethrow_def)
  show "rs_results (attemptField (autoFiller H) m st)
          = (rs_results st)\<lparr>fieldsFilled := fieldsFilled (rs_results st) + 1\<rparr>"
    using attemptField_autoFiller [OF r e ok out] by simp
next
  assume a: "\<not> numberRejected H e v \<and> parseFloat H v = Finite q \<and> \<not> el_focusable e"
  then show "fillNumberField H e v
              = (Inl (js ''Number field fill failed: '' @ js ''Text field fill failed: ''
                      @ js ''Could not focus on text field''), e, [])"
    using fillNumberField_accepted [of H e v] fillTextField_unfocusable [of e H]
    by (simp add: rethrow_def)
qed

theorem fillNumberField_rejects_or_stores_witness:
  "numberRejected ascii_host ageInput (js ''15'')
   \<and> fst (fillNumberField ascii_host ageInput (js ''15'')) = Inr False
   \<and> rs_results (attemptField (autoFiller ascii_host) ageCandidate ageState)
       = (freshResults 1)\<lparr>fieldsSkipped := 1, warnings := [js ''Could not fill field: age'']\<rparr>
   \<and> errors (rs_results (attemptField (autoFiller ascii_host) ageCandidate ageState)) = []
   \<and> \<not> numberRejected ascii_host ageInput (js ''5'')
   \<and> parseFloat ascii_host (js ''5'') = Finite 5 \<and> el_focusable ageInput
   \<and> fst (fillNumberField ascii_host ageInput (js ''5'')) = Inr True
   \<and> fst (snd (fillNumberField ascii_host ageInput (js ''5''))) = ageInput\<lparr>el_value := js ''5''\<rparr>
   \<and> rs_results (attemptField (autoFiller ascii_host) (ageCandidate\<lparr>m_value := js ''5''\<rparr>) ageState)
       = (freshResults 1)\<lparr>fieldsFilled := 1\<rparr>
   \<and> fst (fillNumberField ascii_host (ageInput\<lparr>el_focusable := False\<rparr>) (js ''5''))
       = Inl (js ''Number field fill failed: Text field fill failed: Could not focus on text field'')"
proof -
  have k: "f_type (m_field ageCandidate) = js ''number''"
    by (simp add: ageCandidate_def ageField_def namedField_def)
  have v: "m_value ageCandidate = js ''15''" by (simp add: ageCandidate_def)
  have el: "f_element (m_field ageCandidate) = 0"
    by (simp add: ageCandidate_def ageField_def namedField_def)
  have r: "f_element (m_field ageCandidate) < length (p_elements (rs_page ageState))"
    by (simp add: el ageState_def)
  have e: "p_elements (rs_page ageState) ! f_element (m_field ageCandidate) = ageInput"
    by (simp add: el ageState_def)
  have ok: "el_attached ageInput" "\<not> el_disabled ageInput" "\<not> el_readOnly ageInput"
    "el_width ageInput \<noteq> 0" "el_height ageInput \<noteq> 0"
    by (simp_all add: ageInput_def numberInput_def plainInput_def)
  have f: "el_focusable ageInput" by (simp add: ageInput_def numberInput_def plainInput_def)
  have rej: "numberRejected ascii_host ageInput (js ''15'')" by code_simp
  have acc: "\<not> numberRejected ascii_host ageInput (js ''5'')" by code_simp
  have p5: "parseFloat ascii_host (js ''5'') = Finite 5" by code_simp
  have s: "assignValue ascii_host ageInput
             (fitMaxLength ageInput (trim (numberToString ascii_host (Finite 5))))
             = ageInput\<lparr>el_value := js ''5''\<rparr>"
    by code_simp
  have i: "f_identifier (m_field ageCandidate) = js ''age''" by code_simp
  have j: "js ''Could not fill field: '' @ js ''age'' = js ''Could not fill field: age''"
    by (simp add: js_def)
  let ?m5 = "ageCandidate\<lparr>m_value := js ''5''\<rparr>"
  have k5: "f_type (m_field ?m5) = js ''number''" using k by simp
  have v5: "m_value ?m5 = js ''5''" by simp
  have r5: "f_element (m_field ?m5) < length (p_elements (rs_page ageState))" using r by simp
  have e5: "p_elements (rs_page ageState) ! f_element (m_field ?m5) = ageInput" using e by simp
  have m: "fst (fillNumberField ascii_host ageInput (js ''5'')) = Inr True
     \<and> fst (snd (fillNumberField ascii_host ageInput (js ''5''))) = ageInput\<lparr>el_value := js ''5''\<rparr>
     \<and> rs_results (attemptField (autoFiller ascii_host) ?m5 ageState)
         = (freshResults 1)\<lparr>fieldsFilled := 1\<rparr>"
    using fillNumberField_rejects_or_stores [OF k5 v5 r5 e5 ok, of ascii_host 5] acc f p5 s
    by (simp add: ageState_def freshResults_def)
  let ?u = "ageInput\<lparr>el_focusable := False\<rparr>"
  let ?st = "ageState\<lparr>rs_page := (rs_page ageState)\<lparr>p_elements := [?u]\<rparr>\<rparr>"
  have ru: "f_element (m_field ?m5) < length (p_elements (rs_page ?st))" by (simp add: el)
  have eu: "p_elements (rs_page ?st) ! f_element (m_field ?m5) = ?u" by (simp add: el)
  have oku: "el_attached ?u" "\<not> el_disabled ?u" "\<not> el_readOnly ?u" "el_width ?u \<noteq> 0" "el_height ?u \<noteq> 0"
    using ok by simp_all
  have accu: "\<not> numberRejected ascii_host ?u (js ''5'')" using acc by (simp add: numberRejected_def)
  have msg: "js ''Number field fill failed: '' @ js ''Text field fill failed: ''
                      @ js ''Could not focus on text field''
      = js ''Number field fill failed: Text field fill failed: Could not focus on text field''"
    by (simp add: js_def)
  from fillNumberField_rejects_or_stores [OF k5 v5 ru eu oku, of ascii_host 5] accu p5
  have "fillNumberField ascii_host ?u (js ''5'')
              = (Inl (js ''Number field fill failed: '' @ js ''Text field fill failed: ''
                      @ js ''Could not focus on text field''), ?u, [])"
    by simp
  then have thrown: "fst (fillNumberField ascii_host ?u (js ''5''))
       = Inl (js ''Number field fill failed: Text field fill failed: Could not focus on text field'')"
    unfolding msg by simp
  from fillNumberField_rejects_or_stores [OF k v r e ok, of ascii_host] rej
  show ?thesis using acc f p5 m thrown by (simp add: i j ageState_def freshResults_def)
qed

text \<open>
  The claim as stated has every in-range finite value assigned whole, with \<open>true\<close>
  returned, on every control. A number input that does not accept focus, filled with
  \<open>5\<close>: the fill throws. A number input with \<open>maxLength = 2\<close> filled with \<open>123\<close>: the
  text \<open>12\<close> is assigned. The claim also has \<open>false\<close> for every value that does not
  parse to a finite number: \<open>Infinity\<close> parses to an infinity, which the test \<open>isNaN\<close>
  lets pass, so on an input without bounds the fill returns \<open>true\<close>, and the number
  input, which keeps nothing of the assigned text \<open>Infinity\<close>, is still empty.
\<close>

theorem fillNumberField_focus_counterexample:
  "fst (fillNumberField ascii_host (numberInput\<lparr>el_focusable := False\<rparr>) (js ''5''))
     = Inl (js ''Number field fill failed: Text field fill failed: Could not focus on text field'')
   \<and> fillNumberField ascii_host (numberInput\<lparr>el_maxLength := 2\<rparr>) (js ''123'')
     = (Inr True, numberInput\<lparr>el_maxLength := 2, el_value := js ''12''\<rparr>, [WarnTruncated 2])
   \<and> parseFloat ascii_host (js ''Infinity'') = PosInf
   \<and> el_min numberInput = [] \<and> el_max numberInput = [] \<and> el_value numberInput = []
   \<and> fillNumberField ascii_host numberInput (js ''Infinity'') = (Inr True, numberInput, [])"
  by code_simp

text \<open>
  C5, as the code has it. The phone strategy removes from the trimmed value every code
  unit other than digits, \<open>+\<close>, \<open>-\<close>, parentheses and whitespace, and applies the
  text-like fill to the rest: on a control that accepts focus that fill trims again,
  cuts to a positive \<open>maxLength\<close>, assigns and returns \<open>true\<close>, and on a control that
  does not accept focus it throws and leaves the control alone. Every \<open>+\<close> and every
  whitespace code unit of the trimmed value is kept, wherever it stands. On a value
  whose trimmed text has no \<open>+\<close> after its first code unit and no whitespace other than
  spaces, the text is the one that the claim describes.
\<close>

theorem fillPhoneField_keeps_every_plus:
  "fillPhoneField H e v
     = rethrow (js ''Phone field fill failed: '')
         (fillTextField H e (filter isPhoneChar (trim v)))
   \<and> filter isPhoneChar (trim v)
       = filter (\<lambda>c. isDigit c \<or> c = 0x2B \<or> c = 0x2D \<or> c = 0x28 \<or> c = 0x29 \<or> isWhiteSpace c)
           (trim v)
   \<and> filter (\<lambda>c. c = 0x2B) (filter isPhoneChar (trim v)) = filter (\<lambda>c. c = 0x2B) (trim v)
   \<and> filter isWhiteSpace (filter isPhoneChar (trim v)) = filter isWhiteSpace (trim v)
   \<and> (el_focusable e \<longrightarrow>
        fst (fillPhoneField H e v) = Inr True
        \<and> fst (snd (fillPhoneField H e v))
            = assignValue H e (fitMaxLength e (trim (filter isPhoneChar (trim v)))))
   \<and> (\<not> el_focusable e \<longrightarrow>
        fillPhoneField H e v
          = (Inl (js ''Phone field fill failed: '' @ js ''Text field fill failed: ''
                  @ js ''Could not focus on text field''), e, []))
   \<and> (list_all (\<lambda>c. c \<noteq> 0x2B) (tl (trim v))
        \<and> list_all (\<lambda>c. isWhiteSpace c \<longrightarrow> c = 0x20) (trim v) \<longrightarrow>
        filter isPhoneChar (trim v) = claimedPhoneText v)"
proof -
  let ?p = "filter isPhoneChar (trim v)"
  have d: "fillPhoneField H e v = rethrow (js ''Phone field fill failed: '') (fillTextField H e ?p)"
    by (simp add: fillPhoneField_def)
  have k: "?p = filter (\<lambda>c. isDigit c \<or> c = 0x2B \<or> c = 0x2D \<or> c = 0x28 \<or> c = 0x29 \<or> isWhiteSpace c)
                  (trim v)"
    by (rule filter_cong) (auto simp: isPhoneChar_def)
  have f: "el_focusable e \<longrightarrow>
        fst (fillPhoneField H e v) = Inr True
        \<and> fst (snd (fillPhoneField H e v)) = assignValue H e (fitMaxLength e (trim ?p))"
  proof
    assume "el_focusable e"
    from fillTextField_focusable [OF this, of H ?p]
    show "fst (fillPhoneField H e v) = Inr True
        \<and> fst (snd (fillPhoneField H e v)) = assignValue H e (fitMaxLength e (trim ?p))"
      by (simp add: d rethrow_def)
  qed
  have n: "\<not> el_focusable e \<longrightarrow>
        fillPhoneField H e v
          = (Inl (js ''Phone field fill failed: '' @ js ''Text field fill failed: ''
                  @ js ''Could not focus on text field''), e, [])"
    by (simp add: d fillTextField_unfocusable rethrow_def)
  have c: "list_all (\<lambda>c. c \<noteq> 0x2B) (tl (trim v))
        \<and> list_all (\<lambda>c. isWhiteSpace c \<longrightarrow> c = 0x20) (trim v) \<longrightarrow> ?p = claimedPhoneText v"
    using phone_as_claimed [of v] by blast
  show ?thesis
    using d k f n c phone_keeps_plus [of "trim v"] phone_keeps_whitespace [of "trim v"]
    by (intro conjI)
qed

theorem fillPhoneField_keeps_every_plus_witness:
  "el_focusable telInput
   \<and> fillPhoneField ascii_host telInput (js '' +1 (555) 010-99 ext+7 '')
       = (Inr True, telInput\<lparr>el_value := js ''+1 (555) 010-99 +7''\<rparr>, [])
   \<and> list_all (\<lambda>c. c \<noteq> 0x2B) (tl (trim (js ''+1 (555) 010-99 ext. 7'')))
   \<and> list_all (\<lambda>c. \<not> isWhiteSpace c \<or> c = 0x20) (trim (js ''+1 (555) 010-99 ext. 7''))
   \<and> claimedPhoneText (js ''+1 (555) 010-99 ext. 7'') = js ''+1 (555) 010-99  7''
   \<and> filter isPhoneChar (trim (js ''+1 (555) 010-99 ext. 7'')) = js ''+1 (555) 010-99  7''
   \<and> fst (fillPhoneField ascii_host (telInput\<lparr>el_focusable := False\<rparr>) (js ''1+2''))
       = Inl (js ''Phone field fill failed: Text field fill failed: Could not focus on text field'')"
proof -
  have h: "el_focusable telInput" by (simp add: telInput_def plainInput_def)
  have f: "filter isPhoneChar (trim (js '' +1 (555) 010-99 ext+7 '')) = js ''+1 (555) 010-99 +7''"
    by code_simp
  have a: "assignValue ascii_host telInput (fitMaxLength telInput (trim (js ''+1 (555) 010-99 +7'')))
             = telInput\<lparr>el_value := js ''+1 (555) 010-99 +7''\<rparr>"
    by code_simp
  have g: "fillTextField ascii_host telInput (js ''+1 (555) 010-99 +7'')
             = (Inr True, telInput\<lparr>el_value := js ''+1 (555) 010-99 +7''\<rparr>, [])"
    by code_simp
  have p1: "list_all (\<lambda>c. c \<noteq> 0x2B) (tl (trim (js ''+1 (555) 010-99 ext. 7'')))"
    by code_simp
  have p2: "list_all (\<lambda>c. isWhiteSpace c \<longrightarrow> c = 0x20) (trim (js ''+1 (555) 010-99 ext. 7''))"
    by code_simp
  have p2': "list_all (\<lambda>c. \<not> isWhiteSpace c \<or> c = 0x20) (trim (js ''+1 (555) 010-99 ext. 7''))"
    using p2 by (simp add: list_all_iff)
  have q: "claimedPhoneText (js ''+1 (555) 010-99 ext. 7'') = js ''+1 (555) 010-99  7''"
    by code_simp
  note T1 = fillPhoneField_keeps_every_plus [of ascii_host telInput "js '' +1 (555) 010-99 ext+7 ''"]
  note T2 = fillPhoneField_keeps_every_plus [of ascii_host telInput "js ''+1 (555) 010-99 ext. 7''"]
  have A: "fillPhoneField ascii_host telInput (js '' +1 (555) 010-99 ext+7 '')
       = (Inr True, telInput\<lparr>el_value := js ''+1 (555) 010-99 +7''\<rparr>, [])"
    using T1 h by (simp add: f g rethrow_def)
  from T2 have "list_all (\<lambda>c. c \<noteq> 0x2B) (tl (trim (js ''+1 (555) 010-99 ext. 7'')))
        \<and> list_all (\<lambda>c. isWhiteSpace c \<longrightarrow> c = 0x20) (trim (js ''+1 (555) 010-99 ext. 7'')) \<longrightarrow>
        filter isPhoneChar (trim (js ''+1 (555) 010-99 ext. 7''))
          = claimedPhoneText (js ''+1 (555) 010-99 ext. 7'')"
    by blast
  then have B: "filter isPhoneChar (trim (js ''+1 (555) 010-99 ext. 7'')) = js ''+1 (555) 010-99  7''"
    using p1 p2 unfolding q by blast
  have msg: "js ''Phone field fill failed: '' @ js ''Text field fill failed: ''
                  @ js ''Could not focus on text field''
       = js ''Phone field fill failed: Text field fill failed: Could not focus on text field''"
    by (simp add: js_def)
  have nf: "\<not> el_focusable (telInput\<lparr>el_focusable := False\<rparr>)" by simp
  from fillPhoneField_keeps_every_plus [of ascii_host "telInput\<lparr>el_focusable := False\<rparr>" "js ''1+2''"] nf
  have "fillPhoneField ascii_host (telInput\<lparr>el_focusable := False\<rparr>) (js ''1+2'')
          = (Inl (js ''Phone field fill failed: '' @ js ''Text field fill failed: ''
                  @ js ''Could not focus on text field''), telInput\<lparr>el_focusable := False\<rparr>, [])"
    by blast
  then have C: "fst (fillPhoneField ascii_host (telInput\<lparr>el_focusable := False\<rparr>) (js ''1+2''))
       = Inl (js ''Phone field fill failed: Text field fill failed: Could not focus on text field'')"
    unfolding msg by simp
  show ?thesis using h A p1 p2' q B C by simp
qed

text \<open>
  The claim as stated has a \<open>+\<close> that is not leading removed, and of the whitespace
  only spaces kept. On a \<open>tel\<close> input the value \<open>1+2\<close> is stored as it is, and so is
  \<open>1\<close>, a tab, \<open>2\<close>; the claim's text is \<open>12\<close> for both.
\<close>

theorem fillPhoneField_inner_plus_counterexample:
  "fillPhoneField ascii_host telInput (js ''1+2'')
     = (Inr True, telInput\<lparr>el_value := js ''1+2''\<rparr>, [])
   \<and> claimedPhoneText (js ''1+2'') = js ''12''
   \<and> fillPhoneField ascii_host telInput tabbedPhone
     = (Inr True, telInput\<lparr>el_value := js ''1'' @ [0x9] @ js ''2''\<rparr>, [])
   \<and> claimedPhoneText tabbedPhone = js ''12''"
  by code_simp

text \<open>
  C6, as the code has it. On a control that accepts focus: filling a value whose
  trimmed text is not empty and lacks an \<open>http://\<close> or \<open>https://\<close> scheme assigns that
  text with \<open>https://\<close> prepended once, and filling a value whose trimmed text starts
  with such a scheme assigns that text unchanged; either text is first cut to a
  positive \<open>maxLength\<close> that is shorter, and the control holds what its value setter
  makes of the assigned text. On a control that does not accept focus the fill throws
  and the control is left alone. On a \<open>url\<close> input, whose setter drops line breaks and
  then leading and trailing ASCII whitespace, when nothing is cut: the control holds
  the assigned text without its line breaks, and filling it again with the value read
  back stores the same value and logs nothing, so the scheme is never prepended twice.
\<close>

theorem fillUrlField_prepends_once:
  "(el_focusable e \<and> trim v \<noteq> [] \<and> \<not> hasScheme (trim v) \<longrightarrow>
      fst (fillUrlField H e v) = Inr True
      \<and> fst (snd (fillUrlField H e v))
          = assignValue H e (fitMaxLength e (js ''https://'' @ trim v)))
   \<and> (el_focusable e \<and> hasScheme (trim v) \<longrightarrow>
        fst (fillUrlField H e v) = Inr True
        \<and> fst (snd (fillUrlField H e v)) = assignValue H e (fitMaxLength e (trim v)))
   \<and> (\<not> el_focusable e \<longrightarrow>
        fillUrlField H e v
          = (Inl (js ''URL field fill failed: '' @ js ''Text field fill failed: ''
                  @ js ''Could not focus on text field''), e, []))
   \<and> (el_focusable e
        \<and> (\<forall>x s. valueSanitization H (e\<lparr>el_value := x\<rparr>) s = stripAsciiWhitespace (stripNewlines s))
        \<and> (el_maxLength e \<le> 0 \<or> int (length (withScheme (trim v))) \<le> el_maxLength e) \<longrightarrow>
        fillUrlField H e v
          = (Inr True, e\<lparr>el_value := stripNewlines (withScheme (trim v))\<rparr>, [])
        \<and> fillUrlField H (fst (snd (fillUrlField H e v))) (el_value (fst (snd (fillUrlField H e v))))
            = (Inr True, fst (snd (fillUrlField H e v)), []))"
proof (intro conjI impI)
  define u where "u = withScheme (trim v)"
  {
    assume a: "el_focusable e \<and> trim v \<noteq> [] \<and> \<not> hasScheme (trim v)"
    then have "u = js ''https://'' @ trim v" by (simp add: u_def withScheme_def)
    then show "fst (fillUrlField H e v) = Inr True"
      and "fst (snd (fillUrlField H e v)) = assignValue H e (fitMaxLength e (js ''https://'' @ trim v))"
      using a fillUrlField_focusable [of e H v, folded u_def] by simp_all
  }
  {
    assume a: "el_focusable e \<and> hasScheme (trim v)"
    then have "u = trim v" by (simp add: u_def withScheme_def)
    then show "fst (fillUrlField H e v) = Inr True"
      and "fst (snd (fillUrlField H e v)) = assignValue H e (fitMaxLength e (trim v))"
      using a fillUrlField_focusable [of e H v, folded u_def] by simp_all
  }
  {
    assume "\<not> el_focusable e"
    then show "fillUrlField H e v
          = (Inl (js ''URL field fill failed: '' @ js ''Text field fill failed: ''
                  @ js ''Could not focus on text field''), e, [])"
      by (simp add: fillUrlField_withScheme fillTextField_unfocusable rethrow_def)
  }
  {
    assume a: "el_focusable e
        \<and> (\<forall>x s. valueSanitization H (e\<lparr>el_value := x\<rparr>) s = stripAsciiWhitespace (stripNewlines s))
        \<and> (el_maxLength e \<le> 0 \<or> int (length (withScheme (trim v))) \<le> el_maxLength e)"
    define s where "s = stripNewlines u"
    define e' where "e' = e\<lparr>el_value := s\<rparr>"
    have focus: "el_focusable e" using a by simp
    have room: "el_maxLength e \<le> 0 \<or> int (length u) \<le> el_maxLength e"
      using a by (simp add: u_def)
    have "valueSanitization H (e\<lparr>el_value := el_value e\<rparr>) t = stripAsciiWhitespace (stripNewlines t)" for t
      using a by blast
    then have set1: "valueSanitization H e t = stripAsciiWhitespace (stripNewlines t)" for t
      by simp
    have set2: "valueSanitization H e' t = stripAsciiWhitespace (stripNewlines t)" for t
      using a by (simp add: e'_def)
    note settled = url_text_settled [of v, folded u_def, folded s_def]
    have fit: "fitMaxLength e u = u" using room by (auto simp: fitMaxLength_def)
    have av: "assignValue H e u = e'"
      unfolding assignValue_def set1 by (simp add: e'_def s_def [symmetric] settled(1))
    have one: "fillUrlField H e v = (Inr True, e', [])"
      using fillUrlField_focusable [OF focus, of H v, folded u_def] room by (auto simp: fit av)
    have focus': "el_focusable e'" using focus by (simp add: e'_def)
    have room': "el_maxLength e' \<le> 0 \<or> int (length s) \<le> el_maxLength e'"
      using room settled(4) by (auto simp: e'_def)
    have fit': "fitMaxLength e' s = s" using room' by (auto simp: fitMaxLength_def)
    have av': "assignValue H e' s = e'"
      unfolding assignValue_def set2 settled(3) by (simp add: e'_def)
    have "fillUrlField H e' s = (Inr True, e', [])"
      using fillUrlField_focusable [OF focus', of H s] room'
      by (auto simp: settled(2) fit' av')
    then have two: "fillUrlField H e' (el_value e') = (Inr True, e', [])"
      by (simp add: e'_def)
    show "fillUrlField H e v
          = (Inr True, e\<lparr>el_value := stripNewlines (withScheme (trim v))\<rparr>, [])"
      using one by (simp add: e'_def s_def u_def)
    show "fillUrlField H (fst (snd (fillUrlField H e v))) (el_value (fst (snd (fillUrlField H e v))))
            = (Inr True, fst (snd (fillUrlField H e v)), [])"
      using two by (simp add: one)
  }
qed

theorem fillUrlField_prepends_once_witness:
  "el_focusable (urlInput\<lparr>el_maxLength := 30\<rparr>)
   \<and> trim (js ''  example.com '') = js ''example.com''
   \<and> \<not> hasScheme (js ''example.com'')
   \<and> int (length (js ''https://example.com'')) \<le> el_maxLength (urlInput\<lparr>el_maxLength := 30\<rparr>)
   \<and> fillUrlField ascii_host (urlInput\<lparr>el_maxLength := 30\<rparr>) (js ''  example.com '')
        = (Inr True, urlInput\<lparr>el_maxLength := 30, el_value := js ''https://example.com''\<rparr>, [])
   \<and> fillUrlField ascii_host (urlInput\<lparr>el_maxLength := 30, el_value := js ''https://example.com''\<rparr>)
          (js ''https://example.com'')
        = (Inr True, urlInput\<lparr>el_maxLength := 30, el_value := js ''https://example.com''\<rparr>, [])
   \<and> hasScheme (trim (js ''http://example.com''))
   \<and> fst (snd (fillUrlField ascii_host (urlInput\<lparr>el_maxLength := 30\<rparr>) (js ''http://example.com'')))
        = urlInput\<lparr>el_maxLength := 30, el_value := js ''http://example.com''\<rparr>
   \<and> fst (fillUrlField ascii_host (urlInput\<lparr>el_focusable := False\<rparr>) (js ''example.com''))
        = Inl (js ''URL field fill failed: Text field fill failed: Could not focus on text field'')"
proof -
  let ?e = "urlInput\<lparr>el_maxLength := 30\<rparr>"
  let ?u = "js ''https://example.com''"
  let ?v = "js ''  example.com ''"
  have h1: "el_focusable ?e" by (simp add: urlInput_def plainInput_def)
  have t: "trim ?v = js ''example.com''" by code_simp
  have s: "\<not> hasScheme (js ''example.com'')" by code_simp
  have w: "withScheme (trim ?v) = ?u" by code_simp
  have n: "stripNewlines ?u = ?u" by code_simp
  have l: "int (length ?u) \<le> el_maxLength ?e" by code_simp
  have ty: "el_type (?e\<lparr>el_value := x\<rparr>) = js ''url''" for x
    by (simp add: urlInput_def plainInput_def)
  have notText: "js ''url'' \<notin> set (map js [''text'', ''search'', ''tel'', ''password''])"
    by (simp add: js_def)
  have isUrl: "js ''url'' \<in> set (map js [''url'', ''email''])" by simp
  have k: "\<forall>x s. valueSanitization ascii_host (?e\<lparr>el_value := x\<rparr>) s
              = stripAsciiWhitespace (stripNewlines s)"
    unfolding ascii_host_def htmlValueSanitization_def using notText isUrl
    by (simp only: host.simps ty if_False if_True) simp
  have t2: "trim (js ''http://example.com'') = js ''http://example.com''" by code_simp
  have s2: "hasScheme (js ''http://example.com'')" by code_simp
  have a2: "assignValue ascii_host ?e (fitMaxLength ?e (js ''http://example.com''))
              = ?e\<lparr>el_value := js ''http://example.com''\<rparr>"
    by code_simp
  have nf: "\<not> el_focusable (urlInput\<lparr>el_focusable := False\<rparr>)" by simp
  have msg: "js ''URL field fill failed: '' @ js ''Text field fill failed: ''
                  @ js ''Could not focus on text field''
       = js ''URL field fill failed: Text field fill failed: Could not focus on text field''"
    by (simp add: js_def)
  note T = fillUrlField_prepends_once [of ?e ?v ascii_host]
  note T2 = fillUrlField_prepends_once [of ?e "js ''http://example.com''" ascii_host]
  note T3 = fillUrlField_prepends_once [of "urlInput\<lparr>el_focusable := False\<rparr>" "js ''example.com''" ascii_host]
  have room: "el_focusable ?e
      \<and> (\<forall>x s. valueSanitization ascii_host (?e\<lparr>el_value := x\<rparr>) s
              = stripAsciiWhitespace (stripNewlines s))
      \<and> (el_maxLength ?e \<le> 0 \<or> int (length (withScheme (trim ?v))) \<le> el_maxLength ?e)"
    unfolding w using h1 k l by blast
  from T room have R: "fillUrlField ascii_host ?e ?v
        = (Inr True, ?e\<lparr>el_value := stripNewlines (withScheme (trim ?v))\<rparr>, [])
      \<and> fillUrlField ascii_host (fst (snd (fillUrlField ascii_host ?e ?v)))
              (el_value (fst (snd (fillUrlField ascii_host ?e ?v))))
            = (Inr True, fst (snd (fillUrlField ascii_host ?e ?v)), [])"
    by blast
  have A: "fillUrlField ascii_host ?e ?v = (Inr True, ?e\<lparr>el_value := ?u\<rparr>, [])"
    using R unfolding w n by blast
  have "fillUrlField ascii_host (fst (snd (fillUrlField ascii_host ?e ?v)))
              (el_value (fst (snd (fillUrlField ascii_host ?e ?v))))
            = (Inr True, fst (snd (fillUrlField ascii_host ?e ?v)), [])"
    using R by blast
  then have B: "fillUrlField ascii_host (?e\<lparr>el_value := ?u\<rparr>) ?u = (Inr True, ?e\<lparr>el_value := ?u\<rparr>, [])"
    unfolding A by simp
  have C: "fst (snd (fillUrlField ascii_host ?e (js ''http://example.com'')))
        = ?e\<lparr>el_value := js ''http://example.com''\<rparr>"
    using T2 s2 h1 by (simp add: t2 a2)
  from T3 nf have "fillUrlField ascii_host (urlInput\<lparr>el_focusable := False\<rparr>) (js ''example.com'')
          = (Inl (js ''URL field fill failed: '' @ js ''Text field fill failed: ''
                  @ js ''Could not focus on text field''), urlInput\<lparr>el_focusable := False\<rparr>, [])"
    by blast
  then have D: "fst (fillUrlField ascii_host (urlInput\<lparr>el_focusable := False\<rparr>) (js ''example.com''))
        = Inl (js ''URL field fill failed: Text field fill failed: Could not focus on text field'')"
    unfolding msg by simp
  show ?thesis using h1 t s l A B C D s2 by (simp add: t2)
qed

text \<open>
  The claim as stated has the whole text stored, on every control, and a second fill
  that changes nothing. A \<open>url\<close> input with \<open>maxLength = 10\<close> filled with
  \<open>example.com\<close> holds \<open>https://ex\<close>. A \<open>url\<close> input that does not accept focus: the
  fill throws. A \<open>url\<close> input filled with a text that has a line feed inside holds the
  text without the line feed. The input with \<open>maxLength = 10\<close> filled with \<open>a\<close>, a
  no-break space and \<open>b\<close> holds \<open>https://a\<close> and the no-break space, which the cut has
  made the last code unit; filled again with the value read back, it holds
  \<open>https://a\<close>: the second fill changes the value.
\<close>

theorem fillUrlField_cut_counterexample:
  "fillUrlField ascii_host (urlInput\<lparr>el_maxLength := 10\<rparr>) (js ''example.com'')
     = (Inr True, urlInput\<lparr>el_maxLength := 10, el_value := js ''https://ex''\<rparr>, [WarnTruncated 10])
   \<and> fst (fillUrlField ascii_host (urlInput\<lparr>el_focusable := False\<rparr>) (js ''example.com''))
     = Inl (js ''URL field fill failed: Text field fill failed: Could not focus on text field'')
   \<and> trim brokenUrl = js ''exam'' @ [0xA] @ js ''ple.com''
   \<and> fillUrlField ascii_host urlInput brokenUrl
     = (Inr True, urlInput\<lparr>el_value := js ''https://example.com''\<rparr>, [])
   \<and> el_value (fst (snd (fillUrlField ascii_host (urlInput\<lparr>el_maxLength := 10\<rparr>) nbspUrl)))
     = js ''https://a'' @ [0xA0]
   \<and> el_value (fst (snd (fillUrlField ascii_host
         (urlInput\<lparr>el_maxLength := 10, el_value := js ''https://a'' @ [0xA0]\<rparr>)
         (js ''https://a'' @ [0xA0]))))
     = js ''https://a''"
  by code_simp

section \<open>Properties of the run\<close>

text \<open>
  C2. For every filler and clock, the fill loop attempts exactly the candidates of
  the rounds that begin within the 30 s budget, one after the other, whatever the
  outcome of each: its final state is the state after these attempts, with the one
  warning \<open>Auto-fill timed out ...\<close> appended when a candidate is left. Filled and
  skipped counters grow by one per attempted candidate and not at all for the others;
  when no round begins past the budget, every candidate is attempted. An attempt whose
  fill throws appends an error entry with the field's identifier and counts a skip;
  so does one whose fill is still pending when the 5 s timer fires, with the message
  \<open>Field fill timeout\<close>.
\<close>

theorem fillLoop_isolates_failures:
  "fillLoop F now i ms st =
     (let k = attemptedCount now i (length ms);
          st' = foldl (\<lambda>s m. attemptField F m s) st (take k ms)
      in if k < length ms then markTimedOut st' else st')
   \<and> fieldsFilled (rs_results (fillLoop F now i ms st))
       + fieldsSkipped (rs_results (fillLoop F now i ms st))
       = fieldsFilled (rs_results st) + fieldsSkipped (rs_results st)
         + attemptedCount now i (length ms)
   \<and> ((\<forall>j<length ms. now (Suc (i + j)) - now 0 \<le> fillTimeout)
        \<longrightarrow> attemptedCount now i (length ms) = length ms)
   \<and> (documentContains (rs_page s) (f_element (m_field m)) \<and> F m (rs_page s) = (Rejects msg, pg')
        \<longrightarrow> rs_results (attemptField F m s)
              = (rs_results s)\<lparr>errors := errors (rs_results s)
                                   @ [(f_identifier (m_field m), recordedError msg)],
                   fieldsSkipped := fieldsSkipped (rs_results s) + 1\<rparr>)
   \<and> (documentContains (rs_page s) (f_element (m_field m)) \<and> F m (rs_page s) = (Pending, pg')
        \<longrightarrow> rs_results (attemptField F m s)
              = (rs_results s)\<lparr>errors := errors (rs_results s)
                                   @ [(f_identifier (m_field m), js ''Field fill timeout'')],
                   fieldsSkipped := fieldsSkipped (rs_results s) + 1\<rparr>)"
proof (intro conjI impI)
  let ?k = "attemptedCount now i (length ms)"
  let ?st' = "foldl (\<lambda>s m. attemptField F m s) st (take ?k ms)"
  show c: "fillLoop F now i ms st =
     (let k = attemptedCount now i (length ms);
          st' = foldl (\<lambda>s m. attemptField F m s) st (take k ms)
      in if k < length ms then markTimedOut st' else st')"
    by (rule fillLoop_char)
  have cnt: "fieldsFilled (rs_results ?st') + fieldsSkipped (rs_results ?st')
          = fieldsFilled (rs_results st) + fieldsSkipped (rs_results st) + length (take ?k ms)"
    by (rule foldl_attemptField_counts)
  have len: "length (take ?k ms) = ?k" using attemptedCount_le [of now i "length ms"] by simp
  have ff: "fieldsFilled (rs_results (fillLoop F now i ms st)) = fieldsFilled (rs_results ?st')"
    by (simp add: fillLoop_char Let_def markTimedOut_def)
  have fs: "fieldsSkipped (rs_results (fillLoop F now i ms st)) = fieldsSkipped (rs_results ?st')"
    by (simp add: fillLoop_char Let_def markTimedOut_def)
  show "fieldsFilled (rs_results (fillLoop F now i ms st))
       + fieldsSkipped (rs_results (fillLoop F now i ms st))
       = fieldsFilled (rs_results st) + fieldsSkipped (rs_results st) + ?k"
    unfolding ff fs using cnt len by linarith
next
  assume "\<forall>j<length ms. now (Suc (i + j)) - now 0 \<le> fillTimeout"
  then show "attemptedCount now i (length ms) = length ms" by (rule attemptedCount_all)
next
  assume "documentContains (rs_page s) (f_element (m_field m)) \<and> F m (rs_page s) = (Rejects msg, pg')"
  then show "rs_results (attemptField F m s)
              = (rs_results s)\<lparr>errors := errors (rs_results s)
                                   @ [(f_identifier (m_field m), recordedError msg)],
                   fieldsSkipped := fieldsSkipped (rs_results s) + 1\<rparr>"
    using attemptField_failed [of s m F "Rejects msg" pg' msg] by (simp add: raceFieldTimeout_def)
next
  assume "documentContains (rs_page s) (f_element (m_field m)) \<and> F m (rs_page s) = (Pending, pg')"
  then show "rs_results (attemptField F m s)
              = (rs_results s)\<lparr>errors := errors (rs_results s)
                                   @ [(f_identifier (m_field m), js ''Field fill timeout'')],
                   fieldsSkipped := fieldsSkipped (rs_results s) + 1\<rparr>"
    using attemptField_failed [of s m F Pending pg' "js ''Field fill timeout''"]
      recordedError_timeout
    by (simp add: raceFieldTimeout_def)
qed

theorem fillLoop_isolates_failures_witness:
  "attemptedCount demoClock 0 4 = 3
   \<and> rs_results (fillLoop demoFiller demoClock 0
        [demoCandidate ''a'', demoCandidate ''b'', demoCandidate ''c'', demoCandidate ''d''] demoState)
       = \<lparr>fieldsDetected = 4, fieldsFilled = 1, fieldsSkipped = 2,
          errors = [(js ''b'', js ''boom''), (js ''c'', js ''Field fill timeout'')],
          warnings = [timedOutWarning]\<rparr>
   \<and> documentContains (rs_page demoState) (f_element (m_field (demoCandidate ''b'')))
   \<and> demoFiller (demoCandidate ''b'') (rs_page demoState) = (Rejects (js ''boom''), rs_page demoState)
   \<and> demoFiller (demoCandidate ''c'') (rs_page demoState) = (Pending, rs_page demoState)
   \<and> rs_results (attemptField demoFiller (demoCandidate ''b'') demoState)
       = (freshResults 4)\<lparr>errors := [(js ''b'', js ''boom'')], fieldsSkipped := 1\<rparr>
   \<and> rs_results (attemptField demoFiller (demoCandidate ''c'') demoState)
       = (freshResults 4)\<lparr>errors := [(js ''c'', js ''Field fill timeout'')], fieldsSkipped := 1\<rparr>"
proof -
  let ?ms = "[demoCandidate ''a'', demoCandidate ''b'', demoCandidate ''c'', demoCandidate ''d'']"
  have k: "attemptedCount demoClock 0 (length ?ms) = 3" by code_simp
  have f: "rs_results (foldl (\<lambda>s m. attemptField demoFiller m s) demoState (take 3 ?ms))
             = \<lparr>fieldsDetected = 4, fieldsFilled = 1, fieldsSkipped = 2,
                errors = [(js ''b'', js ''boom''), (js ''c'', js ''Field fill timeout'')],
                warnings = []\<rparr>"
    by code_simp
  have c: "documentContains (rs_page demoState) (f_element (m_field (demoCandidate ''b'')))"
    "documentContains (rs_page demoState) (f_element (m_field (demoCandidate ''c'')))"
    by code_simp+
  have b: "demoFiller (demoCandidate ''b'') (rs_page demoState) = (Rejects (js ''boom''), rs_page demoState)"
    by (simp add: demoFiller_def demoCandidate_def js_def)
  have p: "demoFiller (demoCandidate ''c'') (rs_page demoState) = (Pending, rs_page demoState)"
    by (simp add: demoFiller_def demoCandidate_def js_def)
  have i: "f_identifier (m_field (demoCandidate ''b'')) = js ''b''"
    "f_identifier (m_field (demoCandidate ''c'')) = js ''c''"
    by code_simp+
  have e: "recordedError (js ''boom'') = js ''boom''" by code_simp
  note T = fillLoop_isolates_failures [of demoFiller demoClock 0 ?ms demoState]
  have loop: "rs_results (fillLoop demoFiller demoClock 0 ?ms demoState)
       = \<lparr>fieldsDetected = 4, fieldsFilled = 1, fieldsSkipped = 2,
          errors = [(js ''b'', js ''boom''), (js ''c'', js ''Field fill timeout'')],
          warnings = [timedOutWarning]\<rparr>"
    using T [of demoState "demoCandidate ''b''" "js ''boom''" "rs_page demoState"] k f
    by (simp add: Let_def markTimedOut_def)
  have rb: "rs_results (attemptField demoFiller (demoCandidate ''b'') demoState)
       = (freshResults 4)\<lparr>errors := [(js ''b'', js ''boom'')], fieldsSkipped := 1\<rparr>"
    using T [of demoState "demoCandidate ''b''" "js ''boom''" "rs_page demoState"] c(1) b
    by (simp add: i e demoState_def freshResults_def)
  have rc: "rs_results (attemptField demoFiller (demoCandidate ''c'') demoState)
       = (freshResults 4)\<lparr>errors := [(js ''c'', js ''Field fill timeout'')], fieldsSkipped := 1\<rparr>"
    using T [of demoState "demoCandidate ''c''" "js ''boom''" "rs_page demoState"] c(2) p
    by (simp add: i demoState_def freshResults_def)
  have k4: "attemptedCount demoClock 0 4 = 3" by code_simp
  show ?thesis by (intro conjI) (rule k4 loop c(1) b p rb rc)+
qed

text \<open>
  C7, as the code has it. A run against a page on which no scanned control is
  visible, enabled and writable does not crash: \<open>performAutoFill\<close> throws
  \<open>No fillable fields detected on this page\<close> before a result object exists, and for a
  non-empty data record on a completely loaded page \<open>handlePerformAutoFill\<close> answers
  with \<open>success = false\<close>, the category \<open>NO_FIELDS\<close> and its message. The response has
  neither \<open>results\<close> nor \<open>fieldsCount\<close>, so it carries no counts, and the page is left
  as it was.
\<close>

theorem no_fields_failure_without_counts:
  assumes "rq_userData rq = Some userData" and "userData \<noteq> []"
    and "readyState = js ''complete''"
    and "\<forall>r\<in>set (p_scanned pg). r < length (p_elements pg) \<longrightarrow>
             \<not> (isFieldVisible (p_elements pg ! r) \<and> \<not> el_disabled (p_elements pg ! r)
                 \<and> \<not> el_readOnly (p_elements pg ! r))"
  shows "performAutoFill H now table userData pg
           = (Inl (js ''No fillable fields detected on this page''), pg)
       \<and> handlePerformAutoFill H now readyState currentMappings rq pg
           = (\<lparr>rsp_success = False,
               rsp_error = Some (js ''No fillable form fields found on this page.''),
               rsp_errorType = Some (js ''NO_FIELDS''),
               rsp_fieldsCount = None, rsp_results = None\<rparr>, pg)"
proof -
  have d: "detectFields H pg = []" using assms(4) by (rule detectFields_none)
  have p: "\<And>t. performAutoFill H now t userData pg
           = (Inl (js ''No fillable fields detected on this page''), pg)"
    using d by (rule performAutoFill_no_fields)
  have e: "\<And>t. performAutoFillWithErrorHandling H now t userData pg
           = (Inl (js ''No fillable fields detected on this page''), pg)"
    using no_fields_message by (simp add: performAutoFillWithErrorHandling_def p)
  have f: "failureResponse (js ''No fillable fields detected on this page'')
           = \<lparr>rsp_success = False,
               rsp_error = Some (js ''No fillable form fields found on this page.''),
               rsp_errorType = Some (js ''NO_FIELDS''),
               rsp_fieldsCount = None, rsp_results = None\<rparr>"
    using no_fields_message by (simp add: failureResponse_def)
  show ?thesis
    using assms(1,2,3) by (simp add: handlePerformAutoFill_def p e f)
qed

theorem no_fields_failure_without_counts_witness:
  "rq_userData zipRequest = Some zipData \<and> zipData \<noteq> []
   \<and> list_all (\<lambda>r. \<not> isFieldVisible (p_elements hiddenPage ! r)) (p_scanned hiddenPage)
   \<and> handlePerformAutoFill ascii_host (\<lambda>i. 0) (js ''complete'') [] zipRequest hiddenPage
       = (\<lparr>rsp_success = False,
           rsp_error = Some (js ''No fillable form fields found on this page.''),
           rsp_errorType = Some (js ''NO_FIELDS''),
           rsp_fieldsCount = None, rsp_results = None\<rparr>, hiddenPage)"
proof -
  have h1: "rq_userData zipRequest = Some zipData" by (simp add: zipRequest_def)
  have h2: "zipData \<noteq> []" by (simp add: zipData_def)
  have v: "\<not> isFieldVisible (p_elements hiddenPage ! 0)"
    by (simp add: isFieldVisible_def hiddenPage_def)
  then have h4: "\<forall>r\<in>set (p_scanned hiddenPage). r < length (p_elements hiddenPage) \<longrightarrow>
             \<not> (isFieldVisible (p_elements hiddenPage ! r) \<and> \<not> el_disabled (p_elements hiddenPage ! r)
                 \<and> \<not> el_readOnly (p_elements hiddenPage ! r))"
    by (simp add: hiddenPage_def)
  have l: "list_all (\<lambda>r. \<not> isFieldVisible (p_elements hiddenPage ! r)) (p_scanned hiddenPage)"
    using v by (simp add: hiddenPage_def)
  from no_fields_failure_without_counts [OF h1 h2 refl h4, of ascii_host "\<lambda>i. 0" "[]" "[]"]
  show ?thesis using h1 h2 l by simp
qed

text \<open>
  The claim as stated has the returned result carry the counts detected 0 and
  filled 0. The response to a run on the page with the hidden input has no result.
\<close>

theorem no_fields_counts_counterexample:
  "rsp_success (fst (handlePerformAutoFill ascii_host (\<lambda>i. 0) (js ''complete'') [] zipRequest hiddenPage)) = False
   \<and> rsp_results (fst (handlePerformAutoFill ascii_host (\<lambda>i. 0) (js ''complete'') [] zipRequest hiddenPage)) = None
   \<and> rsp_fieldsCount (fst (handlePerformAutoFill ascii_host (\<lambda>i. 0) (js ''complete'') [] zipRequest hiddenPage)) = None"
  by code_simp

section \<open>Properties of the file parser\<close>

text \<open>
  C10. Every string that \<open>sanitizeStringValue\<close> returns has at most 1000 code units,
  contains none of the characters \<open><\<close>, \<open>>\<close>, \<open>'\<close>, \<open>"\<close>, \<open>&\<close>, contains no null
  code unit, and does not start with whitespace (stripping leading whitespace from it
  changes nothing).
\<close>

theorem sanitizeStringValue_bounded_clean:
  "length (sanitizeStringValue v) \<le> 1000
   \<and> {c \<in> set (sanitizeStringValue v). isMarkupChar c} = {}
   \<and> 0 \<notin> set (sanitizeStringValue v)
   \<and> trimStart (sanitizeStringValue v) = sanitizeStringValue v"
proof -
  let ?f = "filter (\<lambda>c. c \<noteq> 0) (filter (\<lambda>c. \<not> isMarkupChar c) v)"
  have sub: "set (sanitizeStringValue v) \<subseteq> set ?f"
    unfolding sanitizeStringValue_def substring0_def
    using set_trim [of ?f] set_take_subset [of "nat 1000" "trim ?f"] by blast
  have len: "length (sanitizeStringValue v) \<le> 1000"
    by (simp add: sanitizeStringValue_def substring0_def)
  have markup: "{c \<in> set (sanitizeStringValue v). isMarkupChar c} = {}"
    using sub by auto
  have null: "0 \<notin> set (sanitizeStringValue v)"
    using sub by auto
  have "take 1000 (trim ?f) = [] \<or> \<not> isWhiteSpace (hd (take 1000 (trim ?f)))"
    using trim_head [of ?f] by (cases "trim ?f") auto
  then have lead: "trimStart (sanitizeStringValue v) = sanitizeStringValue v"
    by (simp add: sanitizeStringValue_def substring0_def trimStart_fixed)
  from len markup null lead show ?thesis by blast
qed

theorem sanitizeStringValue_bounded_clean_witness:
  "sanitizeStringValue (js ''  <b>Tom & Jerry</b> '') = js ''bTom  Jerry/b''
   \<and> length (js ''bTom  Jerry/b'') \<le> 1000
   \<and> {c \<in> set (js ''bTom  Jerry/b''). isMarkupChar c} = {}
   \<and> 0 \<notin> set (js ''bTom  Jerry/b'')
   \<and> trimStart (js ''bTom  Jerry/b'') = js ''bTom  Jerry/b''"
proof -
  have e: "sanitizeStringValue (js ''  <b>Tom & Jerry</b> '') = js ''bTom  Jerry/b''"
    by (simp add: sanitizeStringValue_def substring0_def trim_def trimStart_def trimEnd_def
        isWhiteSpace_def isMarkupChar_def js_def)
  show ?thesis
    using sanitizeStringValue_bounded_clean [of "js ''  <b>Tom & Jerry</b> ''"]
    unfolding e by simp
qed

end
